theory Spec2Isabelle
  imports Complex_Main "HOL-Library.Multiset" "HOL-Library.AList"
begin

section \<open>Data model\<close>

text \<open>
  JavaScript numbers are modelled as \<^typ>\<open>real\<close>: the embedding follows the arithmetic
  the source writes, without rounding, NaN or infinities. Objects that the source mutates
  in place are passed in and returned; nested objects (\<open>kart.position.x\<close>,
  \<open>kart.userData.velocity.y\<close>, \<open>kart.rotation.y\<close>) are flattened into one record.
\<close>

datatype HopButton = ButtonZ | ButtonX

datatype Item = Boost | TNT | Missile

text \<open>\<open>KART_DEFAULTS\<close> of physics.js; \<open>s.accel\<close> is named \<open>accelRate\<close> here because
  the input command has a field \<open>accel\<close> too.\<close>

record Stats =
  maxSpeed :: real
  accelRate :: real
  brakeForce :: real
  friction :: real
  turnRate :: real
  slideTurnMult :: real
  slideFrictionMult :: real
  slideSlide :: real
  hopForce :: real
  slideMeterDuration :: real
  boostSpeeds :: "real list"
  boostDurations :: "real list"
  radius :: real

definition KART_DEFAULTS :: Stats where
  "KART_DEFAULTS = \<lparr> maxSpeed = 35, accelRate = 18, brakeForce = 25, friction = 8,
     turnRate = 0.65, slideTurnMult = 1.4, slideFrictionMult = 0.4, slideSlide = 0.3,
     hopForce = 4, slideMeterDuration = 1.5, boostSpeeds = [10, 15, 20],
     boostDurations = [0.5, 0.8, 1.2], radius = 1.0 \<rparr>"

record Kart =
  kart_id :: string
  kartIndex :: nat
  position_x :: real
  position_y :: real
  position_z :: real
  rotation_y :: real
  velocity_x :: real
  velocity_y :: real
  velocity_z :: real
  speed :: real
  steerAngle :: real
  grounded :: bool
  stats :: Stats
  spawnPoint :: "(real \<times> real \<times> real) option"
  slideActive :: bool
  slideButton :: "HopButton option"
  slideDir :: real
  slideAngle :: real
  slideTimer :: real
  slideBoosts :: int
  boostTimer :: real
  boostSpeed :: real
  heldItem :: "Item option"

record Input =
  accel :: real
  steer :: real
  hopZ :: bool
  hopX :: bool
  hopZTap :: bool
  hopXTap :: bool
  itemUseTap :: bool

section \<open>Kart-to-kart collision (kart-collision.js)\<close>

definition KART_RADIUS :: real where "KART_RADIUS = 1.5"
definition BOUNCE_SLOWDOWN :: real where "BOUNCE_SLOWDOWN = 0.85"
definition SEPARATION_FORCE :: real where "SEPARATION_FORCE = 8"

text \<open>The body of the inner loop of \<open>resolveKartCollisions\<close> for the pair \<open>(a, b)\<close>.\<close>

definition collidePair :: "Kart \<Rightarrow> Kart \<Rightarrow> Kart \<times> Kart" where
  "collidePair a b =
    (let dx = position_x b - position_x a;
         dz = position_z b - position_z a;
         distSq = dx * dx + dz * dz;
         minDist = KART_RADIUS * 2
     in if distSq < minDist * minDist \<and> distSq > 0.0001 then
          (let dist = sqrt distSq;
               overlap = minDist - dist;
               nx = dx / dist;
               nz = dz / dist;
               push = overlap * 0.5 + 0.15;
               a1 = a\<lparr>position_x := position_x a - nx * push,
                      position_z := position_z a - nz * push\<rparr>;
               b1 = b\<lparr>position_x := position_x b + nx * push,
                      position_z := position_z b + nz * push\<rparr>;
               relVelN = (velocity_x b1 - velocity_x a1) * nx
                       + (velocity_z b1 - velocity_z a1) * nz;
               a2 = (if relVelN < 0
                     then a1\<lparr>velocity_x := velocity_x a1 + nx * relVelN * 0.5,
                             velocity_z := velocity_z a1 + nz * relVelN * 0.5\<rparr>
                     else a1);
               b2 = (if relVelN < 0
                     then b1\<lparr>velocity_x := velocity_x b1 - nx * relVelN * 0.5,
                             velocity_z := velocity_z b1 - nz * relVelN * 0.5\<rparr>
                     else b1);
               a3 = a2\<lparr>velocity_x := velocity_x a2 - nx * SEPARATION_FORCE,
                       velocity_z := velocity_z a2 - nz * SEPARATION_FORCE\<rparr>;
               b3 = b2\<lparr>velocity_x := velocity_x b2 + nx * SEPARATION_FORCE,
                       velocity_z := velocity_z b2 + nz * SEPARATION_FORCE\<rparr>
           in (a3\<lparr>speed := speed a3 * BOUNCE_SLOWDOWN\<rparr>,
               b3\<lparr>speed := speed b3 * BOUNCE_SLOWDOWN\<rparr>))
        else (a, b))"

text \<open>The index pairs \<open>i < j\<close> in the order the two nested loops visit them.\<close>

definition kartPairs :: "nat \<Rightarrow> (nat \<times> nat) list" where
  "kartPairs n = concat (map (\<lambda>i. map (\<lambda>j. (i, j)) [Suc i..<n]) [0..<n])"

definition collideAt :: "nat \<times> nat \<Rightarrow> Kart list \<Rightarrow> Kart list" where
  "collideAt ij karts =
    (case collidePair (karts ! fst ij) (karts ! snd ij) of
       (a', b') \<Rightarrow> (karts[fst ij := a'])[snd ij := b'])"

text \<open>The array holds distinct kart objects; every index pair produced by \<open>kartPairs\<close> is
  in range, so the list reads never leave the array.\<close>

definition resolveKartCollisions :: "Kart list \<Rightarrow> Kart list" where
  "resolveKartCollisions karts = fold collideAt (kartPairs (length karts)) karts"

text \<open>\<open>dist\<close> of the inner loop: the horizontal distance between the two centres.\<close>

definition horizDist :: "Kart \<Rightarrow> Kart \<Rightarrow> real" where
  "horizDist a b = sqrt ((position_x b - position_x a) * (position_x b - position_x a)
                       + (position_z b - position_z a) * (position_z b - position_z a))"

section \<open>Kart movement model (physics.js, \<open>KartPhysics.update\<close>)\<close>

definition GRAVITY :: real where "GRAVITY = -25"
definition GROUND_SNAP :: real where "GROUND_SNAP = 0.4"
definition SLOPE_SPEED_FACTOR :: real where "SLOPE_SPEED_FACTOR = 30"
definition MAX_DRIVEABLE_SLOPE :: real where "MAX_DRIVEABLE_SLOPE = 0.55"

definition SWEET_SPOTS :: "(real \<times> real) list" where
  "SWEET_SPOTS = [(0.55, 0.85), (0.60, 0.80), (0.65, 0.80)]"

text \<open>\<open>THREE.MathUtils.clamp(value, min, max)\<close> is \<open>Math.max(min, Math.min(max, value))\<close>.\<close>

definition clamp :: "real \<Rightarrow> real \<Rightarrow> real \<Rightarrow> real" where
  "clamp v lo hi = max lo (min hi v)"

record Obstacle =
  center_x :: real
  center_y :: real
  center_z :: real
  halfExtents_x :: real
  halfExtents_y :: real
  halfExtents_z :: real

text \<open>The map lookups of track.js are read-only inputs of the movement model: ground height,
  ground normal \<open>(x, y, z)\<close> and terrain type (0 road, 1 offroad, 2 inaccessible) at a
  world position.\<close>

record TrackData =
  getGroundHeight :: "real \<Rightarrow> real \<Rightarrow> real"
  getGroundNormal :: "real \<Rightarrow> real \<Rightarrow> real \<times> real \<times> real"
  getTerrainType :: "real \<Rightarrow> real \<Rightarrow> nat"

text \<open>A \<open>KartPhysics\<close> instance: its obstacle list, its track and the ground normal it
  remembers from the last grounded frame (\<open>this.groundNormal\<close>, initially \<open>(0, 1, 0)\<close>).\<close>

record KartPhysics =
  obstacles :: "Obstacle list"
  trackData :: TrackData
  groundNormal_x :: real
  groundNormal_y :: real
  groundNormal_z :: real

definition triggerTap :: "Kart \<Rightarrow> Input \<Rightarrow> bool" where
  "triggerTap k inp =
    (case slideButton k of
       Some ButtonZ \<Rightarrow> hopXTap inp
     | Some ButtonX \<Rightarrow> hopZTap inp
     | None \<Rightarrow> False)"

definition hopInitiation :: "Input \<Rightarrow> Kart \<Rightarrow> Kart" where
  "hopInitiation inp k =
    (if (hopZTap inp \<or> hopXTap inp) \<and> grounded k \<and> \<not> slideActive k
     then k\<lparr>velocity_y := hopForce (stats k),
            position_y := position_y k + (GROUND_SNAP + 0.1),
            grounded := False,
            slideButton := Some (if hopZTap inp then ButtonZ else ButtonX),
            slideTimer := 0,
            slideBoosts := 0\<rparr>
     else k)"

definition slideHeld :: "Input \<Rightarrow> Kart \<Rightarrow> bool" where
  "slideHeld inp k \<longleftrightarrow>
     (slideButton k = Some ButtonZ \<and> hopZ inp) \<or> (slideButton k = Some ButtonX \<and> hopX inp)"

definition slideEntry :: "Input \<Rightarrow> Kart \<Rightarrow> Kart" where
  "slideEntry inp k =
    (if grounded k \<and> \<not> slideActive k \<and> slideButton k \<noteq> None then
       (if slideHeld inp k \<and> \<bar>steer inp\<bar> > 0.1
        then k\<lparr>slideActive := True, slideDir := sgn (steer inp), slideTimer := 0\<rparr>
        else if \<not> slideHeld inp k then k\<lparr>slideButton := None\<rparr>
        else k)
     else k)"

definition slideEnd :: "Input \<Rightarrow> Kart \<Rightarrow> Kart" where
  "slideEnd inp k =
    (if slideActive k then
       (if \<not> slideHeld inp k
        then k\<lparr>slideActive := False, slideButton := None, slideTimer := 0, slideBoosts := 0\<rparr>
        else k)
     else k)"

text \<open>\<open>meterFill\<close> of this tick: the slide timer after \<open>dt\<close> was added, as a fraction of
  the meter duration.\<close>

definition meterFill :: "real \<Rightarrow> Kart \<Rightarrow> real" where
  "meterFill dt k = (slideTimer k + dt) / slideMeterDuration (stats k)"

definition inSweetSpot :: "real \<Rightarrow> Kart \<Rightarrow> bool" where
  "inSweetSpot dt k \<longleftrightarrow>
     (case SWEET_SPOTS ! nat (slideBoosts k) of
        (sweetStart, sweetEnd) \<Rightarrow> meterFill dt k \<ge> sweetStart \<and> meterFill dt k \<le> sweetEnd)"

definition slideMeter :: "bool \<Rightarrow> real \<Rightarrow> Kart \<Rightarrow> Kart" where
  "slideMeter tap dt k =
    (if slideActive k \<and> slideBoosts k \<ge> 0 \<and> slideBoosts k < 3 then
       (let fill = meterFill dt k;
            k1 = k\<lparr>slideTimer := slideTimer k + dt\<rparr>;
            k2 = (if tap then
                    (if inSweetSpot dt k
                     then k1\<lparr>boostTimer := boostDurations (stats k1) ! nat (slideBoosts k1),
                             boostSpeed := boostSpeeds (stats k1) ! nat (slideBoosts k1),
                             slideBoosts := slideBoosts k1 + 1,
                             slideTimer := 0\<rparr>
                     else k1\<lparr>slideBoosts := -1\<rparr>)
                  else k1)
        in if fill > 1 then k2\<lparr>slideBoosts := -1\<rparr> else k2)
     else k)"

definition boostDecay :: "real \<Rightarrow> Kart \<Rightarrow> Kart" where
  "boostDecay dt k =
    (if boostTimer k > 0 then
       (if boostTimer k - dt < 0 then k\<lparr>boostTimer := 0\<rparr>
        else k\<lparr>boostTimer := boostTimer k - dt\<rparr>)
     else if boostSpeed k > 0 then
       (if boostSpeed k - 15 * dt < 0 then k\<lparr>boostSpeed := 0\<rparr>
        else k\<lparr>boostSpeed := boostSpeed k - 15 * dt\<rparr>)
     else k)"

definition steering :: "Input \<Rightarrow> real \<Rightarrow> Kart \<Rightarrow> Kart" where
  "steering inp dt k =
    (let s = stats k;
         k0 = k\<lparr>steerAngle := steer inp\<rparr>
     in if \<not> grounded k
        then k0\<lparr>rotation_y := rotation_y k + steer inp * turnRate s * 1.5 * dt\<rparr>
        else if \<bar>speed k\<bar> > 0.5 then
          (if slideActive k then
             (let intoSlide = (sgn (steer inp) = slideDir k);
                  steerMult = (if intoSlide then slideTurnMult s else slideTurnMult s * 0.5);
                  speedFactor = min 1 ((\<bar>speed k\<bar> / maxSpeed s) * 3)
              in k0\<lparr>rotation_y :=
                       rotation_y k + steer inp * turnRate s * steerMult * speedFactor * dt\<rparr>)
           else
             (let speedFactor = min 1 ((\<bar>speed k\<bar> / maxSpeed s) * 3);
                  reverseFlip = (if speed k < 0 then -1 else 1)
              in k0\<lparr>rotation_y :=
                       rotation_y k + steer inp * turnRate s * speedFactor * reverseFlip * dt\<rparr>))
        else k0)"

definition SLIDE_ANGLE :: real where "SLIDE_ANGLE = 0.5"

definition slideRotationOffset :: "real \<Rightarrow> Kart \<Rightarrow> Kart" where
  "slideRotationOffset dt k =
    (let targetOffset = (if slideActive k then slideDir k * SLIDE_ANGLE else 0);
         a = slideAngle k + (targetOffset - slideAngle k) * min 1 (8 * dt)
     in if \<bar>a\<bar> < 0.01 then k\<lparr>slideAngle := 0\<rparr> else k\<lparr>slideAngle := a\<rparr>)"

text \<open>The travel direction \<open>(forward.x, forward.z)\<close>; \<open>forward.y\<close> is 0.\<close>

definition forward :: "Kart \<Rightarrow> real \<times> real" where
  "forward k =
    (let travelAngle = rotation_y k - slideAngle k
     in (- sin travelAngle, - cos travelAngle))"

definition slopeEffect :: "KartPhysics \<Rightarrow> real \<times> real \<Rightarrow> real \<Rightarrow> Kart \<Rightarrow> Kart" where
  "slopeEffect ph fwd dt k =
    (if grounded k then
       (let slopeDot = groundNormal_x ph * fst fwd + groundNormal_z ph * snd fwd;
            steepness = 1 - groundNormal_y ph
        in k\<lparr>speed := speed k - slopeDot * steepness * SLOPE_SPEED_FACTOR * dt\<rparr>)
     else k)"

definition isOffroad :: "KartPhysics \<Rightarrow> Kart \<Rightarrow> bool" where
  "isOffroad ph k \<longleftrightarrow>
     (if grounded k then getTerrainType (trackData ph) (position_x k) (position_z k) else 0) = 1"

definition accelBrake :: "Input \<Rightarrow> bool \<Rightarrow> real \<Rightarrow> Kart \<Rightarrow> Kart" where
  "accelBrake inp offroad dt k =
    (let offroadAccelMult = (if offroad then 0.5 else 1)
     in if accel inp > 0 then k\<lparr>speed := speed k + accelRate (stats k) * offroadAccelMult * dt\<rparr>
        else if accel inp < 0 then k\<lparr>speed := speed k - brakeForce (stats k) * dt\<rparr>
        else k)"

definition frictionStep :: "Input \<Rightarrow> real \<Rightarrow> Kart \<Rightarrow> Kart" where
  "frictionStep inp dt k =
    (let frictionMult = (if slideActive k then slideFrictionMult (stats k) else 1)
     in if \<bar>accel inp\<bar> < 0.1 then
          (let v = speed k - sgn (speed k) * friction (stats k) * frictionMult * dt
           in if \<bar>v\<bar> < 0.3 then k\<lparr>speed := 0\<rparr> else k\<lparr>speed := v\<rparr>)
        else k)"

definition offroadDrag :: "bool \<Rightarrow> real \<Rightarrow> Kart \<Rightarrow> Kart" where
  "offroadDrag offroad dt k =
    (let offroadFriction = (if offroad then 3 else 0)
     in if offroad \<and> \<bar>speed k\<bar> > 0.1
        then k\<lparr>speed := speed k - sgn (speed k) * offroadFriction * dt\<rparr>
        else k)"

text \<open>\<open>maxSpd\<close>: the base top speed times the offroad multiplier.\<close>

definition maxSpd :: "bool \<Rightarrow> Kart \<Rightarrow> real" where
  "maxSpd offroad k = maxSpeed (stats k) * (if offroad then 0.6 else 1)"

definition speedLimit :: "bool \<Rightarrow> Kart \<Rightarrow> Kart" where
  "speedLimit offroad k =
    (let effectiveMax = maxSpd offroad k + boostSpeed k
     in k\<lparr>speed := clamp (speed k) (- maxSpd offroad k * 0.4) effectiveMax\<rparr>)"

definition boostFloor :: "bool \<Rightarrow> Kart \<Rightarrow> Kart" where
  "boostFloor offroad k =
    (if boostSpeed k > 0
     then k\<lparr>speed := max (speed k) (maxSpd offroad k + boostSpeed k * 0.8)\<rparr>
     else k)"

definition composeVelocity :: "Input \<Rightarrow> real \<times> real \<Rightarrow> Kart \<Rightarrow> Kart" where
  "composeVelocity inp fwd k =
    (let right_x = snd fwd;
         right_z = - fst fwd;
         lateralSlide = (if slideActive k \<and> \<bar>speed k\<bar> > 3
                         then - steer inp * speed k * slideSlide (stats k) else 0)
     in if grounded k
        then k\<lparr>velocity_x := fst fwd * speed k + right_x * lateralSlide,
               velocity_z := snd fwd * speed k + right_z * lateralSlide\<rparr>
        else k)"

definition gravityStep :: "real \<Rightarrow> Kart \<Rightarrow> Kart" where
  "gravityStep dt k =
    (if \<not> grounded k then k\<lparr>velocity_y := velocity_y k + GRAVITY * dt\<rparr>
     else k\<lparr>velocity_y := 0\<rparr>)"

definition movePosition :: "real \<Rightarrow> Kart \<Rightarrow> Kart" where
  "movePosition dt k =
     k\<lparr>position_x := position_x k + velocity_x k * dt,
       position_y := position_y k + velocity_y k * dt,
       position_z := position_z k + velocity_z k * dt\<rparr>"

definition terrainCollision :: "KartPhysics \<Rightarrow> real \<Rightarrow> real \<Rightarrow> Kart \<Rightarrow> Kart" where
  "terrainCollision ph prevX prevZ k =
    (let tt = getTerrainType (trackData ph)
     in if tt (position_x k) (position_z k) = 2 then
          (let canSlideX = (tt (position_x k) prevZ \<noteq> 2);
               canSlideZ = (tt prevX (position_z k) \<noteq> 2);
               k1 = (if canSlideX \<and> \<not> canSlideZ
                     then k\<lparr>position_z := prevZ, velocity_z := 0\<rparr>
                     else if canSlideZ \<and> \<not> canSlideX
                     then k\<lparr>position_x := prevX, velocity_x := 0\<rparr>
                     else k\<lparr>position_x := prevX, position_z := prevZ,
                            velocity_x := 0, velocity_z := 0\<rparr>)
           in k1\<lparr>speed := speed k1 * 0.7\<rparr>)
        else k)"

text \<open>The steep-slope branch of the ground check: push out along the horizontal normal and
  cancel the inward velocity.\<close>

definition wallPush :: "real \<times> real \<times> real \<Rightarrow> Kart \<Rightarrow> Kart" where
  "wallPush gn k =
    (case gn of (gx, gy, gz) \<Rightarrow>
      (let pushLen = sqrt (gx * gx + gz * gz)
       in if pushLen > 0.001 then
            (let nx = gx / pushLen;
                 nz = gz / pushLen;
                 k1 = k\<lparr>position_x := position_x k + nx * 0.3,
                        position_z := position_z k + nz * 0.3\<rparr>;
                 vDot = velocity_x k1 * nx + velocity_z k1 * nz
             in if vDot < 0
                then k1\<lparr>velocity_x := velocity_x k1 - nx * vDot,
                        velocity_z := velocity_z k1 - nz * vDot,
                        speed := speed k1 * 0.3\<rparr>
                else k1)
          else k))"

text \<open>The landing branch: on the first grounded frame after an airborne one the retained
  horizontal velocity is projected onto the travel direction, its magnitude capped by the
  speed before.\<close>

definition landingSpeed :: "real \<times> real \<Rightarrow> Kart \<Rightarrow> Kart" where
  "landingSpeed fwd k =
    (let prevSpeed = speed k;
         v = velocity_x k * fst fwd + velocity_z k * snd fwd
     in if \<bar>v\<bar> > \<bar>prevSpeed\<bar> then k\<lparr>speed := sgn v * \<bar>prevSpeed\<bar>\<rparr> else k\<lparr>speed := v\<rparr>)"

definition groundCheck :: "KartPhysics \<Rightarrow> real \<times> real \<Rightarrow> Kart \<Rightarrow> Kart \<times> KartPhysics" where
  "groundCheck ph fwd k =
    (let groundY = getGroundHeight (trackData ph) (position_x k) (position_z k);
         gn = getGroundNormal (trackData ph) (position_x k) (position_z k)
     in if position_y k \<le> groundY + GROUND_SNAP then
          (if fst (snd gn) < MAX_DRIVEABLE_SLOPE
           then ((wallPush gn k)\<lparr>grounded := False\<rparr>, ph)
           else
             (let wasAirborne = \<not> grounded k;
                  k1 = k\<lparr>position_y := groundY + 0.02\<rparr>;
                  k2 = (if velocity_y k1 < 0 then k1\<lparr>velocity_y := 0\<rparr> else k1);
                  k3 = k2\<lparr>grounded := True\<rparr>;
                  ph' = ph\<lparr>groundNormal_x := fst gn, groundNormal_y := fst (snd gn),
                           groundNormal_z := snd (snd gn)\<rparr>
              in (if wasAirborne then landingSpeed fwd k3 else k3, ph')))
        else (k\<lparr>grounded := False\<rparr>, ph))"

definition obstacleStep :: "Obstacle \<Rightarrow> Kart \<Rightarrow> Kart" where
  "obstacleStep obs k =
    (let closestX = clamp (position_x k) (center_x obs - halfExtents_x obs)
                          (center_x obs + halfExtents_x obs);
         closestY = clamp (position_y k) (center_y obs - halfExtents_y obs)
                          (center_y obs + halfExtents_y obs);
         closestZ = clamp (position_z k) (center_z obs - halfExtents_z obs)
                          (center_z obs + halfExtents_z obs);
         dx = position_x k - closestX;
         dy = position_y k - closestY;
         dz = position_z k - closestZ;
         distSq = dx * dx + dy * dy + dz * dz;
         r = radius (stats k)
     in if distSq < r * r \<and> distSq > 0.0001 then
          (let dist = sqrt distSq;
               penetration = r - dist;
               nx = dx / dist;
               ny = dy / dist;
               nz = dz / dist;
               k1 = k\<lparr>position_x := position_x k + nx * penetration,
                      position_y := position_y k + ny * penetration,
                      position_z := position_z k + nz * penetration\<rparr>;
               dot = velocity_x k1 * nx + velocity_y k1 * ny + velocity_z k1 * nz
           in if dot < 0
              then k1\<lparr>velocity_x := velocity_x k1 - nx * dot * 1.2,
                      velocity_y := velocity_y k1 - ny * dot * 1.2,
                      velocity_z := velocity_z k1 - nz * dot * 1.2,
                      speed := speed k1 * 0.7\<rparr>
              else k1)
        else k)"

definition resolveObstacleCollisions :: "Obstacle list \<Rightarrow> Kart \<Rightarrow> Kart" where
  "resolveObstacleCollisions obss k = fold obstacleStep obss k"

definition respawn :: "Kart \<Rightarrow> Kart" where
  "respawn k =
    (if position_y k < -30 then
       (case (case spawnPoint k of Some p \<Rightarrow> p | None \<Rightarrow> (0, 5, 0)) of
          (sx, sy, sz) \<Rightarrow>
            k\<lparr>position_x := sx, position_y := sy, position_z := sz,
              velocity_x := 0, velocity_y := 0, velocity_z := 0,
              speed := 0,
              slideActive := False, slideButton := None, slideDir := 0, slideAngle := 0,
              slideTimer := 0, slideBoosts := 0, boostTimer := 0, boostSpeed := 0\<rparr>)
     else k)"

text \<open>Hop initiation, slide entry and slide end, in the source's order. \<open>triggerTap\<close> is
  computed from the kart as it enters \<open>update\<close>, before this.\<close>


definition slideLifecycle :: "Input \<Rightarrow> Kart \<Rightarrow> Kart" where
  "slideLifecycle inp k = slideEnd inp (slideEntry inp (hopInitiation inp k))"

text \<open>The first half of \<open>update\<close>: slide lifecycle, charge meter, boost decay, steering and
  the visual slide angle. The travel direction and the terrain sample are taken from its
  result.\<close>

definition controlPhase :: "Input \<Rightarrow> real \<Rightarrow> Kart \<Rightarrow> Kart" where
  "controlPhase inp dt k =
     slideRotationOffset dt
       (steering inp dt
         (boostDecay dt
           (slideMeter (triggerTap k inp) dt (slideLifecycle inp k))))"

text \<open>Slope, acceleration, friction, drag, the speed limit and the boost floor, in the
  source's order.\<close>

definition speedPhase :: "KartPhysics \<Rightarrow> Input \<Rightarrow> real \<Rightarrow> Kart \<Rightarrow> Kart" where
  "speedPhase ph inp dt k =
    (let offroad = isOffroad ph k
     in boostFloor offroad
          (speedLimit offroad
            (offroadDrag offroad dt
              (frictionStep inp dt
                (accelBrake inp offroad dt
                  (slopeEffect ph (forward k) dt k))))))"

text \<open>Velocity composition, gravity, the move, the hard-terrain rollback, the ground check,
  obstacles and respawn.\<close>

definition motionPhase ::
  "KartPhysics \<Rightarrow> Input \<Rightarrow> real \<times> real \<Rightarrow> real \<Rightarrow> Kart \<Rightarrow> Kart \<times> KartPhysics" where
  "motionPhase ph inp fwd dt k =
    (let k1 = gravityStep dt (composeVelocity inp fwd k);
         k2 = terrainCollision ph (position_x k1) (position_z k1) (movePosition dt k1)
     in case groundCheck ph fwd k2 of
          (k3, ph') \<Rightarrow> (respawn (resolveObstacleCollisions (obstacles ph) k3), ph'))"

definition KartPhysics_update ::
  "KartPhysics \<Rightarrow> Kart \<Rightarrow> Input \<Rightarrow> real \<Rightarrow> Kart \<times> KartPhysics" where
  "KartPhysics_update ph k inp dt =
    (let k1 = controlPhase inp dt k
     in motionPhase ph inp (forward k1) dt (speedPhase ph inp dt k1))"


text \<open>The effective top speed of one tick, as \<open>update\<close> computes \<open>maxSpd\<close>: the base top
  speed, times 0.6 when the kart is grounded on offroad terrain after the slide lifecycle.\<close>

definition tickTopSpeed :: "KartPhysics \<Rightarrow> Kart \<Rightarrow> Input \<Rightarrow> real \<Rightarrow> real" where
  "tickTopSpeed ph k inp dt = maxSpd (isOffroad ph (controlPhase inp dt k)) k"

text \<open>The kart lands on this tick: it is airborne when the ground is checked (it was airborne
  before, or it hopped on this tick) and grounded at the end.\<close>

definition landsThisTick :: "KartPhysics \<Rightarrow> Kart \<Rightarrow> Input \<Rightarrow> real \<Rightarrow> bool" where
  "landsThisTick ph k inp dt \<longleftrightarrow>
     \<not> grounded (hopInitiation inp k) \<and> grounded (fst (KartPhysics_update ph k inp dt))"

text \<open>The constructor of \<open>KartPhysics\<close>.\<close>

definition KartPhysics_new :: "Obstacle list \<Rightarrow> TrackData \<Rightarrow> KartPhysics" where
  "KartPhysics_new obss trk =
     \<lparr> obstacles = obss, trackData = trk,
       groundNormal_x = 0, groundNormal_y = 1, groundNormal_z = 0 \<rparr>"

text \<open>The module-level lookups of track.js while no track is loaded: height 0, normal
  \<open>(0, 1, 0)\<close>, terrain \<open>TERRAIN_OFFROAD\<close>.\<close>

definition noTrack :: TrackData where
  "noTrack = \<lparr> getGroundHeight = (\<lambda>x z. 0), getGroundNormal = (\<lambda>x z. (0, 1, 0)),
               getTerrainType = (\<lambda>x z. 1) \<rparr>"

text \<open>\<open>GameRoom._createServerKart(id, sp, angle, kartIndex)\<close> of room.js.\<close>

definition createServerKart :: "string \<Rightarrow> real \<times> real \<times> real \<Rightarrow> real \<Rightarrow> nat \<Rightarrow> Kart" where
  "createServerKart i sp angle ki =
    (case sp of (sx, sy, sz) \<Rightarrow>
      \<lparr> kart_id = i, kartIndex = ki,
        position_x = sx, position_y = sy, position_z = sz,
        rotation_y = angle,
        velocity_x = 0, velocity_y = 0, velocity_z = 0,
        speed = 0, steerAngle = 0, grounded = False,
        stats = KART_DEFAULTS, spawnPoint = Some (sx, sy, sz),
        slideActive = False, slideButton = None, slideDir = 0, slideAngle = 0,
        slideTimer = 0, slideBoosts = 0, boostTimer = 0, boostSpeed = 0,
        heldItem = None \<rparr>)"

text \<open>The input the room uses for a kart that has sent none (room.js, \<open>_tick\<close>).\<close>

definition noInput :: Input where
  "noInput = \<lparr> accel = 0, steer = 0, hopZ = False, hopX = False,
               hopZTap = False, hopXTap = False, itemUseTap = False \<rparr>"

text \<open>Two concrete karts on a flat, obstacle-free world. The first is airborne just above the
  ground, heading towards negative z (\<open>rotation.y = 0\<close>) with scalar speed 30, while its
  retained velocity points towards positive z, as after a mid-air bump. The second rests on
  the ground at full speed.\<close>

definition flatWorld :: KartPhysics where
  "flatWorld = KartPhysics_new [] noTrack"

definition bumpedKart :: Kart where
  "bumpedKart = (createServerKart ''p1'' (0, 0.3, 0) 0 1)\<lparr>velocity_z := 30, speed := 30\<rparr>"

definition cruisingKart :: Kart where
  "cruisingKart = (createServerKart ''p1'' (0, 0.02, 0) 0 1)\<lparr>grounded := True, speed := 35\<rparr>"

definition fullThrottle :: Input where
  "fullThrottle = noInput\<lparr>accel := 1\<rparr>"


text \<open>\<open>v'\<close> is \<open>v\<close> scaled by a factor in \<open>[0, 1]\<close>: what the damping steps (\<open>speed *= 0.7\<close>,
  \<open>speed *= 0.3\<close>) do to the scalar speed.\<close>

definition shrinks :: "real \<Rightarrow> real \<Rightarrow> bool" where
  "shrinks v' v \<longleftrightarrow> (\<exists>c. 0 \<le> c \<and> c \<le> 1 \<and> v' = c * v)"


text \<open>A sequence of ticks of one kart, each with its input and \<open>dt\<close>, threading the physics
  instance; the result lists the kart after every tick.\<close>

fun runTicks :: "KartPhysics \<Rightarrow> Kart \<Rightarrow> (Input \<times> real) list \<Rightarrow> Kart list" where
  "runTicks ph k [] = []"
| "runTicks ph k ((inp, dt) # rest) =
     (case KartPhysics_update ph k inp dt of (k', ph') \<Rightarrow> k' # runTicks ph' k' rest)"

text \<open>A kart in the middle of a power-slide started with the Z button, 0.9 s into the meter
  (fraction 0.6 after the next tick's \<open>dt = 0.01\<close> is 0.6067), and the input that keeps Z
  held and taps X.\<close>

definition slidingKart :: Kart where
  "slidingKart = cruisingKart\<lparr>slideActive := True, slideButton := Some ButtonZ, slideDir := 1,
                              slideTimer := 0.9\<rparr>"

definition tapOther :: Input where
  "tapOther = noInput\<lparr>accel := 1, steer := 1, hopZ := True, hopXTap := True, hopX := True\<rparr>"


section \<open>Race progression (race.js, \<open>RaceManager\<close>)\<close>

definition TOTAL_LAPS :: int where "TOTAL_LAPS = 3"
definition CP_HIT_RADIUS :: real where "CP_HIT_RADIUS = 30"
definition CP_LOOKAHEAD :: nat where "CP_LOOKAHEAD = 4"
definition COUNTDOWN_DURATION :: real where "COUNTDOWN_DURATION = 4"
definition MIN_CP_FRACTION :: real where "MIN_CP_FRACTION = 0.5"
definition FINISH_LINE_WIDTH :: real where "FINISH_LINE_WIDTH = 60"

record Checkpoint =
  cp_x :: real
  cp_z :: real

record FinishLine =
  fl_x :: real
  fl_z :: real
  fl_nx :: real
  fl_nz :: real

text \<open>A racer's progress record. \<open>r.kart\<close> is a reference to the shared kart object; the
  record holds the kart as the race manager sees it when it runs (the room refreshes it from
  its kart list before each race update). \<open>position\<close> is the rank.\<close>

record Racer =
  kart :: Kart
  isPlayer :: bool
  nextCheckpoint :: nat
  lap :: int
  cpThisLap :: int
  checkpointsPassed :: int
  wrongWay :: bool
  finished :: bool
  position :: nat
  prevSide :: real

record RaceManager =
  checkpoints :: "Checkpoint list"
  finishLine :: "FinishLine option"
  totalLaps :: int
  countdownTimer :: real
  countdownValue :: int
  racers :: "Racer list"

definition signedDist :: "FinishLine option \<Rightarrow> real \<Rightarrow> real \<Rightarrow> real" where
  "signedDist fl x z =
    (case fl of
       None \<Rightarrow> 1
     | Some f \<Rightarrow> (x - fl_x f) * fl_nx f + (z - fl_z f) * fl_nz f)"

text \<open>The constructor: every racer starts on lap 1 with no checkpoint passed.\<close>

definition newRacer :: "FinishLine option \<Rightarrow> Kart \<times> bool \<Rightarrow> Racer" where
  "newRacer fl r =
     \<lparr> kart = fst r, isPlayer = snd r, nextCheckpoint = 0, lap = 1, cpThisLap = 0,
       checkpointsPassed = 0, wrongWay = False, finished = False, position = 1,
       prevSide = signedDist fl (position_x (fst r)) (position_z (fst r)) \<rparr>"

definition RaceManager_new ::
  "Checkpoint list \<Rightarrow> (Kart \<times> bool) list \<Rightarrow> FinishLine option \<Rightarrow> RaceManager" where
  "RaceManager_new cps rs fl =
     \<lparr> checkpoints = cps, finishLine = fl, totalLaps = TOTAL_LAPS,
       countdownTimer = COUNTDOWN_DURATION, countdownValue = 3,
       racers = map (newRacer fl) rs \<rparr>"

definition isFrozen :: "RaceManager \<Rightarrow> bool" where
  "isFrozen rm \<longleftrightarrow> countdownValue rm > 0"

definition countdownStep :: "real \<Rightarrow> RaceManager \<Rightarrow> RaceManager" where
  "countdownStep dt rm =
    (if countdownTimer rm > 0 then
       (let t = countdownTimer rm - dt
        in rm\<lparr>countdownTimer := t,
              countdownValue := (if t > 3 then 3 else if t > 2 then 2 else if t > 1 then 1
                                 else if t > 0 then 0 else - 1)\<rparr>)
     else rm\<lparr>countdownValue := - 1\<rparr>)"

text \<open>Whether the checkpoint \<open>look\<close> places ahead of the racer's next one is within the hit
  radius of the kart.\<close>

definition cpHit :: "Checkpoint list \<Rightarrow> Racer \<Rightarrow> nat \<Rightarrow> bool" where
  "cpHit cps r look =
    (let cpIdx = (nextCheckpoint r + look) mod length cps;
         cp = cps ! cpIdx;
         dx = cp_x cp - position_x (kart r);
         dz = cp_z cp - position_z (kart r);
         dist = sqrt (dx * dx + dz * dz)
     in dist < CP_HIT_RADIUS)"

text \<open>The lookahead loop: the last \<open>look\<close> in \<open>0, \<dots>, CP_LOOKAHEAD - 1\<close> that hits, or \<open>-1\<close>.\<close>

definition bestAdvance :: "Checkpoint list \<Rightarrow> Racer \<Rightarrow> int" where
  "bestAdvance cps r =
     fold (\<lambda>look best. if cpHit cps r look then int look else best) [0..<CP_LOOKAHEAD] (- 1)"

definition advanceCheckpoints :: "Checkpoint list \<Rightarrow> Racer \<Rightarrow> Racer" where
  "advanceCheckpoints cps r =
    (let best = bestAdvance cps r
     in if best \<ge> 0 then
          (let steps = best + 1
           in r\<lparr>nextCheckpoint := (nextCheckpoint r + nat steps) mod length cps,
                checkpointsPassed := checkpointsPassed r + steps,
                cpThisLap := cpThisLap r + steps\<rparr>)
        else r)"

definition latDist :: "FinishLine \<Rightarrow> Racer \<Rightarrow> real" where
  "latDist fl r = (position_x (kart r) - fl_x fl) * (- fl_nz fl)
                + (position_z (kart r) - fl_z fl) * fl_nx fl"

definition curSide :: "RaceManager \<Rightarrow> Racer \<Rightarrow> real" where
  "curSide rm r = signedDist (finishLine rm) (position_x (kart r)) (position_z (kart r))"

text \<open>The test of the finish-line block on a racer whose checkpoints were already advanced on
  this tick.\<close>

definition crossesLine :: "RaceManager \<Rightarrow> int \<Rightarrow> FinishLine \<Rightarrow> Racer \<Rightarrow> bool" where
  "crossesLine rm minCPs fl r \<longleftrightarrow>
     prevSide r < 0 \<and> curSide rm r \<ge> 0 \<and> cpThisLap r \<ge> minCPs
     \<and> \<bar>latDist fl r\<bar> \<le> FINISH_LINE_WIDTH / 2"

definition finishCrossing :: "RaceManager \<Rightarrow> int \<Rightarrow> Racer \<Rightarrow> Racer" where
  "finishCrossing rm minCPs r =
    (case finishLine rm of
       None \<Rightarrow> r
     | Some fl \<Rightarrow>
         (let r1 = (if crossesLine rm minCPs fl r then
                      (let r' = r\<lparr>cpThisLap := 0, nextCheckpoint := 0, lap := lap r + 1\<rparr>
                       in if lap r' > totalLaps rm
                          then r'\<lparr>finished := True, lap := totalLaps rm\<rparr>
                          else r')
                    else r)
          in r1\<lparr>prevSide := curSide rm r\<rparr>))"

definition wrongWayStep :: "Checkpoint list \<Rightarrow> Racer \<Rightarrow> Racer" where
  "wrongWayStep cps r =
    (let nextCP = cps ! nextCheckpoint r;
         toCPx = cp_x nextCP - position_x (kart r);
         toCPz = cp_z nextCP - position_z (kart r);
         toCPdist = sqrt (toCPx * toCPx + toCPz * toCPz)
     in if toCPdist > 1 then
          (let fwdX = - sin (rotation_y (kart r));
               fwdZ = - cos (rotation_y (kart r));
               dot = (fwdX * toCPx + fwdZ * toCPz) / toCPdist
           in r\<lparr>wrongWay := dot < - 0.3\<rparr>)
        else r\<lparr>wrongWay := False\<rparr>)"

text \<open>\<open>minCPs = Math.floor(cpCount * MIN_CP_FRACTION)\<close>.\<close>

definition minCPs :: "RaceManager \<Rightarrow> int" where
  "minCPs rm = \<lfloor>real (length (checkpoints rm)) * MIN_CP_FRACTION\<rfloor>"

text \<open>The body of the loop over the racers.\<close>

definition updateRacer :: "RaceManager \<Rightarrow> Racer \<Rightarrow> Racer" where
  "updateRacer rm r =
    (if finished r then r
     else wrongWayStep (checkpoints rm)
            (finishCrossing rm (minCPs rm) (advanceCheckpoints (checkpoints rm) r)))"

text \<open>The comparator of \<open>_updatePositions\<close>: negative when \<open>a\<close> ranks before \<open>b\<close>.\<close>

definition distToNext :: "Checkpoint list \<Rightarrow> Racer \<Rightarrow> real" where
  "distToNext cps a =
    (let cp = cps ! nextCheckpoint a;
         dx = cp_x cp - position_x (kart a);
         dz = cp_z cp - position_z (kart a)
     in sqrt (dx * dx + dz * dz))"

definition compareRacers :: "Checkpoint list \<Rightarrow> Racer \<Rightarrow> Racer \<Rightarrow> real" where
  "compareRacers cps a b =
    (if finished a \<noteq> finished b then (if finished a then - 1 else 1)
     else if lap a \<noteq> lap b then real_of_int (lap b - lap a)
     else if checkpointsPassed a \<noteq> checkpointsPassed b
       then real_of_int (checkpointsPassed b - checkpointsPassed a)
     else distToNext cps a - distToNext cps b)"

text \<open>\<open>Array.prototype.sort\<close> with a comparator is a stable sort: here insertion sort, which
  puts an element before the first one it does not compare greater than. The array is sorted
  as a list of indices into \<open>racers\<close>, so that the ranks can be written back to the racer
  objects.\<close>

fun insortBy :: "('a \<Rightarrow> 'a \<Rightarrow> real) \<Rightarrow> 'a \<Rightarrow> 'a list \<Rightarrow> 'a list" where
  "insortBy c x [] = [x]"
| "insortBy c x (y # ys) = (if c x y \<le> 0 then x # y # ys else y # insortBy c x ys)"

definition sortBy :: "('a \<Rightarrow> 'a \<Rightarrow> real) \<Rightarrow> 'a list \<Rightarrow> 'a list" where
  "sortBy c xs = foldr (insortBy c) xs []"

definition rankOrder :: "Checkpoint list \<Rightarrow> Racer list \<Rightarrow> nat list" where
  "rankOrder cps rs = sortBy (\<lambda>i j. compareRacers cps (rs ! i) (rs ! j)) [0..<length rs]"

text \<open>\<open>sorted[i].position = i + 1\<close> for every \<open>i\<close>.\<close>

definition assignPositions :: "nat list \<Rightarrow> Racer list \<Rightarrow> Racer list" where
  "assignPositions order rs =
     fold (\<lambda>i acc. acc[order ! i := (acc ! (order ! i))\<lparr>position := i + 1\<rparr>])
          [0..<length order] rs"

definition rankRacers :: "Checkpoint list \<Rightarrow> Racer list \<Rightarrow> Racer list" where
  "rankRacers cps rs = assignPositions (rankOrder cps rs) rs"

definition updatePositions :: "RaceManager \<Rightarrow> RaceManager" where
  "updatePositions rm = rm\<lparr>racers := rankRacers (checkpoints rm) (racers rm)\<rparr>"

definition RaceManager_update :: "real \<Rightarrow> RaceManager \<Rightarrow> RaceManager" where
  "RaceManager_update dt rm =
    (let rm1 = countdownStep dt rm
     in if isFrozen rm1 then rm1
        else if length (checkpoints rm1) < 2 then rm1
        else updatePositions (rm1\<lparr>racers := map (updateRacer rm1) (racers rm1)\<rparr>))"

text \<open>The order the spec words give: finished first, then lap descending, then total
  checkpoints passed descending, then distance to the next checkpoint ascending.\<close>

definition ranksNoLater :: "Checkpoint list \<Rightarrow> Racer \<Rightarrow> Racer \<Rightarrow> bool" where
  "ranksNoLater cps a b \<longleftrightarrow>
     (finished a \<and> \<not> finished b)
     \<or> (finished a = finished b \<and>
         (lap a > lap b
          \<or> (lap a = lap b \<and>
              (checkpointsPassed a > checkpointsPassed b
               \<or> (checkpointsPassed a = checkpointsPassed b
                   \<and> distToNext cps a \<le> distToNext cps b)))))"

text \<open>No two racers of the array tie on all four keys.\<close>

definition noTies :: "Checkpoint list \<Rightarrow> Racer list \<Rightarrow> bool" where
  "noTies cps rs \<longleftrightarrow>
     (\<forall>i < length rs. \<forall>j < length rs. i \<noteq> j \<longrightarrow> compareRacers cps (rs ! i) (rs ! j) \<noteq> 0)"

text \<open>A race past its countdown with two checkpoints 100 and 200 units down the track and a
  finish line through the origin, its normal along the race direction (negative z). Its one
  racer is on the last lap with one checkpoint passed this lap, was one unit short of the
  line on the last tick and is on the line now.\<close>

definition lastLapRace :: RaceManager where
  "lastLapRace =
     \<lparr> checkpoints = [\<lparr>cp_x = 0, cp_z = - 100\<rparr>, \<lparr>cp_x = 0, cp_z = - 200\<rparr>],
       finishLine = Some \<lparr>fl_x = 0, fl_z = 0, fl_nx = 0, fl_nz = - 1\<rparr>,
       totalLaps = TOTAL_LAPS, countdownTimer = 0, countdownValue = - 1,
       racers = [(newRacer None (createServerKart ''p1'' (0, 1, 0) 0 1, True))
                   \<lparr>lap := 3, cpThisLap := 1, checkpointsPassed := 5, prevSide := - 1\<rparr>] \<rparr>"

text \<open>Two racers on the starting grid, three units left and right of the centre line, with
  the first checkpoint straight ahead: they tie on all four keys.\<close>

definition gridLeft :: Racer where
  "gridLeft = newRacer None (createServerKart ''p1'' (- 3, 1, 0) 0 1, True)"

definition gridRight :: Racer where
  "gridRight = newRacer None (createServerKart ''p2'' (3, 1, 0) 0 0, True)"


section \<open>Client prediction (prediction.js, \<open>Prediction\<close>)\<close>

definition SNAP_THRESHOLD :: real where "SNAP_THRESHOLD = 3.0"
definition BLEND_RATE :: real where "BLEND_RATE = 5"

text \<open>One entry of \<open>snapshot.karts\<close>, as \<open>GameRoom._sendSnapshot\<close> builds it.\<close>

record KartWireState =
  w_id :: string
  w_x :: real
  w_y :: real
  w_z :: real
  w_ry :: real
  w_speed :: real
  w_steerAngle :: real
  w_slideActive :: bool
  w_slideDir :: real
  w_slideAngle :: real
  w_boostSpeed :: real
  w_boostTimer :: real
  w_grounded :: bool
  w_heldItem :: "Item option"
  w_velocityY :: real

text \<open>A \<open>Prediction\<close> instance: its own physics and the correction offset \<open>this._offset\<close>
  that is being blended out.\<close>

record Prediction =
  pred_physics :: KartPhysics
  offset_x :: real
  offset_y :: real
  offset_z :: real

definition Prediction_new :: "Obstacle list \<Rightarrow> Prediction" where
  "Prediction_new obss =
     \<lparr> pred_physics = KartPhysics_new obss noTrack,
       offset_x = 0, offset_y = 0, offset_z = 0 \<rparr>"

text \<open>The horizontal distance between the snapshot position and the predicted one.\<close>

definition serverDist :: "Kart \<Rightarrow> KartWireState \<Rightarrow> real" where
  "serverDist k ss =
    (let dx = w_x ss - position_x k;
         dz = w_z ss - position_z k
     in sqrt (dx * dx + dz * dz))"

definition onServerState :: "Prediction \<Rightarrow> Kart \<Rightarrow> KartWireState \<Rightarrow> Prediction \<times> Kart" where
  "onServerState pr k ss =
    (let dx = w_x ss - position_x k;
         dz = w_z ss - position_z k;
         dist = sqrt (dx * dx + dz * dz);
         k1 = k\<lparr>heldItem := w_heldItem ss,
                boostSpeed := w_boostSpeed ss,
                boostTimer := w_boostTimer ss\<rparr>
     in if dist < SNAP_THRESHOLD then (pr, k1)
        else (pr\<lparr>offset_x := dx, offset_y := w_y ss - position_y k1, offset_z := dz\<rparr>, k1))"

definition offsetLengthSq :: "Prediction \<Rightarrow> real" where
  "offsetLengthSq pr = offset_x pr * offset_x pr + offset_y pr * offset_y pr
                     + offset_z pr * offset_z pr"

definition offsetLength :: "Prediction \<Rightarrow> real" where
  "offsetLength pr = sqrt (offsetLengthSq pr)"

text \<open>The second half of \<open>applyLocal\<close>: blend out the correction offset.\<close>

definition blendOffset :: "real \<Rightarrow> Prediction \<Rightarrow> Kart \<Rightarrow> Prediction \<times> Kart" where
  "blendOffset dt pr k =
    (if offsetLengthSq pr > 0.0001 then
       (let blendStep = BLEND_RATE * dt;
            len = offsetLength pr
        in if len \<le> blendStep then
             (pr\<lparr>offset_x := 0, offset_y := 0, offset_z := 0\<rparr>,
              k\<lparr>position_x := position_x k + offset_x pr,
                position_y := position_y k + offset_y pr,
                position_z := position_z k + offset_z pr\<rparr>)
           else
             (let fraction = blendStep / len
              in (pr\<lparr>offset_x := offset_x pr * (1 - fraction),
                     offset_y := offset_y pr * (1 - fraction),
                     offset_z := offset_z pr * (1 - fraction)\<rparr>,
                  k\<lparr>position_x := position_x k + offset_x pr * fraction,
                    position_y := position_y k + offset_y pr * fraction,
                    position_z := position_z k + offset_z pr * fraction\<rparr>)))
     else (pr, k))"

definition applyLocal :: "Prediction \<Rightarrow> Kart \<Rightarrow> Input \<Rightarrow> real \<Rightarrow> Prediction \<times> Kart" where
  "applyLocal pr k inp dt =
    (case KartPhysics_update (pred_physics pr) k inp dt of
       (k1, ph1) \<Rightarrow> blendOffset dt (pr\<lparr>pred_physics := ph1\<rparr>) k1)"

text \<open>A snapshot entry that puts the local kart four units to the side of where
  \<open>cruisingKart\<close> is, holding a missile, with a running boost.\<close>

definition farSnapshot :: KartWireState where
  "farSnapshot =
     \<lparr> w_id = ''p1'', w_x = 4, w_y = 0.02, w_z = 0, w_ry = 0, w_speed = 35, w_steerAngle = 0,
       w_slideActive = False, w_slideDir = 0, w_slideAngle = 0, w_boostSpeed = 15,
       w_boostTimer = 1.6, w_grounded = True, w_heldItem = Some Missile, w_velocityY = 0 \<rparr>"


section \<open>Hazard subsystems (server-boost-pads.js, server-items.js, server-tnt.js,
  server-missile.js)\<close>

text \<open>The discrete events a tick emits.\<close>

datatype Event =
    BoostPadEvent string
  | ItemPickupEvent string "Item option" nat
  | ItemUseEvent string Item
  | TntPlaceEvent string real real
  | TntDetonateEvent string real real
  | MissileFireEvent string real real real
  | MissileHitEvent string real real

text \<open>\<open>Math.random()\<close> is an input of the model: a stream of the values the calls will
  return, each in \<open>[0, 1)\<close>. A call takes the head and leaves the rest.\<close>

type_synonym Rng = "nat \<Rightarrow> real"

definition nextRandom :: "Rng \<Rightarrow> real \<times> Rng" where
  "nextRandom rng = (rng 0, \<lambda>n. rng (Suc n))"

subsection \<open>Boost pads\<close>

definition PAD_TRIGGER_RADIUS :: real where "PAD_TRIGGER_RADIUS = 4"
definition PAD_COOLDOWN :: real where "PAD_COOLDOWN = 1.5"
definition BOOST_SPEED :: real where "BOOST_SPEED = 20"
definition BOOST_DURATION :: real where "BOOST_DURATION = 1.2"

text \<open>A pad with its per-kart cooldown map, kept in insertion order as a JavaScript \<open>Map\<close>
  keeps it.\<close>

record Pad =
  pad_x :: real
  pad_z :: real
  cooldowns :: "(string \<times> real) list"

text \<open>The first loop over a pad: every cooldown is reduced by \<open>dt\<close>; entries that reach 0 are
  deleted.\<close>

definition decayCooldowns :: "real \<Rightarrow> (string \<times> real) list \<Rightarrow> (string \<times> real) list" where
  "decayCooldowns dt cds =
     map (\<lambda>(kid, t). (kid, t - dt)) (filter (\<lambda>(kid, t). \<not> t - dt \<le> 0) cds)"

text \<open>The body of the loop over the karts for one pad; the state is the pad, the karts and
  the events so far.\<close>

definition padKartStep :: "nat \<Rightarrow> Pad \<times> Kart list \<times> Event list \<Rightarrow> Pad \<times> Kart list \<times> Event list" where
  "padKartStep i st =
    (case st of (pad, karts, events) \<Rightarrow>
      (let k = karts ! i;
           kid = kart_id k
       in if map_of (cooldowns pad) kid \<noteq> None then st
          else
            (let dx = position_x k - pad_x pad;
                 dz = position_z k - pad_z pad
             in if dx * dx + dz * dz < PAD_TRIGGER_RADIUS * PAD_TRIGGER_RADIUS
                then (pad\<lparr>cooldowns := AList.update kid PAD_COOLDOWN (cooldowns pad)\<rparr>,
                      karts[i := k\<lparr>boostTimer := BOOST_DURATION, boostSpeed := BOOST_SPEED\<rparr>],
                      events @ [BoostPadEvent kid])
                else st)))"

definition padStep :: "real \<Rightarrow> Pad \<Rightarrow> Kart list \<times> Event list \<Rightarrow> Pad \<times> Kart list \<times> Event list" where
  "padStep dt pad st =
    (case st of (karts, events) \<Rightarrow>
       fold padKartStep [0..<length karts]
         (pad\<lparr>cooldowns := decayCooldowns dt (cooldowns pad)\<rparr>, karts, events))"

text \<open>\<open>update(karts, dt)\<close> of the boost pads: the pads in order, each over all karts. The
  result is the new pads, the karts as mutated and the events.\<close>

fun boostPadsLoop ::
  "real \<Rightarrow> Pad list \<Rightarrow> Kart list \<times> Event list \<Rightarrow> Pad list \<times> Kart list \<times> Event list" where
  "boostPadsLoop dt [] st = ([], st)"
| "boostPadsLoop dt (pad # pads) st =
     (case padStep dt pad st of
        (pad', karts', events') \<Rightarrow>
          (case boostPadsLoop dt pads (karts', events') of
             (pads', st') \<Rightarrow> (pad' # pads', st')))"

definition boostPadsUpdate :: "Pad list \<Rightarrow> Kart list \<Rightarrow> real \<Rightarrow> Pad list \<times> Kart list \<times> Event list" where
  "boostPadsUpdate pads karts dt = boostPadsLoop dt pads (karts, [])"

subsection \<open>Item boxes\<close>

definition PICKUP_RADIUS :: real where "PICKUP_RADIUS = 4"
definition RESPAWN_TIME :: real where "RESPAWN_TIME = 5"
definition AVAILABLE_ITEMS :: "Item list" where "AVAILABLE_ITEMS = [Boost, TNT, Missile]"

record ItemBox =
  box_x :: real
  box_z :: real
  respawnTimer :: real
  box_index :: nat

text \<open>\<open>AVAILABLE_ITEMS[Math.floor(r * AVAILABLE_ITEMS.length)]\<close>; outside the array the read
  gives \<open>undefined\<close>, which counts as holding nothing.\<close>

definition itemOfDraw :: "real \<Rightarrow> Item option" where
  "itemOfDraw r =
    (let i = \<lfloor>r * real (length AVAILABLE_ITEMS)\<rfloor>
     in if 0 \<le> i \<and> i < int (length AVAILABLE_ITEMS) then Some (AVAILABLE_ITEMS ! nat i)
        else None)"

definition inPickupRange :: "ItemBox \<Rightarrow> Kart \<Rightarrow> bool" where
  "inPickupRange box k \<longleftrightarrow>
     (let dx = position_x k - box_x box;
          dz = position_z k - box_z box
      in dx * dx + dz * dz < PICKUP_RADIUS * PICKUP_RADIUS)"

text \<open>The inner loop over the karts from index \<open>i\<close> on: the first kart that holds nothing and
  is in range gets an item, and the loop breaks.\<close>

function boxKartLoop ::
  "ItemBox \<Rightarrow> nat \<Rightarrow> Rng \<Rightarrow> Kart list \<Rightarrow> Event list \<Rightarrow> ItemBox \<times> Rng \<times> Kart list \<times> Event list" where
  "boxKartLoop box i rng karts events =
    (if i < length karts then
       (let k = karts ! i
        in if heldItem k \<noteq> None then boxKartLoop box (Suc i) rng karts events
           else if inPickupRange box k then
             (case nextRandom rng of
                (r, rng') \<Rightarrow>
                  (box\<lparr>respawnTimer := RESPAWN_TIME\<rparr>, rng',
                   karts[i := k\<lparr>heldItem := itemOfDraw r\<rparr>],
                   events @ [ItemPickupEvent (kart_id k) (itemOfDraw r) (box_index box)]))
           else boxKartLoop box (Suc i) rng karts events)
     else (box, rng, karts, events))"
  by pat_completeness auto
termination
  by (relation "measure (\<lambda>(box, i, rng, karts, events). length karts - i)") auto

definition boxStep ::
  "real \<Rightarrow> ItemBox \<Rightarrow> Rng \<times> Kart list \<times> Event list \<Rightarrow> ItemBox \<times> Rng \<times> Kart list \<times> Event list" where
  "boxStep dt box st =
    (case st of (rng, karts, events) \<Rightarrow>
       if respawnTimer box > 0 then
         (if respawnTimer box - dt < 0 then (box\<lparr>respawnTimer := 0\<rparr>, st)
          else (box\<lparr>respawnTimer := respawnTimer box - dt\<rparr>, st))
       else boxKartLoop box 0 rng karts events)"

fun itemBoxesLoop ::
  "real \<Rightarrow> ItemBox list \<Rightarrow> Rng \<times> Kart list \<times> Event list
     \<Rightarrow> ItemBox list \<times> Rng \<times> Kart list \<times> Event list" where
  "itemBoxesLoop dt [] st = ([], st)"
| "itemBoxesLoop dt (box # boxes) st =
     (case boxStep dt box st of
        (box', st1) \<Rightarrow>
          (case itemBoxesLoop dt boxes st1 of
             (boxes', st') \<Rightarrow> (box' # boxes', st')))"

text \<open>\<open>update(karts, dt)\<close> of the item boxes, with the random stream it draws from: the new
  boxes, the rest of the stream, the karts as mutated and the events.\<close>

definition itemBoxesUpdate ::
  "Rng \<Rightarrow> ItemBox list \<Rightarrow> Kart list \<Rightarrow> real \<Rightarrow> ItemBox list \<times> Rng \<times> Kart list \<times> Event list" where
  "itemBoxesUpdate rng boxes karts dt = itemBoxesLoop dt boxes (rng, karts, [])"

subsection \<open>Placed explosives\<close>

definition TRIGGER_RADIUS :: real where "TRIGGER_RADIUS = 2.5"
definition TNT_EXPLODE_VEL_Y :: real where "TNT_EXPLODE_VEL_Y = 22"
definition TNT_LIFETIME :: real where "TNT_LIFETIME = 30"

record TntBox =
  tnt_x :: real
  tnt_z :: real
  tnt_ownerId :: string
  immuneTimer :: real
  tnt_lifetime :: real

text \<open>\<open>explodeKart\<close>, with the upward velocity of the module that calls it (22 for an
  explosive, 20 for a projectile).\<close>

definition explodeKart :: "real \<Rightarrow> Kart \<Rightarrow> Kart" where
  "explodeKart velY k =
     k\<lparr>velocity_x := 0, velocity_y := velY, velocity_z := 0,
       position_y := position_y k + 0.5,
       speed := 0, grounded := False,
       slideActive := False, slideButton := None, slideDir := 0, slideAngle := 0,
       slideTimer := 0, slideBoosts := 0, boostTimer := 0, boostSpeed := 0\<rparr>"

definition tntPlace :: "Kart \<Rightarrow> TntBox list \<Rightarrow> TntBox list \<times> Event" where
  "tntPlace k placed =
    (let angle = rotation_y k;
         behindDist = 3;
         wx = position_x k + sin angle * behindDist;
         wz = position_z k + cos angle * behindDist
     in (placed @ [\<lparr>tnt_x = wx, tnt_z = wz, tnt_ownerId = kart_id k, immuneTimer = 0.8,
                     tnt_lifetime = TNT_LIFETIME\<rparr>],
         TntPlaceEvent (kart_id k) wx wz))"

text \<open>The index of the first kart an explosive triggers on, if any.\<close>

definition tntTriggers :: "TntBox \<Rightarrow> Kart \<Rightarrow> bool" where
  "tntTriggers tnt k \<longleftrightarrow>
     \<not> (immuneTimer tnt > 0 \<and> kart_id k = tnt_ownerId tnt)
     \<and> (let dx = position_x k - tnt_x tnt;
              dz = position_z k - tnt_z tnt
          in dx * dx + dz * dz < TRIGGER_RADIUS * TRIGGER_RADIUS)"

definition firstIndex :: "('a \<Rightarrow> bool) \<Rightarrow> 'a list \<Rightarrow> nat option" where
  "firstIndex P xs = (case filter (\<lambda>i. P (xs ! i)) [0..<length xs] of [] \<Rightarrow> None | i # _ \<Rightarrow> Some i)"

text \<open>One iteration of the loop over the placed explosives. The loop runs from the last
  element to the first and removes by \<open>splice\<close>; \<open>kept\<close> collects the survivors in their
  original order.\<close>

definition tntStep ::
  "real \<Rightarrow> TntBox \<Rightarrow> TntBox list \<times> Kart list \<times> Event list
     \<Rightarrow> TntBox list \<times> Kart list \<times> Event list" where
  "tntStep dt tnt0 st =
    (case st of (kept, karts, events) \<Rightarrow>
      (let tnt1 = tnt0\<lparr>tnt_lifetime := tnt_lifetime tnt0 - dt\<rparr>;
           tnt = (if immuneTimer tnt1 > 0 then tnt1\<lparr>immuneTimer := immuneTimer tnt1 - dt\<rparr>
                  else tnt1)
       in if tnt_lifetime tnt \<le> 0 then (kept, karts, events)
          else
            (case firstIndex (tntTriggers tnt) karts of
               Some i \<Rightarrow>
                 (kept, karts[i := explodeKart TNT_EXPLODE_VEL_Y (karts ! i)],
                  events @ [TntDetonateEvent (kart_id (karts ! i)) (tnt_x tnt) (tnt_z tnt)])
             | None \<Rightarrow> (tnt # kept, karts, events))))"

definition tntUpdate ::
  "TntBox list \<Rightarrow> Kart list \<Rightarrow> real \<Rightarrow> TntBox list \<times> Kart list \<times> Event list" where
  "tntUpdate placed karts dt = fold (tntStep dt) (rev placed) ([], karts, [])"

subsection \<open>Homing projectiles\<close>

definition MISSILE_SPEED :: real where "MISSILE_SPEED = 55"
definition TURN_RATE :: real where "TURN_RATE = 1.8"
definition HIT_RADIUS :: real where "HIT_RADIUS = 2.5"
definition MISSILE_LIFETIME :: real where "MISSILE_LIFETIME = 6"
definition MISSILE_EXPLODE_VEL_Y :: real where "MISSILE_EXPLODE_VEL_Y = 20"

record MissileState =
  m_ownerId :: string
  m_angle :: real
  m_lifetime :: real
  m_x :: real
  m_z :: real

text \<open>\<open>Math.atan2(y, x)\<close> and the remainder operator \<open>a % b\<close> (the sign of the dividend, the
  quotient truncated towards zero) on numbers.\<close>

definition atan2 :: "real \<Rightarrow> real \<Rightarrow> real" where
  "atan2 y x =
    (if x > 0 then arctan (y / x)
     else if x < 0 then (if y \<ge> 0 then arctan (y / x) + pi else arctan (y / x) - pi)
     else if y > 0 then pi / 2
     else if y < 0 then - pi / 2
     else 0)"

definition jsRem :: "real \<Rightarrow> real \<Rightarrow> real" where
  "jsRem a b = a - b * real_of_int (if a / b \<ge> 0 then \<lfloor>a / b\<rfloor> else \<lceil>a / b\<rceil>)"

definition missileFire :: "Kart \<Rightarrow> MissileState list \<Rightarrow> MissileState list \<times> Event" where
  "missileFire k active =
    (let angle = rotation_y k;
         spawnDist = 2.5;
         wx = position_x k - sin angle * spawnDist;
         wz = position_z k - cos angle * spawnDist
     in (active @ [\<lparr>m_ownerId = kart_id k, m_angle = angle, m_lifetime = MISSILE_LIFETIME,
                     m_x = wx, m_z = wz\<rparr>],
         MissileFireEvent (kart_id k) wx wz angle))"

text \<open>The target search: over the karts in order, the squared distance and the bearing of the
  closest kart so far that is not the owner, not on top of the projectile and inside the
  120-degree cone; the state is \<open>(closestDist, closestAngle)\<close>, \<open>None\<close> standing for
  \<open>Infinity\<close>.\<close>

definition targetStep :: "MissileState \<Rightarrow> Kart \<Rightarrow> real option \<times> real \<Rightarrow> real option \<times> real" where
  "targetStep m k st =
    (let fwdX = - sin (m_angle m);
         fwdZ = - cos (m_angle m);
         CONE_COS = cos (pi / 3);
         dx = position_x k - m_x m;
         dz = position_z k - m_z m;
         dist = dx * dx + dz * dz
     in if kart_id k = m_ownerId m then st
        else if dist < 0.01 then st
        else
          (let len = sqrt dist;
               dot = (dx * fwdX + dz * fwdZ) / len
           in if dot < CONE_COS then st
              else if (case fst st of None \<Rightarrow> True | Some c \<Rightarrow> dist < c)
                then (Some dist, atan2 (- dx) (- dz))
              else st))"

definition missileHits :: "MissileState \<Rightarrow> Kart \<Rightarrow> bool" where
  "missileHits m k \<longleftrightarrow>
     kart_id k \<noteq> m_ownerId m
     \<and> (let dx = position_x k - m_x m;
              dz = position_z k - m_z m
          in dx * dx + dz * dz < HIT_RADIUS * HIT_RADIUS)"

definition missileStep ::
  "real \<Rightarrow> MissileState \<Rightarrow> MissileState list \<times> Kart list \<times> Event list
     \<Rightarrow> MissileState list \<times> Kart list \<times> Event list" where
  "missileStep dt m0 st =
    (case st of (kept, karts, events) \<Rightarrow>
      (let m1 = m0\<lparr>m_lifetime := m_lifetime m0 - dt\<rparr>
       in if m_lifetime m1 \<le> 0 then (kept, karts, events)
          else
            (let closestAngle = snd (fold (targetStep m1) karts (None, m_angle m1));
                 angleDiff0 = closestAngle - m_angle m1;
                 angleDiff = jsRem (jsRem (angleDiff0 + pi) (pi * 2) + pi * 2) (pi * 2) - pi;
                 m2 = m1\<lparr>m_angle := m_angle m1
                                     + sgn angleDiff * min \<bar>angleDiff\<bar> (TURN_RATE * dt)\<rparr>;
                 m3 = m2\<lparr>m_x := m_x m2 - sin (m_angle m2) * MISSILE_SPEED * dt,
                         m_z := m_z m2 - cos (m_angle m2) * MISSILE_SPEED * dt\<rparr>
             in case firstIndex (missileHits m3) karts of
                  Some i \<Rightarrow>
                    (kept, karts[i := explodeKart MISSILE_EXPLODE_VEL_Y (karts ! i)],
                     events @ [MissileHitEvent (kart_id (karts ! i)) (m_x m3) (m_z m3)])
                | None \<Rightarrow> (m3 # kept, karts, events))))"

definition missileUpdate ::
  "MissileState list \<Rightarrow> Kart list \<Rightarrow> real \<Rightarrow> MissileState list \<times> Kart list \<times> Event list" where
  "missileUpdate active karts dt = fold (missileStep dt) (rev active) ([], karts, [])"


section \<open>Bot controller (bot-input.js)\<close>

text \<open>A bot: its id, the kart it drives (an index into the room's kart array, standing for the
  object reference), its input object (the fields of \<open>BotInput\<close> that the room and the
  physics read) and the state of its \<open>BotController\<close>.\<close>

record Bot =
  bot_id :: string
  bot_kart :: nat
  bot_input :: Input
  bot_checkpoints :: "Checkpoint list"
  nextCP :: nat
  stuckTimer :: real
  lastX :: real
  lastZ :: real
  reversing :: bool
  reverseTimer :: real
  itemUseDelay :: real

text \<open>\<open>new BotInput()\<close> and \<open>new BotController(kart, input, checkpoints)\<close>.\<close>

definition newBot :: "string \<Rightarrow> nat \<Rightarrow> Checkpoint list \<Rightarrow> Bot" where
  "newBot i kidx cps =
     \<lparr> bot_id = i, bot_kart = kidx, bot_input = noInput, bot_checkpoints = cps, nextCP = 0,
       stuckTimer = 0, lastX = 0, lastZ = 0, reversing = False, reverseTimer = 0,
       itemUseDelay = 0 \<rparr>"

text \<open>The item-use part of \<open>BotController.update\<close>; it may draw from \<open>Math.random()\<close>.\<close>

definition botItemUse :: "real \<Rightarrow> Kart \<Rightarrow> Rng \<Rightarrow> Bot \<Rightarrow> Bot \<times> Rng" where
  "botItemUse dt k rng b =
    (let b0 = b\<lparr>bot_input := (bot_input b)\<lparr>itemUseTap := False\<rparr>\<rparr>
     in if heldItem k \<noteq> None then
          (case (if itemUseDelay b0 \<le> 0
                 then (case nextRandom rng of
                         (r, rng') \<Rightarrow> (b0\<lparr>itemUseDelay := 0.5 + r * 1.5\<rparr>, rng'))
                 else (b0, rng)) of
             (b1, rng1) \<Rightarrow>
               (let b2 = b1\<lparr>itemUseDelay := itemUseDelay b1 - dt\<rparr>
                in if itemUseDelay b2 \<le> 0
                   then (b2\<lparr>bot_input := (bot_input b2)\<lparr>itemUseTap := True\<rparr>,
                            itemUseDelay := 0\<rparr>, rng1)
                   else (b2, rng1)))
        else (b0, rng))"

definition BotController_update :: "real \<Rightarrow> Kart \<Rightarrow> Rng \<Rightarrow> Bot \<Rightarrow> Bot \<times> Rng" where
  "BotController_update dt k rng b =
    (if length (bot_checkpoints b) = 0
     then (b\<lparr>bot_input := (bot_input b)\<lparr>accel := 1, steer := 0\<rparr>\<rparr>, rng)
     else
       (let cps = bot_checkpoints b;
            cp = cps ! nextCP b;
            dx = cp_x cp - position_x k;
            dz = cp_z cp - position_z k;
            dist = sqrt (dx * dx + dz * dz);
            b1 = (if dist < 30 then b\<lparr>nextCP := (nextCP b + 1) mod length cps\<rparr> else b);
            target = cps ! nextCP b1;
            tx = cp_x target - position_x k;
            tz = cp_z target - position_z k;
            desiredAngle = atan2 (- tx) (- tz);
            angleDiff0 = jsRem (desiredAngle - rotation_y k + pi) (pi * 2) - pi;
            angleDiff = (if angleDiff0 < - pi then angleDiff0 + pi * 2 else angleDiff0);
            movedX = position_x k - lastX b1;
            movedZ = position_z k - lastZ b1;
            moved = sqrt (movedX * movedX + movedZ * movedZ);
            b2 = (if moved < 0.5 * dt then b1\<lparr>stuckTimer := stuckTimer b1 + dt\<rparr>
                  else b1\<lparr>stuckTimer := 0\<rparr>);
            b3 = b2\<lparr>lastX := position_x k, lastZ := position_z k\<rparr>
        in if reversing b3 then
             (let b4 = b3\<lparr>reverseTimer := reverseTimer b3 - dt,
                           bot_input := (bot_input b3)\<lparr>accel := - 1,
                                          steer := (if angleDiff > 0 then - 0.5 else 0.5)\<rparr>\<rparr>
              in if reverseTimer b4 \<le> 0
                 then (b4\<lparr>reversing := False, stuckTimer := 0\<rparr>, rng)
                 else (b4, rng))
           else if stuckTimer b3 > 1.5
             then (b3\<lparr>reversing := True, reverseTimer := 0.8\<rparr>, rng)
           else
             (let steerAmount = max (- 1) (min 1 (angleDiff * 2.5));
                  absAngle = \<bar>angleDiff\<bar>;
                  acc = (if absAngle > 0.6 then 0.3 + 0.4 * (1 - min 1 (absAngle / pi)) else 1);
                  b4 = b3\<lparr>bot_input := (bot_input b3)\<lparr>steer := steerAmount, accel := acc,
                              hopZ := False, hopX := False, hopZTap := False, hopXTap := False\<rparr>\<rparr>
              in botItemUse dt k rng b4)))"


section \<open>Authoritative tick loop (room.js, \<open>GameRoom\<close>)\<close>

definition TICK_RATE :: real where "TICK_RATE = 60"
definition SNAPSHOT_RATE :: real where "SNAPSHOT_RATE = 20"
definition TICK_DT :: real where "TICK_DT = 1 / TICK_RATE"
definition SNAPSHOT_INTERVAL :: nat where "SNAPSHOT_INTERVAL = 3"
definition CELL_SIZE :: real where "CELL_SIZE = 3"

text \<open>A player slot of a room: the connection (a socket identity), the ready flag and the
  grid slot.\<close>

record Player =
  ws :: nat
  ready :: bool
  slot :: nat

text \<open>What \<open>loadMap\<close> and \<open>new TrackData(mapData)\<close> deliver: the start pose (with the angle
  when the map gives one), the grid size and scale, the checkpoint, boost-pad and item-box
  cells, the terrain lookups and the obstacle boxes.\<close>

record MapData =
  md_start :: "(real \<times> real \<times> real option) option"
  md_width :: real
  md_height :: real
  md_scale :: real
  md_checkpoints :: "(real \<times> real) list"
  md_boostPads :: "(real \<times> real) list"
  md_itemBoxes :: "(real \<times> real) list"
  md_track :: TrackData
  md_obstacles :: "Obstacle list"

text \<open>A room. \<open>this.karts\<close> and \<open>this.allKartObjects\<close> hold the same kart objects in the same
  order and are one list here. \<open>players\<close> is a \<open>Map\<close> in insertion order; \<open>playerInputs\<close>
  and \<open>playerLastSeq\<close> are \<open>Map\<close>s whose order is never observed. \<open>tickInterval\<close> says
  whether the interval handle is set.\<close>

record Room =
  room_id :: string
  room_name :: string
  mapId :: string
  players :: "(string \<times> Player) list"
  running :: bool
  tickInterval :: bool
  tick :: nat
  karts :: "Kart list"
  physics :: "(string \<times> KartPhysics) list"
  bots :: "Bot list"
  race :: "RaceManager option"
  boostPads :: "Pad list"
  itemBoxes :: "ItemBox list"
  tntSystem :: "TntBox list"
  missileSystem :: "MissileState list"
  events :: "Event list"
  playerInputs :: "string \<rightharpoonup> nat \<times> Input"
  playerLastSeq :: "string \<rightharpoonup> nat"

definition GameRoom_new :: "string \<Rightarrow> string \<Rightarrow> string \<Rightarrow> Room" where
  "GameRoom_new rid nm mid =
     \<lparr> room_id = rid, room_name = nm, mapId = mid, players = [], running = False,
       tickInterval = False, tick = 0, karts = [], physics = [], bots = [], race = None,
       boostPads = [], itemBoxes = [], tntSystem = [], missileSystem = [], events = [],
       playerInputs = Map.empty, playerLastSeq = Map.empty \<rparr>"

definition playerCount :: "Room \<Rightarrow> nat" where
  "playerCount room = length (players room)"

definition nextSlot :: "Room \<Rightarrow> nat" where
  "nextSlot room =
    (let used = set (map (\<lambda>(pid, p). slot p) (players room))
     in case filter (\<lambda>i. i \<notin> used) [0..<4] of [] \<Rightarrow> 0 | i # _ \<Rightarrow> i)"

definition addPlayer :: "string \<Rightarrow> nat \<Rightarrow> Room \<Rightarrow> Room" where
  "addPlayer pid w room =
     room\<lparr>players := AList.update pid \<lparr>ws = w, ready = False, slot = nextSlot room\<rparr>
                         (players room)\<rparr>"

text \<open>\<open>this.karts.find(k => k.id === id)\<close>, as an index.\<close>

definition findKart :: "Kart list \<Rightarrow> string \<Rightarrow> nat option" where
  "findKart ks i = firstIndex (\<lambda>k. kart_id k = i) ks"

definition findBot :: "Bot list \<Rightarrow> string \<Rightarrow> Bot option" where
  "findBot bs i = List.find (\<lambda>b. bot_id b = i) bs"

definition convertToBot :: "nat \<Rightarrow> Room \<Rightarrow> Room" where
  "convertToBot kidx room =
    (let worldCPs = (case race room of Some rm \<Rightarrow> checkpoints rm | None \<Rightarrow> [])
     in room\<lparr>bots := bots room @ [newBot (kart_id (karts room ! kidx)) kidx worldCPs]\<rparr>)"

definition removePlayer :: "string \<Rightarrow> Room \<Rightarrow> Room" where
  "removePlayer pid room =
    (let player = map_of (players room) pid;
         room1 = room\<lparr>players := AList.delete pid (players room)\<rparr>
     in if running room1 \<and> player \<noteq> None then
          (case findKart (karts room1) pid of
             Some kidx \<Rightarrow> convertToBot kidx room1
           | None \<Rightarrow> room1)
        else room1)"

definition toggleReady :: "string \<Rightarrow> Room \<Rightarrow> Room" where
  "toggleReady pid room =
    (case map_of (players room) pid of
       Some p \<Rightarrow> room\<lparr>players := AList.update pid (p\<lparr>ready := \<not> ready p\<rparr>) (players room)\<rparr>
     | None \<Rightarrow> room)"

definition allReady :: "Room \<Rightarrow> bool" where
  "allReady room \<longleftrightarrow> list_all (\<lambda>(pid, p). ready p) (players room)"

definition handleInput :: "string \<Rightarrow> nat \<Rightarrow> Input \<Rightarrow> Room \<Rightarrow> Room" where
  "handleInput pid seq inp room =
     room\<lparr>playerInputs := (playerInputs room)(pid \<mapsto> (seq, inp)),
          playerLastSeq := (playerLastSeq room)(pid \<mapsto> seq)\<rparr>"

text \<open>\<open>stop()\<close>.\<close>

definition GameRoom_stop :: "Room \<Rightarrow> Room" where
  "GameRoom_stop room = room\<lparr>tickInterval := False, running := False\<rparr>"

subsection \<open>Starting a game\<close>

text \<open>\<open>startGame\<close> is asynchronous. Its first statement, \<open>this.running = true\<close>, runs at the
  call; everything after \<open>await loadMap\<close> runs later, when the map has arrived.\<close>

definition startGame_begin :: "Room \<Rightarrow> Room" where
  "startGame_begin room = room\<lparr>running := True\<rparr>"

definition toWorld :: "MapData \<Rightarrow> real \<times> real \<Rightarrow> real \<times> real" where
  "toWorld md c =
     ((fst c - md_width md / 2) * md_scale md * CELL_SIZE,
      (snd c - md_height md / 2) * md_scale md * CELL_SIZE)"

definition spawnPose :: "MapData \<Rightarrow> real \<times> real \<times> real" where
  "spawnPose md =
    (case md_start md of
       None \<Rightarrow> (0, 0, 0)
     | Some (sx, sy, a) \<Rightarrow>
         (fst (toWorld md (sx, sy)), snd (toWorld md (sx, sy)),
          - (case a of Some v \<Rightarrow> v | None \<Rightarrow> 0) - pi / 2))"

definition gridSlots :: "(real \<times> real) list" where
  "gridSlots = [(- 3, 0), (3, 0), (- 3, - 4), (3, - 4)]"

definition spawnPositions :: "MapData \<Rightarrow> (real \<times> real \<times> real) list" where
  "spawnPositions md =
    (case spawnPose md of (spawnX, spawnZ, spawnAngle) \<Rightarrow>
      (let perpX = cos spawnAngle;
           perpZ = - sin spawnAngle;
           paraX = - sin spawnAngle;
           paraZ = - cos spawnAngle
       in map (\<lambda>(lat, fwd).
                 (let sx = spawnX + perpX * lat + paraX * fwd;
                      sz = spawnZ + perpZ * lat + paraZ * fwd
                  in (sx, getGroundHeight (md_track md) sx sz + 1, sz)))
              gridSlots))"

definition kartIndices :: "nat list" where
  "kartIndices = [1, 0, 2, 0]"

definition worldCheckpoints :: "MapData \<Rightarrow> Checkpoint list" where
  "worldCheckpoints md =
     map (\<lambda>c. \<lparr>cp_x = fst (toWorld md c), cp_z = snd (toWorld md c)\<rparr>) (md_checkpoints md)"

text \<open>The loop over the players: a kart and a physics instance for each, at its slot.\<close>

definition addPlayerKart :: "MapData \<Rightarrow> string \<times> Player \<Rightarrow> Room \<Rightarrow> Room" where
  "addPlayerKart md e room =
    (case e of (pid, pdata) \<Rightarrow>
      (let sp = spawnPositions md ! slot pdata;
           k = createServerKart pid sp (snd (snd (spawnPose md))) (kartIndices ! slot pdata)
       in room\<lparr>karts := karts room @ [k],
               physics := physics room @ [(pid, KartPhysics_new (md_obstacles md) (md_track md))]\<rparr>))"

text \<open>\<open>'bot' + slot\<close> for a slot below 10.\<close>

definition botName :: "nat \<Rightarrow> string" where
  "botName s = ''bot'' @ [char_of (48 + s)]"

text \<open>The loop over the slots: a kart, a physics instance and a bot for each slot no player
  has.\<close>

definition addBotKart :: "MapData \<Rightarrow> nat set \<Rightarrow> nat \<Rightarrow> Room \<Rightarrow> Room" where
  "addBotKart md usedSlots s room =
    (if s \<in> usedSlots then room
     else
       (let botId = botName s;
            sp = spawnPositions md ! s;
            k = createServerKart botId sp (snd (snd (spawnPose md))) (kartIndices ! s)
        in room\<lparr>karts := karts room @ [k],
                physics := physics room
                             @ [(botId, KartPhysics_new (md_obstacles md) (md_track md))],
                bots := bots room @ [newBot botId (length (karts room)) (worldCheckpoints md)]\<rparr>))"

definition startsWithBot :: "string \<Rightarrow> bool" where
  "startsWithBot s \<longleftrightarrow> take 3 s = ''bot''"

definition createServerBoostPads :: "MapData \<Rightarrow> Pad list" where
  "createServerBoostPads md =
     map (\<lambda>c. \<lparr>pad_x = fst (toWorld md c), pad_z = snd (toWorld md c), cooldowns = []\<rparr>)
         (md_boostPads md)"

definition createServerItemBoxes :: "MapData \<Rightarrow> ItemBox list" where
  "createServerItemBoxes md =
     map (\<lambda>(c, i). \<lparr>box_x = fst (toWorld md c), box_z = snd (toWorld md c),
                     respawnTimer = 0, box_index = i\<rparr>)
         (zip (md_itemBoxes md) [0..<length (md_itemBoxes md)])"

definition startGame_loaded :: "MapData \<Rightarrow> Room \<Rightarrow> Room" where
  "startGame_loaded md room =
    (let room1 = fold (addPlayerKart md) (players room) room;
         usedSlots = set (map (\<lambda>(pid, p). slot p) (players room));
         room2 = fold (addBotKart md usedSlots) [0..<4] room1;
         finishLine = (case spawnPose md of (spawnX, spawnZ, spawnAngle) \<Rightarrow>
                         \<lparr>fl_x = spawnX, fl_z = spawnZ,
                          fl_nx = - sin spawnAngle, fl_nz = - cos spawnAngle\<rparr>);
         racers0 = map (\<lambda>k. (k, \<not> startsWithBot (kart_id k))) (karts room2)
     in room2\<lparr>race := Some (RaceManager_new (worldCheckpoints md) racers0 (Some finishLine)),
              boostPads := createServerBoostPads md,
              itemBoxes := createServerItemBoxes md,
              tntSystem := [],
              missileSystem := [],
              tick := 0,
              tickInterval := True\<rparr>)"


subsection \<open>One tick\<close>

text \<open>The racers refer to the kart objects of the room, racer \<open>i\<close> to kart \<open>i\<close>; before the race
  manager runs, each racer's kart is brought up to date.\<close>

fun syncRacers :: "Kart list \<Rightarrow> Racer list \<Rightarrow> Racer list" where
  "syncRacers (k # ks) (r # rs) = r\<lparr>kart := k\<rparr> # syncRacers ks rs"
| "syncRacers ks rs = rs"

definition syncRace :: "Kart list \<Rightarrow> RaceManager \<Rightarrow> RaceManager" where
  "syncRace ks rm = rm\<lparr>racers := syncRacers ks (racers rm)\<rparr>"

text \<open>Step 2: every bot controller runs on its kart.\<close>

fun botsLoop :: "real \<Rightarrow> Kart list \<Rightarrow> Rng \<Rightarrow> Bot list \<Rightarrow> Bot list \<times> Rng" where
  "botsLoop dt ks rng [] = ([], rng)"
| "botsLoop dt ks rng (b # bs) =
     (case BotController_update dt (ks ! bot_kart b) rng b of
        (b', rng') \<Rightarrow> (case botsLoop dt ks rng' bs of (bs', rng'') \<Rightarrow> (b' # bs', rng'')))"

text \<open>The input a kart is driven with: its bot's input if a bot has its id, else the input
  stored for its player, else the idle input.\<close>

definition kartInput :: "Room \<Rightarrow> string \<Rightarrow> Input" where
  "kartInput room kid =
    (case findBot (bots room) kid of
       Some b \<Rightarrow> bot_input b
     | None \<Rightarrow> (case playerInputs room kid of
                  Some stored \<Rightarrow> snd stored
                | None \<Rightarrow> noInput))"

text \<open>Step 3: the loop over \<open>this.physics\<close>; entry \<open>j\<close> moves the first kart with its id.\<close>

definition physicsStep :: "real \<Rightarrow> nat \<Rightarrow> Room \<Rightarrow> Room" where
  "physicsStep dt j room =
    (case physics room ! j of (kid, ph) \<Rightarrow>
      (case findKart (karts room) kid of
         None \<Rightarrow> room
       | Some i \<Rightarrow>
           (case KartPhysics_update ph (karts room ! i) (kartInput room kid) dt of
              (k', ph') \<Rightarrow>
                room\<lparr>karts := (karts room)[i := k'],
                     physics := (physics room)[j := (kid, ph')]\<rparr>)))"

definition physicsLoop :: "real \<Rightarrow> Room \<Rightarrow> Room" where
  "physicsLoop dt room = fold (physicsStep dt) [0..<length (physics room)] room"

text \<open>Step 7: item activation, kart by kart.\<close>

definition useTapOf :: "Room \<Rightarrow> string \<Rightarrow> bool" where
  "useTapOf room kid =
    (case findBot (bots room) kid of
       Some b \<Rightarrow> itemUseTap (bot_input b)
     | None \<Rightarrow> (case playerInputs room kid of
                  Some stored \<Rightarrow> itemUseTap (snd stored)
                | None \<Rightarrow> False))"

definition activateItemStep :: "nat \<Rightarrow> Room \<Rightarrow> Room" where
  "activateItemStep i room =
    (let k = karts room ! i
     in if useTapOf room (kart_id k) then
          (case heldItem k of
             None \<Rightarrow> room
           | Some item \<Rightarrow>
               (let k0 = k\<lparr>heldItem := None\<rparr>;
                    room0 = room\<lparr>karts := (karts room)[i := k0]\<rparr>
                in case item of
                     Boost \<Rightarrow>
                       room0\<lparr>karts := (karts room0)[i := k0\<lparr>boostSpeed := 15, boostTimer := 1.6\<rparr>],
                             events := events room0 @ [ItemUseEvent (kart_id k) Boost]\<rparr>
                   | TNT \<Rightarrow>
                       (case tntPlace k0 (tntSystem room0) of
                          (placed, evt) \<Rightarrow>
                            room0\<lparr>tntSystem := placed, events := events room0 @ [evt]\<rparr>)
                   | Missile \<Rightarrow>
                       (case missileFire k0 (missileSystem room0) of
                          (active, evt) \<Rightarrow>
                            room0\<lparr>missileSystem := active, events := events room0 @ [evt]\<rparr>)))
        else room)"

definition activateItems :: "Room \<Rightarrow> Room" where
  "activateItems room = fold activateItemStep [0..<length (karts room)] room"

text \<open>Step 10: the one-frame tap flags of every stored player input are cleared.\<close>

definition clearTaps :: "Room \<Rightarrow> Room" where
  "clearTaps room =
     room\<lparr>playerInputs :=
            (\<lambda>pid. case playerInputs room pid of
                      None \<Rightarrow> None
                    | Some (seq, inp) \<Rightarrow>
                        Some (seq, inp\<lparr>hopZTap := False, hopXTap := False,
                                       itemUseTap := False\<rparr>))\<rparr>"

text \<open>Steps 2 to 10, run when the race is not frozen.\<close>

definition activeTick :: "real \<Rightarrow> Rng \<Rightarrow> Room \<Rightarrow> Room \<times> Rng" where
  "activeTick dt rng room =
    (case botsLoop dt (karts room) rng (bots room) of
       (bots1, rng1) \<Rightarrow>
        (let room1 = physicsLoop dt (room\<lparr>bots := bots1\<rparr>);
             room2 = room1\<lparr>karts := resolveKartCollisions (karts room1)\<rparr>
         in case boostPadsUpdate (boostPads room2) (karts room2) dt of
              (pads, karts3, boostEvents) \<Rightarrow>
               (let room3 = room2\<lparr>boostPads := pads, karts := karts3,
                                  events := events room2 @ boostEvents\<rparr>
                in case itemBoxesUpdate rng1 (itemBoxes room3) (karts room3) dt of
                     (boxes, rng2, karts4, itemEvents) \<Rightarrow>
                      (let room4 = room3\<lparr>itemBoxes := boxes, karts := karts4,
                                         events := events room3 @ itemEvents\<rparr>;
                           room5 = activateItems room4
                       in case tntUpdate (tntSystem room5) (karts room5) dt of
                            (placed, karts6, tntEvents) \<Rightarrow>
                             (let room6 = room5\<lparr>tntSystem := placed, karts := karts6,
                                                events := events room5 @ tntEvents\<rparr>
                              in case missileUpdate (missileSystem room6) (karts room6) dt of
                                   (active, karts7, missileEvents) \<Rightarrow>
                                     (clearTaps
                                        (room6\<lparr>missileSystem := active, karts := karts7,
                                               events := events room6 @ missileEvents\<rparr>),
                                      rng2))))))"

subsection \<open>Snapshots\<close>

record RacerWireState =
  rw_kartId :: string
  rw_lap :: int
  rw_position :: nat
  rw_finished :: bool
  rw_wrongWay :: bool
  rw_checkpointsPassed :: int

record Snapshot =
  snap_tick :: nat
  lastInputSeq :: nat
  snap_karts :: "KartWireState list"
  snap_countdownValue :: int
  snap_frozen :: bool
  snap_racers :: "RacerWireState list"
  snap_events :: "Event list"

definition kartWireState :: "Kart \<Rightarrow> KartWireState" where
  "kartWireState k =
     \<lparr> w_id = kart_id k, w_x = position_x k, w_y = position_y k, w_z = position_z k,
       w_ry = rotation_y k, w_speed = speed k, w_steerAngle = steerAngle k,
       w_slideActive = slideActive k, w_slideDir = slideDir k, w_slideAngle = slideAngle k,
       w_boostSpeed = boostSpeed k, w_boostTimer = boostTimer k, w_grounded = grounded k,
       w_heldItem = heldItem k, w_velocityY = velocity_y k \<rparr>"

definition racerWireState :: "Racer \<Rightarrow> RacerWireState" where
  "racerWireState r =
     \<lparr> rw_kartId = kart_id (kart r), rw_lap = lap r, rw_position = position r,
       rw_finished = finished r, rw_wrongWay = wrongWay r,
       rw_checkpointsPassed = checkpointsPassed r \<rparr>"

text \<open>The snapshot \<open>_sendSnapshot\<close> builds for one player; \<open>lastInputSeq\<close> is the sequence
  number last stored for that player, or 0.\<close>

definition snapshotFor :: "Room \<Rightarrow> RaceManager \<Rightarrow> string \<Rightarrow> Snapshot" where
  "snapshotFor room rm pid =
     \<lparr> snap_tick = tick room,
       lastInputSeq = (case playerLastSeq room pid of Some s \<Rightarrow> s | None \<Rightarrow> 0),
       snap_karts = map kartWireState (karts room),
       snap_countdownValue = countdownValue rm,
       snap_frozen = isFrozen rm,
       snap_racers = map racerWireState (racers rm),
       snap_events = events room \<rparr>"

text \<open>\<open>_sendSnapshot\<close>: the event list is emptied and every player is sent a snapshot.\<close>

definition sendSnapshot :: "RaceManager \<Rightarrow> Room \<Rightarrow> Room \<times> (string \<times> Snapshot) list" where
  "sendSnapshot rm room =
     (room\<lparr>events := []\<rparr>, map (\<lambda>(pid, p). (pid, snapshotFor room rm pid)) (players room))"

text \<open>\<open>_tick\<close>. The interval that calls it is armed only after the race manager is set; with
  no race manager the call fails (the result \<open>None\<close>). The result is the room, the rest of
  the random stream and the snapshots sent.\<close>

definition GameRoom_tick :: "Rng \<Rightarrow> Room \<Rightarrow> (Room \<times> Rng \<times> (string \<times> Snapshot) list) option" where
  "GameRoom_tick rng room =
    (case race room of
       None \<Rightarrow> None
     | Some rm0 \<Rightarrow>
         (let dt = TICK_DT;
              room1 = room\<lparr>tick := tick room + 1\<rparr>;
              rm = RaceManager_update dt (syncRace (karts room1) rm0);
              room2 = room1\<lparr>race := Some rm\<rparr>;
              frozen = isFrozen rm
          in case (if \<not> frozen then activeTick dt rng room2 else (room2, rng)) of
               (room3, rng') \<Rightarrow>
                 (if tick room3 mod SNAPSHOT_INTERVAL = 0
                  then (case sendSnapshot rm room3 of
                          (room4, msgs) \<Rightarrow> Some (room4, rng', msgs))
                  else Some (room3, rng', []))))"

text \<open>A sequence of input messages delivered to a room, oldest first.\<close>

definition deliver :: "(string \<times> nat \<times> Input) list \<Rightarrow> Room \<Rightarrow> Room" where
  "deliver msgs room = fold (\<lambda>(pid, seq, inp). handleInput pid seq inp) msgs room"

text \<open>Two input commands of one player: accelerate (sent first, sequence number 1) and brake
  with a hop tap (sent second, sequence number 2).\<close>

definition firstInput :: Input where
  "firstInput = noInput\<lparr>accel := 1\<rparr>"

definition secondInput :: Input where
  "secondInput = noInput\<lparr>accel := - 1, hopZ := True, hopZTap := True\<rparr>"

text \<open>A flat map with two checkpoints and no pads or boxes, and a room in its countdown: one
  player created the room and readied up, the map arrived, and the player's input with the
  hop tap was stored.\<close>

definition flatMap :: MapData where
  "flatMap =
     \<lparr> md_start = None, md_width = 0, md_height = 0, md_scale = 1,
       md_checkpoints = [(0, - 40), (0, - 80)], md_boostPads = [], md_itemBoxes = [],
       md_track = noTrack, md_obstacles = [] \<rparr>"

definition countdownRoom :: Room where
  "countdownRoom =
     handleInput ''p1'' 2 secondInput
       (startGame_loaded flatMap
         (startGame_begin
           (toggleReady ''p1''
             (addPlayer ''p1'' 1 (GameRoom_new ''room1'' ''room1'' ''flat'')))))"

text \<open>The same room one tick before \<open>go\<close>: the countdown timer has come down to just above 1.\<close>

definition lastFrozenRoom :: Room where
  "lastFrozenRoom =
     countdownRoom\<lparr>race := map_option (\<lambda>rm. rm\<lparr>countdownTimer := 1.01, countdownValue := 1\<rparr>)
                                      (race countdownRoom)\<rparr>"

definition zeroRng :: Rng where
  "zeroRng = (\<lambda>n. 0)"


section \<open>Room registry (lobby.js, \<open>LobbyManager\<close>)\<close>

record Client =
  playerId :: string
  roomId :: "string option"

text \<open>The registry: the rooms and the clients (both \<open>Map\<close>s in insertion order, the clients
  keyed by their socket) and the module-level counter \<open>nextRoomId\<close>.\<close>

record Lobby =
  rooms :: "(string \<times> Room) list"
  clients :: "(nat \<times> Client) list"
  nextRoomId :: nat

definition LobbyManager_new :: Lobby where
  "LobbyManager_new = \<lparr> rooms = [], clients = [], nextRoomId = 1 \<rparr>"

datatype ClientMessage =
    LobbyList
  | LobbyCreate "string option" string
  | LobbyJoin string
  | LobbyLeave
  | LobbyReady
  | InputMessage nat Input
  | OtherMessage

text \<open>\<open>addClient(ws)\<close>; the player id, drawn at random by the source, is given.\<close>

definition addClient :: "nat \<Rightarrow> string \<Rightarrow> Lobby \<Rightarrow> Lobby" where
  "addClient w pid lb =
     lb\<lparr>clients := AList.update w \<lparr>playerId = pid, roomId = None\<rparr> (clients lb)\<rparr>"

text \<open>The block shared by \<open>removeClient\<close> and \<open>_leaveRoom\<close>: take the player out of its room and
  delete the room when it is empty and not running.\<close>

definition leaveRoomOf :: "Client \<Rightarrow> string \<Rightarrow> Lobby \<Rightarrow> Lobby" where
  "leaveRoomOf c rid lb =
    (case map_of (rooms lb) rid of
       None \<Rightarrow> lb
     | Some room \<Rightarrow>
         (let room' = removePlayer (playerId c) room
          in if playerCount room' = 0 \<and> \<not> running room'
             then lb\<lparr>rooms := AList.delete rid (rooms lb)\<rparr>
             else lb\<lparr>rooms := AList.update rid room' (rooms lb)\<rparr>))"

definition removeClient :: "nat \<Rightarrow> Lobby \<Rightarrow> Lobby" where
  "removeClient w lb =
    (case map_of (clients lb) w of
       None \<Rightarrow> lb
     | Some c \<Rightarrow>
         (let lb1 = (case roomId c of Some rid \<Rightarrow> leaveRoomOf c rid lb | None \<Rightarrow> lb)
          in lb1\<lparr>clients := AList.delete w (clients lb1)\<rparr>))"

text \<open>\<open>_leaveRoom(ws, client)\<close>; it also clears the client's room id.\<close>

definition leaveRoom :: "nat \<Rightarrow> Client \<Rightarrow> Lobby \<Rightarrow> Lobby" where
  "leaveRoom w c lb =
    (let lb1 = (case roomId c of Some rid \<Rightarrow> leaveRoomOf c rid lb | None \<Rightarrow> lb)
     in lb1\<lparr>clients := AList.update w (c\<lparr>roomId := None\<rparr>) (clients lb1)\<rparr>)"

text \<open>\<open>'room' + n\<close>.\<close>

fun digitsOf :: "nat \<Rightarrow> string" where
  "digitsOf n = (if n < 10 then [''0123456789'' ! n]
                 else digitsOf (n div 10) @ [''0123456789'' ! (n mod 10)])"

definition roomName :: "nat \<Rightarrow> string" where
  "roomName n = ''room'' @ digitsOf n"

definition setClientRoom :: "nat \<Rightarrow> Client \<Rightarrow> string \<Rightarrow> Lobby \<Rightarrow> Lobby" where
  "setClientRoom w c rid lb =
     lb\<lparr>clients := AList.update w (c\<lparr>roomId := Some rid\<rparr>) (clients lb)\<rparr>"

definition handleMessage :: "nat \<Rightarrow> ClientMessage \<Rightarrow> Lobby \<Rightarrow> Lobby" where
  "handleMessage w msg lb =
    (case map_of (clients lb) w of
       None \<Rightarrow> lb
     | Some c \<Rightarrow>
        (case msg of
           LobbyList \<Rightarrow> lb
         | LobbyCreate nm mid \<Rightarrow>
            (let lb1 = (if roomId c \<noteq> None then leaveRoom w c lb else lb);
                 rid = roomName (nextRoomId lb1);
                 room = addPlayer (playerId c) w
                          (GameRoom_new rid
                             (case nm of Some n \<Rightarrow> (if n = [] then rid else n) | None \<Rightarrow> rid) mid)
             in setClientRoom w c rid
                  (lb1\<lparr>nextRoomId := nextRoomId lb1 + 1,
                       rooms := AList.update rid room (rooms lb1)\<rparr>))
         | LobbyJoin rid \<Rightarrow>
            (let lb1 = (if roomId c \<noteq> None then leaveRoom w c lb else lb)
             in case map_of (rooms lb1) rid of
                  None \<Rightarrow> lb1
                | Some room \<Rightarrow>
                    if running room \<or> playerCount room \<ge> 4 then lb1
                    else setClientRoom w c rid
                           (lb1\<lparr>rooms := AList.update rid (addPlayer (playerId c) w room)
                                              (rooms lb1)\<rparr>))
         | LobbyLeave \<Rightarrow> (if roomId c \<noteq> None then leaveRoom w c lb else lb)
         | LobbyReady \<Rightarrow>
            (case roomId c of
               None \<Rightarrow> lb
             | Some rid \<Rightarrow>
                (case map_of (rooms lb) rid of
                   None \<Rightarrow> lb
                 | Some room \<Rightarrow>
                    (let room1 = toggleReady (playerId c) room;
                         room2 = (if allReady room1 \<and> playerCount room1 \<ge> 1
                                  then startGame_begin room1 else room1)
                     in lb\<lparr>rooms := AList.update rid room2 (rooms lb)\<rparr>)))
         | InputMessage seq inp \<Rightarrow>
            (case roomId c of
               None \<Rightarrow> lb
             | Some rid \<Rightarrow>
                (case map_of (rooms lb) rid of
                   None \<Rightarrow> lb
                 | Some room \<Rightarrow>
                    if running room
                    then lb\<lparr>rooms := AList.update rid (handleInput (playerId c) seq inp room)
                                           (rooms lb)\<rparr>
                    else lb))
         | OtherMessage \<Rightarrow> lb))"

text \<open>What can happen to the server: a connection opens (with the player id it is given), a
  connection closes, a message arrives, a map load started by \<open>startGame\<close> completes for a
  room, or the interval of a room fires (with the random stream of that tick).\<close>

datatype ServerEvent =
    Connect nat string
  | Close nat
  | Message nat ClientMessage
  | MapLoaded string MapData
  | TimerTick string Rng

definition serverStep :: "ServerEvent \<Rightarrow> Lobby \<Rightarrow> Lobby" where
  "serverStep ev lb =
    (case ev of
       Connect w pid \<Rightarrow> addClient w pid lb
     | Close w \<Rightarrow> removeClient w lb
     | Message w msg \<Rightarrow> handleMessage w msg lb
     | MapLoaded rid md \<Rightarrow>
         (case map_of (rooms lb) rid of
            Some room \<Rightarrow>
              (if running room
               then lb\<lparr>rooms := AList.update rid (startGame_loaded md room) (rooms lb)\<rparr>
               else lb)
          | None \<Rightarrow> lb)
     | TimerTick rid rng \<Rightarrow>
         (case map_of (rooms lb) rid of
            Some room \<Rightarrow>
              (if tickInterval room then
                 (case GameRoom_tick rng room of
                    Some (room', rng', msgs) \<Rightarrow> lb\<lparr>rooms := AList.update rid room' (rooms lb)\<rparr>
                  | None \<Rightarrow> lb)
               else lb)
          | None \<Rightarrow> lb))"

text \<open>The registry states a server can reach from its start.\<close>

inductive reachable :: "Lobby \<Rightarrow> bool" where
  reach_init: "reachable LobbyManager_new"
| reach_step: "reachable lb \<Longrightarrow> reachable (serverStep ev lb)"

definition runServer :: "ServerEvent list \<Rightarrow> Lobby" where
  "runServer evs = fold serverStep evs LobbyManager_new"


text \<open>The property of the registry that holds in every reachable state: a room of the registry
  that has no player is running, and a room that is not running has no tick interval.\<close>

definition roomOk :: "Room \<Rightarrow> bool" where
  "roomOk room \<longleftrightarrow> (playerCount room = 0 \<longrightarrow> running room)
                  \<and> (\<not> running room \<longrightarrow> \<not> tickInterval room)"

definition registryOk :: "Lobby \<Rightarrow> bool" where
  "registryOk lb \<longleftrightarrow> (\<forall>e \<in> set (rooms lb). roomOk (snd e))"

text \<open>One player connects, creates a room, readies up (the game starts and the map arrives)
  and then leaves; the second trace ends with the connection closing instead.\<close>

definition abandonedByLeave :: "ServerEvent list" where
  "abandonedByLeave =
     [Connect 1 ''p1'', Message 1 (LobbyCreate None ''flat''), Message 1 LobbyReady,
      MapLoaded ''room1'' flatMap, Message 1 LobbyLeave]"

definition abandonedByClose :: "ServerEvent list" where
  "abandonedByClose =
     [Connect 1 ''p1'', Message 1 (LobbyCreate None ''flat''), Message 1 LobbyReady,
      MapLoaded ''room1'' flatMap, Close 1]"

definition leftBeforeStart :: "ServerEvent list" where
  "leftBeforeStart =
     [Connect 1 ''p1'', Message 1 (LobbyCreate None ''flat''), Message 1 LobbyLeave]"

text \<open>What the registry holds for a room id: the number of players of the room, whether it is
  running and whether its tick interval is set; \<open>None\<close> when the registry has no such room.\<close>

definition roomStatus :: "Lobby \<Rightarrow> string \<Rightarrow> (nat \<times> bool \<times> bool) option" where
  "roomStatus lb rid =
     map_option (\<lambda>room. (playerCount room, running room, tickInterval room))
       (map_of (rooms lb) rid)"

text \<open>The room of these traces when it was created, and after the game has started (the
  room of the countdown fixture before any input arrived).\<close>

definition lobbyRoom :: Room where
  "lobbyRoom = addPlayer ''p1'' 1 (GameRoom_new ''room1'' ''room1'' ''flat'')"

definition startedRoom :: Room where
  "startedRoom = startGame_loaded flatMap (startGame_begin (toggleReady ''p1'' lobbyRoom))"

definition roomCreated :: "ServerEvent list" where
  "roomCreated = [Connect 1 ''p1'', Message 1 (LobbyCreate None ''flat'')]"


section \<open>What the item boxes draw\<close>

text \<open>The result of the item-box update without the rest of the random stream: the boxes, the
  karts and the events.\<close>

definition outcome ::
  "ItemBox list \<times> Rng \<times> Kart list \<times> Event list \<Rightarrow> ItemBox list \<times> Kart list \<times> Event list" where
  "outcome res = (fst res, fst (snd (snd res)), snd (snd (snd res)))"

text \<open>Two random streams that select the same items, draw by draw.\<close>

definition sameItems :: "Rng \<Rightarrow> Rng \<Rightarrow> bool" where
  "sameItems r1 r2 \<longleftrightarrow> (\<forall>n. itemOfDraw (r1 n) = itemOfDraw (r2 n))"

text \<open>A stream as \<open>Math.random\<close> gives it: every value in \<open>[0, 1)\<close>.\<close>

definition unitDraws :: "Rng \<Rightarrow> bool" where
  "unitDraws rng \<longleftrightarrow> (\<forall>n. 0 \<le> rng n \<and> rng n < 1)"

text \<open>What an update may do to the karts: each kart is as it was, or it held nothing and now
  holds one item of the fixed set, all else unchanged.\<close>

definition grantsOnly :: "Kart list \<Rightarrow> Kart list \<Rightarrow> bool" where
  "grantsOnly ks ks' \<longleftrightarrow>
     length ks' = length ks
     \<and> (\<forall>j < length ks.
          ks' ! j = ks ! j
          \<or> (heldItem (ks ! j) = None
              \<and> (\<exists>it \<in> set AVAILABLE_ITEMS. ks' ! j = (ks ! j)\<lparr>heldItem := Some it\<rparr>)))"

text \<open>Three constant streams, one box at the origin with its item ready, and a kart standing on
  it that holds nothing.\<close>

definition drawsLow :: Rng where "drawsLow = (\<lambda>n. 0.1)"
definition drawsLow2 :: Rng where "drawsLow2 = (\<lambda>n. 0.2)"
definition drawsMid :: Rng where "drawsMid = (\<lambda>n. 0.5)"

definition readyBox :: ItemBox where
  "readyBox = \<lparr> box_x = 0, box_z = 0, respawnTimer = 0, box_index = 0 \<rparr>"

definition emptyHanded :: Kart where
  "emptyHanded = createServerKart ''p1'' (1, 0, 1) 0 0"


section \<open>The phases of a tick that is not frozen\<close>

text \<open>The room of a tick that is not frozen just before entry \<open>j\<close> of the physics loop: the
  bots have run (step 2) and the entries before \<open>j\<close> have moved their karts (step 3).\<close>

definition physicsStage :: "real \<Rightarrow> Rng \<Rightarrow> Room \<Rightarrow> nat \<Rightarrow> Room" where
  "physicsStage dt rng room j =
     fold (physicsStep dt) [0..<j]
       (room\<lparr>bots := fst (botsLoop dt (karts room) rng (bots room))\<rparr>)"

text \<open>Steps 4 to 10 of the tick, from the room the physics loop leaves.\<close>

definition stepsAfterPhysics :: "real \<Rightarrow> Rng \<Rightarrow> Room \<Rightarrow> Room \<times> Rng" where
  "stepsAfterPhysics dt rng1 room1 =
    (let room2 = room1\<lparr>karts := resolveKartCollisions (karts room1)\<rparr>
     in case boostPadsUpdate (boostPads room2) (karts room2) dt of
          (pads, karts3, boostEvents) \<Rightarrow>
           (let room3 = room2\<lparr>boostPads := pads, karts := karts3,
                              events := events room2 @ boostEvents\<rparr>
            in case itemBoxesUpdate rng1 (itemBoxes room3) (karts room3) dt of
                 (boxes, rng2, karts4, itemEvents) \<Rightarrow>
                  (let room4 = room3\<lparr>itemBoxes := boxes, karts := karts4,
                                     events := events room3 @ itemEvents\<rparr>;
                       room5 = activateItems room4
                   in case tntUpdate (tntSystem room5) (karts room5) dt of
                        (placed, karts6, tntEvents) \<Rightarrow>
                         (let room6 = room5\<lparr>tntSystem := placed, karts := karts6,
                                            events := events room5 @ tntEvents\<rparr>
                          in case missileUpdate (missileSystem room6) (karts room6) dt of
                               (active, karts7, missileEvents) \<Rightarrow>
                                 (clearTaps
                                    (room6\<lparr>missileSystem := active, karts := karts7,
                                           events := events room6 @ missileEvents\<rparr>),
                                  rng2)))))"

text \<open>The room as a tick begins its steps: the tick counter advanced, the race manager
  updated.\<close>

definition tickStart :: "RaceManager \<Rightarrow> Room \<Rightarrow> Room" where
  "tickStart rm0 room =
     room\<lparr>tick := tick room + 1,
          race := Some (RaceManager_update TICK_DT (syncRace (karts room) rm0))\<rparr>"

text \<open>The end of a tick: on a snapshot tick the event list is emptied.\<close>

definition tickEnd :: "Room \<Rightarrow> Room" where
  "tickEnd room = (if tick room mod SNAPSHOT_INTERVAL = 0 then room\<lparr>events := []\<rparr> else room)"

text \<open>An input with its one-frame tap flags cleared.\<close>

definition tapsCleared :: "Input \<Rightarrow> Input" where
  "tapsCleared inp = inp\<lparr>hopZTap := False, hopXTap := False, itemUseTap := False\<rparr>"

text \<open>The room one tick before \<open>go\<close> before any input has arrived, and the two input commands
  in the order sent.\<close>

definition almostGoRoom :: Room where
  "almostGoRoom =
     startedRoom\<lparr>race := map_option (\<lambda>rm. rm\<lparr>countdownTimer := 1.01, countdownValue := 1\<rparr>)
                                   (race startedRoom)\<rparr>"

definition inOrder :: "(string \<times> nat \<times> Input) list" where
  "inOrder = [(''p1'', 1, firstInput), (''p1'', 2, secondInput)]"

text \<open>The message delivered last for a player.\<close>

definition lastFor :: "string \<Rightarrow> (string \<times> nat \<times> Input) list \<Rightarrow> string \<times> nat \<times> Input" where
  "lastFor pid msgs = last (filter (\<lambda>m. fst m = pid) msgs)"


section \<open>Verification\<close>

subsection \<open>Kart-to-kart collision of one overlapping pair\<close>

lemma kartPairs_two: "kartPairs (Suc (Suc 0)) = [(0, Suc 0)]"
  by (simp add: kartPairs_def upt_rec)

lemma resolve_two: "resolveKartCollisions [a, b] = (case collidePair a b of (a', b') \<Rightarrow> [a', b'])"
  by (simp add: resolveKartCollisions_def kartPairs_two collideAt_def split: prod.splits)

lemma sqrt_window:
  assumes "0.01 < sqrt q" "sqrt q < 3"
  shows "q < 9 \<and> 0.0001 < q"
proof -
  have "sqrt q < sqrt 9" using assms(2) by simp
  then have a: "q < 9" by (simp only: real_sqrt_less_iff)
  have q: "0 < q"
  proof (rule ccontr)
    assume "\<not> 0 < q"
    then have "sqrt q \<le> 0" by simp
    with assms(1) show False by simp
  qed
  have "(0.01::real)\<^sup>2 < (sqrt q)\<^sup>2"
    using assms(1) by (intro power_strict_mono) simp_all
  then have "0.0001 < q" using q by (simp add: power2_eq_square)
  with a show ?thesis by simp
qed

lemma collidePair_hit:
  assumes "0.01 < horizDist a b" "horizDist a b < 3"
  shows "velocity_x (fst (collidePair a b)) + velocity_x (snd (collidePair a b)) = velocity_x a + velocity_x b"
    and "velocity_z (fst (collidePair a b)) + velocity_z (snd (collidePair a b)) = velocity_z a + velocity_z b"
    and "position_x (fst (collidePair a b)) + position_x (snd (collidePair a b)) = position_x a + position_x b"
    and "position_z (fst (collidePair a b)) + position_z (snd (collidePair a b)) = position_z a + position_z b"
    and "speed (fst (collidePair a b)) = speed a * 0.85"
    and "speed (snd (collidePair a b)) = speed b * 0.85"
    and "velocity_y (fst (collidePair a b)) = velocity_y a"
    and "velocity_y (snd (collidePair a b)) = velocity_y b"
  using sqrt_window[OF assms[unfolded horizDist_def]]
  by (simp_all add: collidePair_def Let_def KART_RADIUS_def BOUNCE_SLOWDOWN_def SEPARATION_FORCE_def)

text \<open>
  C10. For two karts whose horizontal centre distance \<open>d\<close> satisfies \<open>0.01 < d < 3\<close>,
  \<open>resolveKartCollisions\<close> returns two karts whose velocity sum in x and in z and whose
  position midpoint in x and in z are those of the input; each scalar speed is multiplied by
  0.85 and the vertical velocities are untouched.
\<close>

theorem resolveKartCollisions_pair_conserves:
  assumes "0.01 < horizDist a b" and "horizDist a b < 3"
  shows "\<exists>a' b'. resolveKartCollisions [a, b] = [a', b']
      \<and> velocity_x a' + velocity_x b' = velocity_x a + velocity_x b
      \<and> velocity_z a' + velocity_z b' = velocity_z a + velocity_z b
      \<and> (position_x a' + position_x b') / 2 = (position_x a + position_x b) / 2
      \<and> (position_z a' + position_z b') / 2 = (position_z a + position_z b) / 2
      \<and> speed a' = speed a * 0.85 \<and> speed b' = speed b * 0.85
      \<and> velocity_y a' = velocity_y a \<and> velocity_y b' = velocity_y b"
proof -
  obtain a' b' where p: "collidePair a b = (a', b')" by (cases "collidePair a b")
  have r: "resolveKartCollisions [a, b] = [a', b']" by (simp add: resolve_two p)
  from collidePair_hit[OF assms] p r show ?thesis by simp
qed

theorem resolveKartCollisions_pair_conserves_witness:
  "0.01 < horizDist cruisingKart (cruisingKart\<lparr>position_x := 2\<rparr>)
   \<and> horizDist cruisingKart (cruisingKart\<lparr>position_x := 2\<rparr>) < 3
   \<and> (\<exists>a' b'. resolveKartCollisions [cruisingKart, cruisingKart\<lparr>position_x := 2\<rparr>] = [a', b']
        \<and> velocity_x a' + velocity_x b' = 0 \<and> speed a' = 35 * 0.85 \<and> speed b' = 35 * 0.85)"
proof -
  have d: "horizDist cruisingKart (cruisingKart\<lparr>position_x := 2\<rparr>) = 2"
    by (simp add: horizDist_def cruisingKart_def createServerKart_def)
  have h: "0.01 < horizDist cruisingKart (cruisingKart\<lparr>position_x := 2\<rparr>)"
    "horizDist cruisingKart (cruisingKart\<lparr>position_x := 2\<rparr>) < 3"
    by (simp_all add: d)
  from resolveKartCollisions_pair_conserves[OF h] obtain a' b' where
    "resolveKartCollisions [cruisingKart, cruisingKart\<lparr>position_x := 2\<rparr>] = [a', b']"
    "velocity_x a' + velocity_x b' = velocity_x cruisingKart + velocity_x (cruisingKart\<lparr>position_x := 2\<rparr>)"
    "speed a' = speed cruisingKart * 0.85" "speed b' = speed (cruisingKart\<lparr>position_x := 2\<rparr>) * 0.85"
    by blast
  then show ?thesis using h by (simp add: cruisingKart_def createServerKart_def)
qed

subsection \<open>Speed bounds of one movement tick\<close>

lemma clamp_range: "lo \<le> hi \<Longrightarrow> lo \<le> clamp v lo hi \<and> clamp v lo hi \<le> hi"
  by (simp add: clamp_def)

lemma hopInitiation_keeps [simp]:
  "stats (hopInitiation inp k) = stats k"
  "boostSpeed (hopInitiation inp k) = boostSpeed k"
  by (simp_all add: hopInitiation_def)

lemma slideEntry_keeps [simp]:
  "stats (slideEntry inp k) = stats k"
  "boostSpeed (slideEntry inp k) = boostSpeed k"
  by (simp_all add: slideEntry_def)

lemma slideEnd_keeps [simp]:
  "stats (slideEnd inp k) = stats k"
  "boostSpeed (slideEnd inp k) = boostSpeed k"
  by (simp_all add: slideEnd_def)

lemma slideMeter_stats [simp]: "stats (slideMeter tap dt k) = stats k"
  by (simp add: slideMeter_def Let_def)

lemma boostDecay_stats [simp]: "stats (boostDecay dt k) = stats k"
  by (simp add: boostDecay_def)

lemma steering_keeps [simp]:
  "stats (steering inp dt k) = stats k"
  "boostSpeed (steering inp dt k) = boostSpeed k"
  by (simp_all add: steering_def Let_def)

lemma slideRotationOffset_keeps [simp]:
  "stats (slideRotationOffset dt k) = stats k"
  "boostSpeed (slideRotationOffset dt k) = boostSpeed k"
  by (simp_all add: slideRotationOffset_def Let_def)

lemma slideLifecycle_keeps [simp]:
  "boostSpeed (slideLifecycle inp k) = boostSpeed k"
  "stats (slideLifecycle inp k) = stats k"
  by (simp_all add: slideLifecycle_def)

lemma controlPhase_stats: "stats (controlPhase inp dt k) = stats k"
  by (simp add: controlPhase_def)

lemma slideMeter_boost_nonneg:
  assumes "0 \<le> boostSpeed k" "3 \<le> length (boostSpeeds (stats k))"
    "\<forall>b \<in> set (boostSpeeds (stats k)). 0 \<le> b"
  shows "0 \<le> boostSpeed (slideMeter tap dt k)"
proof -
  have "0 \<le> boostSpeeds (stats k) ! nat (slideBoosts k)" if "slideBoosts k < 3"
  proof -
    from that assms(2) have "nat (slideBoosts k) < length (boostSpeeds (stats k))" by simp
    then show ?thesis using assms(3) by simp
  qed
  then show ?thesis using assms(1) by (simp add: slideMeter_def Let_def)
qed

lemma boostDecay_nonneg: "0 \<le> boostSpeed k \<Longrightarrow> 0 \<le> boostSpeed (boostDecay dt k)"
  by (simp add: boostDecay_def)

lemma controlPhase_boost_nonneg:
  assumes "0 \<le> boostSpeed k" "3 \<le> length (boostSpeeds (stats k))"
    "\<forall>b \<in> set (boostSpeeds (stats k)). 0 \<le> b"
  shows "0 \<le> boostSpeed (controlPhase inp dt k)"
proof -
  let ?k3 = "slideLifecycle inp k"
  have "0 \<le> boostSpeed (slideMeter (triggerTap k inp) dt ?k3)"
    by (rule slideMeter_boost_nonneg) (simp_all add: assms)
  then have "0 \<le> boostSpeed (boostDecay dt (slideMeter (triggerTap k inp) dt ?k3))"
    by (rule boostDecay_nonneg)
  then show ?thesis
    by (simp add: controlPhase_def)
qed

lemma slopeEffect_keeps [simp]:
  "stats (slopeEffect ph fwd dt k) = stats k"
  "boostSpeed (slopeEffect ph fwd dt k) = boostSpeed k"
  "grounded (slopeEffect ph fwd dt k) = grounded k"
  by (simp_all add: slopeEffect_def Let_def)

lemma accelBrake_keeps [simp]:
  "stats (accelBrake inp off dt k) = stats k"
  "boostSpeed (accelBrake inp off dt k) = boostSpeed k"
  "grounded (accelBrake inp off dt k) = grounded k"
  by (simp_all add: accelBrake_def Let_def)

lemma frictionStep_keeps [simp]:
  "stats (frictionStep inp dt k) = stats k"
  "boostSpeed (frictionStep inp dt k) = boostSpeed k"
  "grounded (frictionStep inp dt k) = grounded k"
  by (simp_all add: frictionStep_def Let_def)

lemma offroadDrag_keeps [simp]:
  "stats (offroadDrag off dt k) = stats k"
  "boostSpeed (offroadDrag off dt k) = boostSpeed k"
  "grounded (offroadDrag off dt k) = grounded k"
  by (simp_all add: offroadDrag_def Let_def)

lemma speedLimit_keeps [simp]:
  "stats (speedLimit off k) = stats k"
  "boostSpeed (speedLimit off k) = boostSpeed k"
  "grounded (speedLimit off k) = grounded k"
  by (simp_all add: speedLimit_def Let_def)

lemma boostFloor_keeps [simp]:
  "stats (boostFloor off k) = stats k"
  "boostSpeed (boostFloor off k) = boostSpeed k"
  "grounded (boostFloor off k) = grounded k"
  by (simp_all add: boostFloor_def)

lemma maxSpd_cong: "stats k' = stats k \<Longrightarrow> maxSpd off k' = maxSpd off k"
  by (simp add: maxSpd_def)

lemma speedPhase_fields:
  "stats (speedPhase ph inp dt k) = stats k"
  "boostSpeed (speedPhase ph inp dt k) = boostSpeed k"
  "grounded (speedPhase ph inp dt k) = grounded k"
  by (simp_all add: speedPhase_def Let_def)

lemma maxSpd_nonneg: "0 \<le> maxSpeed (stats k) \<Longrightarrow> 0 \<le> maxSpd off k"
  by (simp add: maxSpd_def)

lemma limit_floor_speed:
  "speed (boostFloor off (speedLimit off k)) =
     (let c = clamp (speed k) (- maxSpd off k * 0.4) (maxSpd off k + boostSpeed k)
      in if boostSpeed k > 0 then max c (maxSpd off k + boostSpeed k * 0.8) else c)"
  by (simp add: boostFloor_def speedLimit_def Let_def maxSpd_def)

lemma limit_floor_range:
  assumes "0 \<le> maxSpeed (stats k)" "0 \<le> boostSpeed k"
  shows "- maxSpd off k * 0.4 \<le> speed (boostFloor off (speedLimit off k))
       \<and> speed (boostFloor off (speedLimit off k)) \<le> maxSpd off k + boostSpeed k"
proof -
  define T where "T = maxSpd off k"
  define B where "B = boostSpeed k"
  define c where "c = clamp (speed k) (- T * 0.4) (T + B)"
  have T: "0 \<le> T" unfolding T_def using assms(1) by (rule maxSpd_nonneg)
  have B: "0 \<le> B" unfolding B_def by (rule assms(2))
  have "- T * 0.4 \<le> T + B" using T B by simp
  from clamp_range[OF this, of "speed k"] have c: "- T * 0.4 \<le> c" "c \<le> T + B"
    by (simp_all add: c_def)
  have "speed (boostFloor off (speedLimit off k)) = (if B > 0 then max c (T + B * 0.8) else c)"
    by (simp add: limit_floor_speed Let_def T_def B_def c_def)
  moreover have "- T * 0.4 \<le> (if B > 0 then max c (T + B * 0.8) else c)"
    using c by (simp add: max_def)
  moreover have "(if B > 0 then max c (T + B * 0.8) else c) \<le> T + B"
    using c B by (simp add: max_def)
  ultimately show ?thesis by (simp add: T_def B_def)
qed


lemma shrinks_refl: "shrinks v v"
  unfolding shrinks_def by (rule exI[of _ 1]) simp

lemma shrinks_scale: "0 \<le> c \<Longrightarrow> c \<le> 1 \<Longrightarrow> shrinks (v * c) v"
  unfolding shrinks_def by (rule exI[of _ c]) simp

lemma shrinks_tenths [simp]: "shrinks (v * 7 / 10) v" "shrinks (v * 3 / 10) v"
  using shrinks_scale[of "7 / 10" v] shrinks_scale[of "3 / 10" v] by simp_all

lemma shrinks_zero: "shrinks 0 v"
  unfolding shrinks_def by (rule exI[of _ 0]) simp

lemma shrinks_trans:
  assumes "shrinks a b" "shrinks b c"
  shows "shrinks a c"
proof -
  from assms obtain p q where p: "0 \<le> p" "p \<le> 1" "a = p * b" and q: "0 \<le> q" "q \<le> 1" "b = q * c"
    unfolding shrinks_def by blast
  have "0 \<le> p * q" using p q by simp
  moreover have "p * q \<le> 1" using p q by (simp add: mult_le_one)
  moreover have "a = (p * q) * c" using p q by simp
  ultimately show ?thesis unfolding shrinks_def by blast
qed

lemma shrinks_between:
  assumes "shrinks v' v" "lo \<le> 0" "0 \<le> hi" "lo \<le> v" "v \<le> hi"
  shows "lo \<le> v' \<and> v' \<le> hi"
proof -
  from assms(1) obtain c where c: "0 \<le> c" "c \<le> 1" "v' = c * v"
    unfolding shrinks_def by blast
  show ?thesis
  proof (cases "0 \<le> v")
    case True
    then have "0 \<le> c * v" "c * v \<le> v" using c by (simp_all add: mult_left_le_one_le)
    then show ?thesis using c assms by simp
  next
    case False
    then have "v \<le> 0" by simp
    then have "c * v \<le> 0" using c by (simp add: mult_nonneg_nonpos)
    moreover have "1 * v \<le> c * v" using c \<open>v \<le> 0\<close> by (intro mult_right_mono_neg) simp_all
    ultimately show ?thesis using c assms by simp
  qed
qed

lemma shrinks_abs: "shrinks v' v \<Longrightarrow> \<bar>v'\<bar> \<le> \<bar>v\<bar>"
  unfolding shrinks_def by (auto simp: abs_mult mult_left_le_one_le)

lemma composeVelocity_keeps [simp]:
  "stats (composeVelocity inp fwd k) = stats k"
  "boostSpeed (composeVelocity inp fwd k) = boostSpeed k"
  "grounded (composeVelocity inp fwd k) = grounded k"
  "speed (composeVelocity inp fwd k) = speed k"
  by (simp_all add: composeVelocity_def Let_def)

lemma gravityStep_keeps [simp]:
  "stats (gravityStep dt k) = stats k"
  "boostSpeed (gravityStep dt k) = boostSpeed k"
  "grounded (gravityStep dt k) = grounded k"
  "speed (gravityStep dt k) = speed k"
  by (simp_all add: gravityStep_def)

lemma movePosition_keeps [simp]:
  "stats (movePosition dt k) = stats k"
  "boostSpeed (movePosition dt k) = boostSpeed k"
  "grounded (movePosition dt k) = grounded k"
  "speed (movePosition dt k) = speed k"
  by (simp_all add: movePosition_def)

lemma terrainCollision_keeps [simp]:
  "stats (terrainCollision ph px pz k) = stats k"
  "boostSpeed (terrainCollision ph px pz k) = boostSpeed k"
  "grounded (terrainCollision ph px pz k) = grounded k"
  by (simp_all add: terrainCollision_def Let_def)

lemma terrainCollision_speed: "shrinks (speed (terrainCollision ph px pz k)) (speed k)"
  by (simp add: terrainCollision_def Let_def shrinks_refl shrinks_scale)

lemma wallPush_keeps [simp]:
  "stats (wallPush gn k) = stats k"
  "boostSpeed (wallPush gn k) = boostSpeed k"
  by (simp_all add: wallPush_def Let_def split: prod.splits)

lemma wallPush_speed: "shrinks (speed (wallPush gn k)) (speed k)"
  by (simp add: wallPush_def Let_def shrinks_refl shrinks_scale split: prod.splits)

lemma landingSpeed_keeps [simp]:
  "stats (landingSpeed fwd k) = stats k"
  "boostSpeed (landingSpeed fwd k) = boostSpeed k"
  "grounded (landingSpeed fwd k) = grounded k"
  by (simp_all add: landingSpeed_def Let_def)

lemma landingSpeed_abs: "\<bar>speed (landingSpeed fwd k)\<bar> \<le> \<bar>speed k\<bar>"
  by (simp add: landingSpeed_def Let_def abs_mult)

lemma landingSpeed_abs2:
  "speed k' = speed k \<Longrightarrow> \<bar>speed (landingSpeed fwd k')\<bar> \<le> \<bar>speed k\<bar>"
  using landingSpeed_abs[of fwd k'] by simp

lemma groundCheck_keeps [simp]:
  "stats (fst (groundCheck ph fwd k)) = stats k"
  "boostSpeed (fst (groundCheck ph fwd k)) = boostSpeed k"
  by (simp_all add: groundCheck_def Let_def)

lemma groundCheck_abs: "\<bar>speed (fst (groundCheck ph fwd k))\<bar> \<le> \<bar>speed k\<bar>"
  using shrinks_abs[OF wallPush_speed]
  by (simp add: groundCheck_def Let_def landingSpeed_abs2)

lemma groundCheck_no_landing:
  "grounded k \<or> \<not> grounded (fst (groundCheck ph fwd k)) \<Longrightarrow>
   shrinks (speed (fst (groundCheck ph fwd k))) (speed k)"
  using wallPush_speed
  by (auto simp add: groundCheck_def Let_def shrinks_refl split: if_splits)

lemma obstacleStep_keeps [simp]:
  "stats (obstacleStep obs k) = stats k"
  "boostSpeed (obstacleStep obs k) = boostSpeed k"
  "grounded (obstacleStep obs k) = grounded k"
  by (simp_all add: obstacleStep_def Let_def)

lemma obstacleStep_speed: "shrinks (speed (obstacleStep obs k)) (speed k)"
  by (simp add: obstacleStep_def Let_def shrinks_refl shrinks_scale)

lemma resolveObstacleCollisions_keeps [simp]:
  "stats (resolveObstacleCollisions obss k) = stats k"
  "boostSpeed (resolveObstacleCollisions obss k) = boostSpeed k"
  "grounded (resolveObstacleCollisions obss k) = grounded k"
  unfolding resolveObstacleCollisions_def
  by (induction obss arbitrary: k) simp_all

lemma resolveObstacleCollisions_speed:
  "shrinks (speed (resolveObstacleCollisions obss k)) (speed k)"
  unfolding resolveObstacleCollisions_def
proof (induction obss arbitrary: k)
  case Nil
  show ?case by (simp add: shrinks_refl)
next
  case (Cons obs obss)
  have "shrinks (speed (fold obstacleStep obss (obstacleStep obs k))) (speed (obstacleStep obs k))"
    by (rule Cons.IH)
  then show ?case using obstacleStep_speed by (auto intro: shrinks_trans)
qed

lemma respawn_keeps [simp]:
  "stats (respawn k) = stats k"
  "grounded (respawn k) = grounded k"
  by (simp_all add: respawn_def split: option.splits prod.splits)

lemma respawn_cases:
  "(speed (respawn k) = speed k \<and> boostSpeed (respawn k) = boostSpeed k)
   \<or> (speed (respawn k) = 0 \<and> boostSpeed (respawn k) = 0)"
  by (simp add: respawn_def split: option.splits prod.splits)


lemma control_stages_grounded [simp]:
  "grounded (slideEntry inp k) = grounded k"
  "grounded (slideEnd inp k) = grounded k"
  "grounded (slideMeter tap dt k) = grounded k"
  "grounded (boostDecay dt k) = grounded k"
  "grounded (steering inp dt k) = grounded k"
  "grounded (slideRotationOffset dt k) = grounded k"
  by (simp_all add: slideRotationOffset_def steering_def boostDecay_def
      slideMeter_def slideEnd_def slideEntry_def Let_def)

lemma grounded_controlPhase: "grounded (controlPhase inp dt k) = grounded (hopInitiation inp k)"
  by (simp add: controlPhase_def slideLifecycle_def)

lemma pre_move_position [simp]:
  "position_x (gravityStep dt k) = position_x k"
  "position_z (gravityStep dt k) = position_z k"
  "position_x (composeVelocity inp fwd k) = position_x k"
  "position_z (composeVelocity inp fwd k) = position_z k"
  by (simp_all add: gravityStep_def composeVelocity_def Let_def)

lemma motionPhase_fst:
  "fst (motionPhase ph inp fwd dt k) =
     respawn (resolveObstacleCollisions (obstacles ph)
       (fst (groundCheck ph fwd
          (terrainCollision ph (position_x k) (position_z k)
             (movePosition dt (gravityStep dt (composeVelocity inp fwd k)))))))"
  by (simp add: motionPhase_def Let_def split: prod.splits)

lemma motionPhase_keeps [simp]:
  "stats (fst (motionPhase ph inp fwd dt k)) = stats k"
  by (simp add: motionPhase_fst)

lemma motionPhase_abs:
  assumes "\<bar>speed k\<bar> \<le> T + boostSpeed k" "0 \<le> T" "0 \<le> boostSpeed k"
  shows "\<bar>speed (fst (motionPhase ph inp fwd dt k))\<bar> \<le> T + boostSpeed (fst (motionPhase ph inp fwd dt k))
       \<and> 0 \<le> boostSpeed (fst (motionPhase ph inp fwd dt k))"
proof -
  let ?k1 = "movePosition dt (gravityStep dt (composeVelocity inp fwd k))"
  let ?k2 = "terrainCollision ph (position_x k) (position_z k) ?k1"
  let ?k3 = "fst (groundCheck ph fwd ?k2)"
  let ?k4 = "resolveObstacleCollisions (obstacles ph) ?k3"
  have "\<bar>speed ?k2\<bar> \<le> \<bar>speed ?k1\<bar>" by (rule shrinks_abs[OF terrainCollision_speed])
  moreover have "\<bar>speed ?k3\<bar> \<le> \<bar>speed ?k2\<bar>" by (rule groundCheck_abs)
  moreover have "\<bar>speed ?k4\<bar> \<le> \<bar>speed ?k3\<bar>" by (rule shrinks_abs[OF resolveObstacleCollisions_speed])
  moreover have "speed ?k1 = speed k" by simp
  ultimately have a: "\<bar>speed ?k4\<bar> \<le> T + boostSpeed k" using assms(1) by linarith
  have b: "boostSpeed ?k4 = boostSpeed k" by simp
  from respawn_cases[of ?k4] a b assms(2,3) show ?thesis
    unfolding motionPhase_fst by auto
qed

lemma motionPhase_grounded:
  "grounded (fst (motionPhase ph inp fwd dt k)) =
   grounded (fst (groundCheck ph fwd
          (terrainCollision ph (position_x k) (position_z k)
             (movePosition dt (gravityStep dt (composeVelocity inp fwd k))))))"
  by (simp add: motionPhase_fst)

lemma motionPhase_between:
  assumes "lo \<le> 0" "0 \<le> T" "0 \<le> boostSpeed k" "lo \<le> speed k" "speed k \<le> T + boostSpeed k"
    "grounded k \<or> \<not> grounded (fst (motionPhase ph inp fwd dt k))"
  shows "lo \<le> speed (fst (motionPhase ph inp fwd dt k))
       \<and> speed (fst (motionPhase ph inp fwd dt k)) \<le> T + boostSpeed (fst (motionPhase ph inp fwd dt k))"
proof -
  let ?k1 = "movePosition dt (gravityStep dt (composeVelocity inp fwd k))"
  let ?k2 = "terrainCollision ph (position_x k) (position_z k) ?k1"
  let ?k3 = "fst (groundCheck ph fwd ?k2)"
  let ?k4 = "resolveObstacleCollisions (obstacles ph) ?k3"
  have g: "grounded ?k2 \<or> \<not> grounded ?k3"
    using assms(6) by (simp add: motionPhase_grounded)
  have "shrinks (speed ?k2) (speed ?k1)" by (rule terrainCollision_speed)
  moreover have "shrinks (speed ?k3) (speed ?k2)" by (rule groundCheck_no_landing[OF g])
  moreover have "shrinks (speed ?k4) (speed ?k3)" by (rule resolveObstacleCollisions_speed)
  moreover have "speed ?k1 = speed k" by simp
  ultimately have "shrinks (speed ?k4) (speed k)" by (metis shrinks_trans)
  from shrinks_between[OF this assms(1) _ assms(4,5)] assms(2,3)
  have a: "lo \<le> speed ?k4" "speed ?k4 \<le> T + boostSpeed k" by simp_all
  have b: "boostSpeed ?k4 = boostSpeed k" by simp
  from respawn_cases[of ?k4] a b assms(1,2,3) show ?thesis
    unfolding motionPhase_fst by auto
qed

lemma speedPhase_range:
  assumes "0 \<le> maxSpeed (stats k)" "0 \<le> boostSpeed k"
  shows "- maxSpd (isOffroad ph k) k * 0.4 \<le> speed (speedPhase ph inp dt k)
       \<and> speed (speedPhase ph inp dt k) \<le> maxSpd (isOffroad ph k) k + boostSpeed (speedPhase ph inp dt k)"
proof -
  let ?off = "isOffroad ph k"
  let ?k = "offroadDrag ?off dt (frictionStep inp dt (accelBrake inp ?off dt (slopeEffect ph (forward k) dt k)))"
  have "0 \<le> maxSpeed (stats ?k)" "0 \<le> boostSpeed ?k" using assms by simp_all
  from limit_floor_range[OF this, of ?off] show ?thesis
    by (simp add: speedPhase_def Let_def speedPhase_fields maxSpd_def)
qed

lemma update_fst:
  "fst (KartPhysics_update ph k inp dt) =
     fst (motionPhase ph inp (forward (controlPhase inp dt k)) dt
            (speedPhase ph inp dt (controlPhase inp dt k)))"
  by (simp add: KartPhysics_update_def Let_def)

text \<open>
  C1 (amended). With a non-negative base top speed, non-negative boost speeds in the stats
  and a non-negative current boost: right after the speed limit and the boost floor the
  scalar speed lies in \<open>[-0.4 \<times> top, top + boost]\<close>, for every input; at the end of the tick
  its magnitude is at most \<open>top + boost\<close>, and it lies in \<open>[-0.4 \<times> top, top + boost]\<close> unless
  the kart lands on this tick. The boost stays non-negative and the stats are unchanged, so
  the hypotheses hold again for the next tick.
\<close>

theorem speed_clamp_tick:
  assumes "0 \<le> maxSpeed (stats k)" and "0 \<le> boostSpeed k"
    and "3 \<le> length (boostSpeeds (stats k))" and "\<forall>b \<in> set (boostSpeeds (stats k)). 0 \<le> b"
  shows "(- 0.4 * tickTopSpeed ph k inp dt \<le> speed (speedPhase ph inp dt (controlPhase inp dt k))
        \<and> speed (speedPhase ph inp dt (controlPhase inp dt k))
            \<le> tickTopSpeed ph k inp dt + boostSpeed (speedPhase ph inp dt (controlPhase inp dt k)))
      \<and> \<bar>speed (fst (KartPhysics_update ph k inp dt))\<bar>
            \<le> tickTopSpeed ph k inp dt + boostSpeed (fst (KartPhysics_update ph k inp dt))
      \<and> (\<not> landsThisTick ph k inp dt \<longrightarrow>
            - 0.4 * tickTopSpeed ph k inp dt \<le> speed (fst (KartPhysics_update ph k inp dt))
          \<and> speed (fst (KartPhysics_update ph k inp dt))
              \<le> tickTopSpeed ph k inp dt + boostSpeed (fst (KartPhysics_update ph k inp dt)))
      \<and> 0 \<le> boostSpeed (fst (KartPhysics_update ph k inp dt))
      \<and> stats (fst (KartPhysics_update ph k inp dt)) = stats k"
proof -
  let ?kc = "controlPhase inp dt k"
  let ?km = "speedPhase ph inp dt ?kc"
  let ?T = "tickTopSpeed ph k inp dt"
  let ?k' = "fst (KartPhysics_update ph k inp dt)"
  have st: "stats ?kc = stats k" by (rule controlPhase_stats)
  have T_eq: "maxSpd (isOffroad ph ?kc) ?kc = ?T"
    by (simp add: tickTopSpeed_def maxSpd_def st)
  have T0: "0 \<le> ?T" unfolding tickTopSpeed_def using assms(1) by (rule maxSpd_nonneg)
  have bc: "0 \<le> boostSpeed ?kc" using assms(2,3,4) by (rule controlPhase_boost_nonneg)
  have bm: "boostSpeed ?km = boostSpeed ?kc" by (simp add: speedPhase_fields)
  have "0 \<le> maxSpeed (stats ?kc)" using assms(1) st by simp
  from speedPhase_range[OF this bc, of ph inp dt]
  have mid: "- 0.4 * ?T \<le> speed ?km" "speed ?km \<le> ?T + boostSpeed ?km"
    by (simp_all add: T_eq)
  have bm0: "0 \<le> boostSpeed ?km" using bc bm by simp
  have "\<bar>speed ?km\<bar> \<le> ?T + boostSpeed ?km" using mid T0 bm0 by (simp add: abs_le_iff)
  from motionPhase_abs[OF this T0 bm0, of ph inp "forward ?kc" dt]
  have fin: "\<bar>speed ?k'\<bar> \<le> ?T + boostSpeed ?k'" "0 \<le> boostSpeed ?k'"
    by (simp_all add: update_fst)
  have low: "- 0.4 * ?T \<le> speed ?k' \<and> speed ?k' \<le> ?T + boostSpeed ?k'"
    if nl: "\<not> landsThisTick ph k inp dt"
  proof -
    have g: "grounded ?km \<or> \<not> grounded (fst (motionPhase ph inp (forward ?kc) dt ?km))"
      using nl by (simp add: landsThisTick_def update_fst speedPhase_fields grounded_controlPhase)
    have lo: "- 0.4 * ?T \<le> 0" using T0 by simp
    from motionPhase_between[OF lo T0 bm0 mid g] show ?thesis by (simp add: update_fst)
  qed
  have "stats ?k' = stats k" by (simp add: update_fst speedPhase_fields st)
  with mid fin low show ?thesis by blast
qed

theorem speed_clamp_tick_witness:
  "0 \<le> maxSpeed (stats cruisingKart) \<and> 0 \<le> boostSpeed cruisingKart
   \<and> boostSpeeds (stats cruisingKart) = [10, 15, 20]
   \<and> \<not> landsThisTick flatWorld cruisingKart fullThrottle (1/60)
   \<and> - 0.4 * tickTopSpeed flatWorld cruisingKart fullThrottle (1/60)
        \<le> speed (fst (KartPhysics_update flatWorld cruisingKart fullThrottle (1/60)))
   \<and> speed (fst (KartPhysics_update flatWorld cruisingKart fullThrottle (1/60)))
        \<le> tickTopSpeed flatWorld cruisingKart fullThrottle (1/60)
           + boostSpeed (fst (KartPhysics_update flatWorld cruisingKart fullThrottle (1/60)))"
proof -
  have h: "0 \<le> maxSpeed (stats cruisingKart)" "0 \<le> boostSpeed cruisingKart"
    "3 \<le> length (boostSpeeds (stats cruisingKart))"
    "\<forall>b \<in> set (boostSpeeds (stats cruisingKart)). 0 \<le> b"
    by (simp_all add: cruisingKart_def createServerKart_def KART_DEFAULTS_def)
  have g: "grounded (hopInitiation fullThrottle cruisingKart)"
    by (simp add: hopInitiation_def fullThrottle_def noInput_def cruisingKart_def
        createServerKart_def)
  then have nl: "\<not> landsThisTick flatWorld cruisingKart fullThrottle (1/60)"
    by (simp add: landsThisTick_def)
  have b: "boostSpeeds (stats cruisingKart) = [10, 15, 20]"
    by (simp add: cruisingKart_def createServerKart_def KART_DEFAULTS_def)
  from speed_clamp_tick[OF h, of flatWorld fullThrottle "1/60"] nl h b show ?thesis by blast
qed

text \<open>The end-of-tick interval fails for a kart that lands while its retained velocity points
  against its heading: the landing projection gives it a reverse speed of magnitude 448/15,
  below \<open>-0.4 \<times> 35 = -14\<close>.\<close>

lemma bumped_control: "controlPhase noInput (1/60) bumpedKart = bumpedKart"
proof -
  have 1: "hopInitiation noInput bumpedKart = bumpedKart"
    by (simp add: hopInitiation_def noInput_def)
  have 2: "slideEntry noInput bumpedKart = bumpedKart"
    by (simp add: slideEntry_def bumpedKart_def createServerKart_def)
  have 3: "slideEnd noInput bumpedKart = bumpedKart"
    by (simp add: slideEnd_def bumpedKart_def createServerKart_def)
  have 4: "slideMeter (triggerTap bumpedKart noInput) (1/60) bumpedKart = bumpedKart"
    by (simp add: slideMeter_def bumpedKart_def createServerKart_def)
  have 5: "boostDecay (1/60) bumpedKart = bumpedKart"
    by (simp add: boostDecay_def bumpedKart_def createServerKart_def)
  have 6: "steering noInput (1/60) bumpedKart = bumpedKart"
    by (simp add: steering_def bumpedKart_def createServerKart_def noInput_def Let_def)
  have 7: "slideRotationOffset (1/60) bumpedKart = bumpedKart"
    by (simp add: slideRotationOffset_def bumpedKart_def createServerKart_def Let_def)
  show ?thesis by (simp add: controlPhase_def slideLifecycle_def 1 2 3 4 5 6 7)
qed

lemma bumped_forward: "forward bumpedKart = (0, -1)"
  by (simp add: forward_def bumpedKart_def createServerKart_def)

lemma bumped_speedPhase:
  "speedPhase flatWorld noInput (1/60) bumpedKart = bumpedKart\<lparr>speed := 448/15\<rparr>"
proof -
  have off: "isOffroad flatWorld bumpedKart = False"
    by (simp add: isOffroad_def bumpedKart_def createServerKart_def)
  have 1: "slopeEffect flatWorld (forward bumpedKart) (1/60) bumpedKart = bumpedKart"
    by (simp add: slopeEffect_def bumpedKart_def createServerKart_def)
  have 2: "accelBrake noInput False (1/60) bumpedKart = bumpedKart"
    by (simp add: accelBrake_def noInput_def)
  have 3: "frictionStep noInput (1/60) bumpedKart = bumpedKart\<lparr>speed := 448/15\<rparr>"
    by (simp add: frictionStep_def noInput_def bumpedKart_def createServerKart_def
        KART_DEFAULTS_def)
  have 4: "offroadDrag False (1/60) (bumpedKart\<lparr>speed := 448/15\<rparr>)
         = bumpedKart\<lparr>speed := 448/15\<rparr>"
    by (simp add: offroadDrag_def)
  have 5: "speedLimit False (bumpedKart\<lparr>speed := 448/15\<rparr>) = bumpedKart\<lparr>speed := 448/15\<rparr>"
    by (simp add: speedLimit_def maxSpd_def clamp_def bumpedKart_def createServerKart_def
        KART_DEFAULTS_def)
  have 6: "boostFloor False (bumpedKart\<lparr>speed := 448/15\<rparr>) = bumpedKart\<lparr>speed := 448/15\<rparr>"
    by (simp add: boostFloor_def bumpedKart_def createServerKart_def)
  show ?thesis by (simp add: speedPhase_def off 1 2 3 4 5 6)
qed

lemma bumped_motionPhase:
  "fst (motionPhase flatWorld noInput (0, -1) (1/60) (bumpedKart\<lparr>speed := 448/15\<rparr>)) =
     bumpedKart\<lparr>speed := - 448/15, velocity_y := 0, position_y := 0.02, position_z := 0.5,
                grounded := True\<rparr>"
proof -
  let ?k1 = "bumpedKart\<lparr>speed := 448/15\<rparr>"
  have 1: "composeVelocity noInput (0, -1) ?k1 = ?k1"
    by (simp add: composeVelocity_def bumpedKart_def createServerKart_def Let_def)
  have 2: "gravityStep (1/60) ?k1 = ?k1\<lparr>velocity_y := - 5 / 12\<rparr>"
    by (simp add: gravityStep_def bumpedKart_def createServerKart_def GRAVITY_def)
  have 3: "movePosition (1/60) (?k1\<lparr>velocity_y := - 5 / 12\<rparr>)
         = ?k1\<lparr>velocity_y := - 5 / 12, position_y := 211 / 720, position_z := 1 / 2\<rparr>"
    by (simp add: movePosition_def bumpedKart_def createServerKart_def)
  let ?k3 = "?k1\<lparr>velocity_y := - 5 / 12, position_y := 211 / 720, position_z := 1 / 2\<rparr>"
  have 4: "terrainCollision flatWorld 0 0 ?k3 = ?k3"
    by (simp add: terrainCollision_def flatWorld_def KartPhysics_new_def noTrack_def)
  let ?k5 = "bumpedKart\<lparr>speed := - 448/15, velocity_y := 0, position_y := 0.02,
                        position_z := 0.5, grounded := True\<rparr>"
  have 5: "fst (groundCheck flatWorld (0, -1) ?k3) = ?k5"
    by (simp add: groundCheck_def landingSpeed_def flatWorld_def KartPhysics_new_def noTrack_def
        Let_def bumpedKart_def createServerKart_def GROUND_SNAP_def MAX_DRIVEABLE_SLOPE_def)
  have 6: "resolveObstacleCollisions (obstacles flatWorld) ?k5 = ?k5"
    by (simp add: resolveObstacleCollisions_def flatWorld_def KartPhysics_new_def)
  have 7: "respawn ?k5 = ?k5" by (simp add: respawn_def)
  have p: "position_x ?k1 = 0" "position_z ?k1 = 0"
    by (simp_all add: bumpedKart_def createServerKart_def)
  show ?thesis by (simp only: motionPhase_fst 1 2 3 4 5 6 7 p)
qed

lemma bumped_topSpeed: "tickTopSpeed flatWorld bumpedKart noInput (1/60) = 35"
  unfolding tickTopSpeed_def bumped_control
  by (simp add: isOffroad_def maxSpd_def bumpedKart_def createServerKart_def KART_DEFAULTS_def)

lemma bumped_update_speed:
  "speed (fst (KartPhysics_update flatWorld bumpedKart noInput (1/60))) = - 448 / 15"
  by (simp add: KartPhysics_update_def bumped_control bumped_forward bumped_speedPhase
      bumped_motionPhase)

theorem speed_clamp_end_of_tick_counterexample:
  "0 \<le> maxSpeed (stats bumpedKart) \<and> boostSpeed bumpedKart = 0
   \<and> boostSpeed (fst (KartPhysics_update flatWorld bumpedKart noInput (1/60))) = 0
   \<and> \<not> (- 0.4 * tickTopSpeed flatWorld bumpedKart noInput (1/60)
          \<le> speed (fst (KartPhysics_update flatWorld bumpedKart noInput (1/60))))"
proof -
  have "boostSpeed (fst (KartPhysics_update flatWorld bumpedKart noInput (1/60))) = 0"
    by (simp add: KartPhysics_update_def bumped_control bumped_forward bumped_speedPhase
      bumped_motionPhase) (simp add: bumpedKart_def createServerKart_def)
  then show ?thesis
    by (simp add: bumped_topSpeed bumped_update_speed)
       (simp add: bumpedKart_def createServerKart_def KART_DEFAULTS_def)
qed

subsection \<open>Slide charge within one power-slide\<close>

lemma late_stages_slide [simp]:
  "slideActive (boostDecay dt k) = slideActive k"
  "slideBoosts (boostDecay dt k) = slideBoosts k"
  "slideActive (steering inp dt k) = slideActive k"
  "slideBoosts (steering inp dt k) = slideBoosts k"
  "slideActive (slideRotationOffset dt k) = slideActive k"
  "slideBoosts (slideRotationOffset dt k) = slideBoosts k"
  by (simp_all add: boostDecay_def steering_def slideRotationOffset_def Let_def)

lemma speed_stages_slide [simp]:
  "slideActive (slopeEffect ph fwd dt k) = slideActive k"
  "slideBoosts (slopeEffect ph fwd dt k) = slideBoosts k"
  "slideActive (accelBrake inp off dt k) = slideActive k"
  "slideBoosts (accelBrake inp off dt k) = slideBoosts k"
  "slideActive (frictionStep inp dt k) = slideActive k"
  "slideBoosts (frictionStep inp dt k) = slideBoosts k"
  "slideActive (offroadDrag off dt k) = slideActive k"
  "slideBoosts (offroadDrag off dt k) = slideBoosts k"
  "slideActive (speedLimit off k) = slideActive k"
  "slideBoosts (speedLimit off k) = slideBoosts k"
  "slideActive (boostFloor off k) = slideActive k"
  "slideBoosts (boostFloor off k) = slideBoosts k"
  by (simp_all add: slopeEffect_def accelBrake_def frictionStep_def offroadDrag_def
      speedLimit_def boostFloor_def Let_def)

lemma speedPhase_slide [simp]:
  "slideActive (speedPhase ph inp dt k) = slideActive k"
  "slideBoosts (speedPhase ph inp dt k) = slideBoosts k"
  by (simp_all add: speedPhase_def Let_def)

lemma motion_stages_slide [simp]:
  "slideActive (composeVelocity inp fwd k) = slideActive k"
  "slideBoosts (composeVelocity inp fwd k) = slideBoosts k"
  "slideActive (gravityStep dt k) = slideActive k"
  "slideBoosts (gravityStep dt k) = slideBoosts k"
  "slideActive (movePosition dt k) = slideActive k"
  "slideBoosts (movePosition dt k) = slideBoosts k"
  "slideActive (terrainCollision ph px pz k) = slideActive k"
  "slideBoosts (terrainCollision ph px pz k) = slideBoosts k"
  "slideActive (obstacleStep obs k) = slideActive k"
  "slideBoosts (obstacleStep obs k) = slideBoosts k"
  by (simp_all add: composeVelocity_def gravityStep_def movePosition_def terrainCollision_def
      obstacleStep_def Let_def)

lemma wallPush_slide [simp]:
  "slideActive (wallPush gn k) = slideActive k"
  "slideBoosts (wallPush gn k) = slideBoosts k"
  by (simp_all add: wallPush_def Let_def split: prod.splits)

lemma landingSpeed_slide [simp]:
  "slideActive (landingSpeed fwd k) = slideActive k"
  "slideBoosts (landingSpeed fwd k) = slideBoosts k"
  by (simp_all add: landingSpeed_def Let_def)

lemma groundCheck_slide [simp]:
  "slideActive (fst (groundCheck ph fwd k)) = slideActive k"
  "slideBoosts (fst (groundCheck ph fwd k)) = slideBoosts k"
  by (simp_all add: groundCheck_def Let_def)

lemma obstacles_slide [simp]:
  "slideActive (resolveObstacleCollisions obss k) = slideActive k"
  "slideBoosts (resolveObstacleCollisions obss k) = slideBoosts k"
  unfolding resolveObstacleCollisions_def
  by (induction obss arbitrary: k) simp_all

lemma respawn_slide:
  "slideActive (respawn k) \<Longrightarrow> slideActive k \<and> slideBoosts (respawn k) = slideBoosts k"
  by (simp add: respawn_def split: if_splits option.splits prod.splits)

lemma motionPhase_slide:
  assumes "slideActive (fst (motionPhase ph inp fwd dt k))"
  shows "slideActive k \<and> slideBoosts (fst (motionPhase ph inp fwd dt k)) = slideBoosts k"
  using respawn_slide[OF assms[unfolded motionPhase_fst]]
  by (simp add: motionPhase_fst)

lemma slideMeter_active [simp]: "slideActive (slideMeter tap dt k) = slideActive k"
  by (simp add: slideMeter_def Let_def)

text \<open>The kart slides at the end of the tick only if it slid through the whole charge step,
  and then the charge at the end is the one the meter step left.\<close>

lemma update_slide:
  assumes "slideActive (fst (KartPhysics_update ph k inp dt))"
  shows "slideActive (slideLifecycle inp k)
       \<and> slideBoosts (fst (KartPhysics_update ph k inp dt))
           = slideBoosts (slideMeter (triggerTap k inp) dt (slideLifecycle inp k))"
  using motionPhase_slide[OF assms[unfolded update_fst]]
  by (simp add: update_fst controlPhase_def)

lemma slideLifecycle_active:
  assumes "slideActive (slideLifecycle inp k)"
  shows "slideBoosts (slideLifecycle inp k) = slideBoosts k"
    and "slideButton (slideLifecycle inp k) = slideButton k"
    and "stats (slideLifecycle inp k) = stats k"
  using assms
  by (auto simp add: slideLifecycle_def slideEnd_def slideEntry_def hopInitiation_def
      split: if_splits)

lemma sweet_spot_below_one:
  assumes "0 \<le> slideBoosts k" "slideBoosts k < 3" "inSweetSpot dt k"
  shows "meterFill dt k \<le> 1"
proof -
  from assms(1,2) have "slideBoosts k = 0 \<or> slideBoosts k = 1 \<or> slideBoosts k = 2" by arith
  then show ?thesis using assms(3)
    by (auto simp add: inSweetSpot_def SWEET_SPOTS_def)
qed

lemma slideMeter_charge:
  assumes "slideActive k"
  shows "slideBoosts (slideMeter tap dt k) =
     (if 0 \<le> slideBoosts k \<and> slideBoosts k < 3 then
        (if tap \<and> inSweetSpot dt k then slideBoosts k + 1
         else if tap \<or> meterFill dt k > 1 then - 1
         else slideBoosts k)
      else slideBoosts k)"
  using assms sweet_spot_below_one[of k dt]
  by (auto simp add: slideMeter_def Let_def)


text \<open>
  C3. In a tick at whose end the kart is sliding (so the slide was neither ended nor reset on
  this tick), with a positive meter duration: the charge count goes up by one exactly when it
  is 0, 1 or 2, the other hop button is tapped and the meter fraction lies in the sweet-spot
  window of the current charge; a tap outside the window, or a fraction above 1, sets it to
  \<open>-1\<close>; it never changes in any other way; and \<open>-1\<close> stays \<open>-1\<close>.
\<close>

theorem slide_charge_step:
  assumes "slideActive (fst (KartPhysics_update ph k inp dt))"
    and "0 < slideMeterDuration (stats k)"
  shows "(slideBoosts (fst (KartPhysics_update ph k inp dt)) = slideBoosts k + 1 \<longleftrightarrow>
            0 \<le> slideBoosts k \<and> slideBoosts k < 3 \<and> triggerTap k inp
            \<and> inSweetSpot dt (slideLifecycle inp k))
       \<and> (0 \<le> slideBoosts k \<and> slideBoosts k < 3
            \<and> (triggerTap k inp \<and> \<not> inSweetSpot dt (slideLifecycle inp k)
                \<or> meterFill dt (slideLifecycle inp k) > 1)
            \<longrightarrow> slideBoosts (fst (KartPhysics_update ph k inp dt)) = - 1)
       \<and> (slideBoosts (fst (KartPhysics_update ph k inp dt)) = slideBoosts k
            \<or> slideBoosts (fst (KartPhysics_update ph k inp dt)) = slideBoosts k + 1
            \<or> slideBoosts (fst (KartPhysics_update ph k inp dt)) = - 1)
       \<and> (slideBoosts k = - 1 \<longrightarrow> slideBoosts (fst (KartPhysics_update ph k inp dt)) = - 1)
       \<and> (0 \<le> slideBoosts k \<and> slideBoosts k \<le> 3 \<longrightarrow>
            - 1 \<le> slideBoosts (fst (KartPhysics_update ph k inp dt))
            \<and> slideBoosts (fst (KartPhysics_update ph k inp dt)) \<le> 3)"
proof -
  let ?ks = "slideLifecycle inp k"
  from update_slide[OF assms(1)] have act: "slideActive ?ks"
    and fin: "slideBoosts (fst (KartPhysics_update ph k inp dt))
              = slideBoosts (slideMeter (triggerTap k inp) dt ?ks)"
    by simp_all
  have b: "slideBoosts ?ks = slideBoosts k" by (rule slideLifecycle_active(1)[OF act])
  have below: "meterFill dt ?ks \<le> 1"
    if "0 \<le> slideBoosts k" "slideBoosts k < 3" "inSweetSpot dt ?ks"
    using sweet_spot_below_one[of ?ks dt] that b by simp
  show ?thesis
    unfolding fin slideMeter_charge[OF act] b using below by auto
qed

lemma runTicks_locked:
  assumes "\<forall>s \<in> set (runTicks ph k ticks). slideActive s" and "slideBoosts k = - 1"
  shows "\<forall>s \<in> set (runTicks ph k ticks). slideBoosts s = - 1"
  using assms
proof (induction ticks arbitrary: ph k)
  case Nil
  show ?case by simp
next
  case (Cons t ticks)
  obtain inp dt where t: "t = (inp, dt)" by (cases t)
  obtain k' ph' where u: "KartPhysics_update ph k inp dt = (k', ph')"
    by (cases "KartPhysics_update ph k inp dt")
  from Cons.prems(1) have act: "slideActive (fst (KartPhysics_update ph k inp dt))"
    and rest: "\<forall>s \<in> set (runTicks ph' k' ticks). slideActive s"
    by (simp_all add: t u)
  from update_slide[OF act] have a: "slideActive (slideLifecycle inp k)"
    and f: "slideBoosts k' = slideBoosts (slideMeter (triggerTap k inp) dt (slideLifecycle inp k))"
    by (simp_all add: u)
  have "slideBoosts k' = - 1"
    unfolding f slideMeter_charge[OF a] slideLifecycle_active(1)[OF a]
    using Cons.prems(2) by simp
  with Cons.IH[OF rest] show ?case by (simp add: t u)
qed

text \<open>On the flat, obstacle-free world a grounded kart that keeps its slide button held goes
  on sliding: nothing ends the slide and the kart does not fall below the respawn floor.\<close>

lemma control_stages_height [simp]:
  "position_y (slideMeter tap dt k) = position_y k"
  "position_y (boostDecay dt k) = position_y k"
  "position_y (steering inp dt k) = position_y k"
  "position_y (slideRotationOffset dt k) = position_y k"
  by (simp_all add: slideMeter_def boostDecay_def steering_def slideRotationOffset_def Let_def)

lemma speed_stages_height [simp]:
  "position_y (slopeEffect ph fwd dt k) = position_y k"
  "position_y (accelBrake inp off dt k) = position_y k"
  "position_y (frictionStep inp dt k) = position_y k"
  "position_y (offroadDrag off dt k) = position_y k"
  "position_y (speedLimit off k) = position_y k"
  "position_y (boostFloor off k) = position_y k"
  by (simp_all add: slopeEffect_def accelBrake_def frictionStep_def offroadDrag_def
      speedLimit_def boostFloor_def Let_def)

lemma speedPhase_height [simp]: "position_y (speedPhase ph inp dt k) = position_y k"
  by (simp add: speedPhase_def Let_def)

lemma motion_stages_height [simp]:
  "position_y (composeVelocity inp fwd k) = position_y k"
  "position_y (gravityStep dt k) = position_y k"
  "position_y (terrainCollision ph px pz k) = position_y k"
  by (simp_all add: composeVelocity_def gravityStep_def terrainCollision_def Let_def)

lemma grounded_move_height:
  "grounded k \<Longrightarrow> position_y (movePosition dt (gravityStep dt k)) = position_y k"
  by (simp add: movePosition_def gravityStep_def)

lemma landingSpeed_height [simp]: "position_y (landingSpeed fwd k) = position_y k"
  by (simp add: landingSpeed_def Let_def)

lemma groundCheck_flat_height:
  "position_y k = 0.02 \<Longrightarrow> position_y (fst (groundCheck flatWorld fwd k)) = 0.02"
  by (simp add: groundCheck_def flatWorld_def KartPhysics_new_def noTrack_def Let_def
      GROUND_SNAP_def MAX_DRIVEABLE_SLOPE_def)

lemma slideLifecycle_held:
  "slideActive k \<Longrightarrow> slideHeld inp k \<Longrightarrow> slideLifecycle inp k = k"
  by (simp add: slideLifecycle_def hopInitiation_def slideEntry_def slideEnd_def slideHeld_def)

lemma slide_continues_flat:
  assumes "slideActive k" "slideHeld inp k" "grounded k" "position_y k = 0.02"
  shows "slideActive (fst (KartPhysics_update flatWorld k inp dt))"
proof -
  let ?kc = "controlPhase inp dt k"
  let ?km = "speedPhase flatWorld inp dt ?kc"
  let ?fwd = "forward ?kc"
  let ?k1 = "movePosition dt (gravityStep dt (composeVelocity inp ?fwd ?km))"
  let ?k2 = "terrainCollision flatWorld (position_x ?km) (position_z ?km) ?k1"
  let ?k4 = "resolveObstacleCollisions (obstacles flatWorld) (fst (groundCheck flatWorld ?fwd ?k2))"
  have lc: "slideLifecycle inp k = k" using assms(1,2) by (rule slideLifecycle_held)
  have c: "slideActive ?kc" "grounded ?kc" "position_y ?kc = 0.02"
    using assms by (simp_all add: controlPhase_def lc)
  then have m: "slideActive ?km" "grounded ?km" "position_y ?km = 0.02"
    by (simp_all add: speedPhase_fields)
  have "position_y ?k1 = 0.02" using m by (simp add: grounded_move_height)
  then have "position_y ?k2 = 0.02" by simp
  then have "position_y (fst (groundCheck flatWorld ?fwd ?k2)) = 0.02"
    by (rule groundCheck_flat_height)
  moreover have "obstacles flatWorld = []" by (simp add: flatWorld_def KartPhysics_new_def)
  ultimately have y: "position_y ?k4 = 0.02"
    by (simp add: resolveObstacleCollisions_def)
  have a: "slideActive ?k4" using m by simp
  have "respawn ?k4 = ?k4" using y by (simp add: respawn_def)
  with a show ?thesis by (simp add: update_fst motionPhase_fst)
qed

lemma slidingKart_facts:
  "slideActive (slidingKart\<lparr>slideTimer := t, slideBoosts := b\<rparr>)"
  "slideHeld tapOther (slidingKart\<lparr>slideTimer := t, slideBoosts := b\<rparr>)"
  "grounded (slidingKart\<lparr>slideTimer := t, slideBoosts := b\<rparr>)"
  "position_y (slidingKart\<lparr>slideTimer := t, slideBoosts := b\<rparr>) = 0.02"
  "triggerTap (slidingKart\<lparr>slideTimer := t, slideBoosts := b\<rparr>) tapOther"
  "0 < slideMeterDuration (stats (slidingKart\<lparr>slideTimer := t, slideBoosts := b\<rparr>))"
  "slideBoosts (slidingKart\<lparr>slideTimer := t, slideBoosts := b\<rparr>) = b"
  by (simp_all add: slidingKart_def cruisingKart_def createServerKart_def tapOther_def
      noInput_def slideHeld_def triggerTap_def KART_DEFAULTS_def)

lemma slidingKart_fill:
  "meterFill (1/100) (slidingKart\<lparr>slideTimer := t, slideBoosts := b\<rparr>) = (t + 1/100) / (3/2)"
  by (simp add: meterFill_def slidingKart_def cruisingKart_def createServerKart_def
      KART_DEFAULTS_def)

text \<open>The theorem at three ticks of the sliding kart, the other button tapped in each: 0.9 s
  into the meter at charge 0 (fraction 0.6067, inside the first window: the charge becomes 1),
  0.1 s into the meter at charge 1 (fraction 0.0733, outside: the charge becomes \<open>-1\<close>), and
  at charge \<open>-1\<close> (it stays \<open>-1\<close>).\<close>

theorem slide_charge_step_witness:
  "slideActive (fst (KartPhysics_update flatWorld
      (slidingKart\<lparr>slideTimer := 0.9, slideBoosts := 0\<rparr>) tapOther (1/100)))
   \<and> slideBoosts (fst (KartPhysics_update flatWorld
      (slidingKart\<lparr>slideTimer := 0.9, slideBoosts := 0\<rparr>) tapOther (1/100))) = 1
   \<and> slideActive (fst (KartPhysics_update flatWorld
      (slidingKart\<lparr>slideTimer := 0.1, slideBoosts := 1\<rparr>) tapOther (1/100)))
   \<and> slideBoosts (fst (KartPhysics_update flatWorld
      (slidingKart\<lparr>slideTimer := 0.1, slideBoosts := 1\<rparr>) tapOther (1/100))) = - 1
   \<and> slideActive (fst (KartPhysics_update flatWorld
      (slidingKart\<lparr>slideTimer := 0.1, slideBoosts := - 1\<rparr>) tapOther (1/100)))
   \<and> slideBoosts (fst (KartPhysics_update flatWorld
      (slidingKart\<lparr>slideTimer := 0.1, slideBoosts := - 1\<rparr>) tapOther (1/100))) = - 1"
proof -
  let ?hit = "slidingKart\<lparr>slideTimer := 0.9, slideBoosts := 0\<rparr>"
  let ?miss = "slidingKart\<lparr>slideTimer := 0.1, slideBoosts := 1\<rparr>"
  let ?locked = "slidingKart\<lparr>slideTimer := 0.1, slideBoosts := - 1\<rparr>"
  have a1: "slideActive (fst (KartPhysics_update flatWorld ?hit tapOther (1/100)))"
    by (rule slide_continues_flat) (rule slidingKart_facts)+
  have a2: "slideActive (fst (KartPhysics_update flatWorld ?miss tapOther (1/100)))"
    by (rule slide_continues_flat) (rule slidingKart_facts)+
  have a3: "slideActive (fst (KartPhysics_update flatWorld ?locked tapOther (1/100)))"
    by (rule slide_continues_flat) (rule slidingKart_facts)+
  have l1: "slideLifecycle tapOther ?hit = ?hit"
    by (rule slideLifecycle_held) (rule slidingKart_facts)+
  have l2: "slideLifecycle tapOther ?miss = ?miss"
    by (rule slideLifecycle_held) (rule slidingKart_facts)+
  have in1: "inSweetSpot (1/100) ?hit"
    by (simp add: inSweetSpot_def slidingKart_fill slidingKart_facts SWEET_SPOTS_def)
  have out2: "\<not> inSweetSpot (1/100) ?miss"
    by (simp add: inSweetSpot_def slidingKart_fill slidingKart_facts SWEET_SPOTS_def)
  from slide_charge_step[OF a1 slidingKart_facts(6)] in1
  have "slideBoosts (fst (KartPhysics_update flatWorld ?hit tapOther (1/100))) = 1"
    by (simp add: l1 slidingKart_facts)
  moreover from slide_charge_step[OF a2 slidingKart_facts(6)] out2
  have "slideBoosts (fst (KartPhysics_update flatWorld ?miss tapOther (1/100))) = - 1"
    by (simp add: l2 slidingKart_facts)
  moreover from slide_charge_step[OF a3 slidingKart_facts(6)]
  have "slideBoosts (fst (KartPhysics_update flatWorld ?locked tapOther (1/100))) = - 1"
    by (simp add: slidingKart_facts)
  ultimately show ?thesis using a1 a2 a3 by blast
qed

subsection \<open>Finishing only at a valid finish-line crossing\<close>

lemma countdownStep_keeps [simp]:
  "checkpoints (countdownStep dt rm) = checkpoints rm"
  "finishLine (countdownStep dt rm) = finishLine rm"
  "totalLaps (countdownStep dt rm) = totalLaps rm"
  "racers (countdownStep dt rm) = racers rm"
  by (simp_all add: countdownStep_def Let_def)

lemma minCPs_countdown [simp]: "minCPs (countdownStep dt rm) = minCPs rm"
  by (simp add: minCPs_def)

lemma curSide_countdown [simp]: "curSide (countdownStep dt rm) r = curSide rm r"
  by (simp add: curSide_def)

lemma crossesLine_countdown [simp]:
  "crossesLine (countdownStep dt rm) m fl r = crossesLine rm m fl r"
  by (simp add: crossesLine_def)

lemma advanceCheckpoints_keeps [simp]:
  "finished (advanceCheckpoints cps r) = finished r"
  "lap (advanceCheckpoints cps r) = lap r"
  "prevSide (advanceCheckpoints cps r) = prevSide r"
  "kart (advanceCheckpoints cps r) = kart r"
  by (simp_all add: advanceCheckpoints_def Let_def)

lemma curSide_advance [simp]: "curSide rm (advanceCheckpoints cps r) = curSide rm r"
  by (simp add: curSide_def)

lemma latDist_advance [simp]: "latDist fl (advanceCheckpoints cps r) = latDist fl r"
  by (simp add: latDist_def)

lemma wrongWayStep_keeps [simp]:
  "finished (wrongWayStep cps r) = finished r"
  "lap (wrongWayStep cps r) = lap r"
  by (simp_all add: wrongWayStep_def Let_def)

lemma finishCrossing_finished:
  "finished (finishCrossing rm m r) \<longleftrightarrow>
     finished r \<or> (\<exists>fl. finishLine rm = Some fl \<and> crossesLine rm m fl r
                         \<and> lap r + 1 > totalLaps rm)"
  by (simp add: finishCrossing_def Let_def split: option.splits)

lemma finishCrossing_lap:
  "finishLine rm = Some fl \<Longrightarrow> crossesLine rm m fl r \<Longrightarrow> lap r + 1 > totalLaps rm \<Longrightarrow>
   lap (finishCrossing rm m r) = totalLaps rm"
  by (simp add: finishCrossing_def Let_def)

lemma updateRacer_finished:
  "finished (updateRacer rm r) \<longleftrightarrow>
     finished r
     \<or> (\<exists>fl. finishLine rm = Some fl
            \<and> crossesLine rm (minCPs rm) fl (advanceCheckpoints (checkpoints rm) r)
            \<and> lap r + 1 > totalLaps rm)"
  by (simp add: updateRacer_def finishCrossing_finished)

lemma updateRacer_lap:
  assumes "\<not> finished r" "finishLine rm = Some fl"
    "crossesLine rm (minCPs rm) fl (advanceCheckpoints (checkpoints rm) r)"
    "lap r + 1 > totalLaps rm"
  shows "lap (updateRacer rm r) = totalLaps rm"
  using assms finishCrossing_lap[of rm fl "minCPs rm" "advanceCheckpoints (checkpoints rm) r"]
  by (simp add: updateRacer_def)

text \<open>Writing the ranks back changes nothing but the \<open>position\<close> field of each racer.\<close>

lemma fold_position_only:
  assumes "length acc = length rs"
    and "\<forall>i < length rs. \<exists>p. acc ! i = (rs ! i)\<lparr>position := p\<rparr>"
  shows "length (fold (\<lambda>i a. a[f i := (a ! f i)\<lparr>position := g i\<rparr>]) is acc) = length rs
       \<and> (\<forall>i < length rs. \<exists>p.
             fold (\<lambda>i a. a[f i := (a ! f i)\<lparr>position := g i\<rparr>]) is acc ! i
               = (rs ! i)\<lparr>position := p\<rparr>)"
  using assms
proof (induction "is" arbitrary: acc)
  case Nil
  then show ?case by simp
next
  case (Cons j js)
  let ?acc = "acc[f j := (acc ! f j)\<lparr>position := g j\<rparr>]"
  have len: "length ?acc = length rs" using Cons.prems(1) by simp
  have inv: "\<forall>i < length rs. \<exists>p. ?acc ! i = (rs ! i)\<lparr>position := p\<rparr>"
  proof (intro allI impI)
    fix i assume i: "i < length rs"
    from Cons.prems(2) i obtain p where p: "acc ! i = (rs ! i)\<lparr>position := p\<rparr>" by blast
    show "\<exists>p. ?acc ! i = (rs ! i)\<lparr>position := p\<rparr>"
    proof (cases "i = f j")
      case True
      then have "?acc ! i = (rs ! i)\<lparr>position := g j\<rparr>"
        using i Cons.prems(1) p by simp
      then show ?thesis by blast
    next
      case False
      then have "?acc ! i = acc ! i" by simp
      with p have "?acc ! i = (rs ! i)\<lparr>position := p\<rparr>" by simp
      then show ?thesis by (rule exI)
    qed
  qed
  from Cons.IH[OF len inv] show ?case by simp
qed

lemma assignPositions_only:
  "length (assignPositions order rs) = length rs"
  "i < length rs \<Longrightarrow> \<exists>p. assignPositions order rs ! i = (rs ! i)\<lparr>position := p\<rparr>"
proof -
  have a: "length rs = length rs" by simp
  have b: "\<forall>i < length rs. \<exists>p. rs ! i = (rs ! i)\<lparr>position := p\<rparr>"
  proof (intro allI impI)
    fix i
    have "rs ! i = (rs ! i)\<lparr>position := position (rs ! i)\<rparr>" by simp
    then show "\<exists>p. rs ! i = (rs ! i)\<lparr>position := p\<rparr>" by blast
  qed
  from fold_position_only[OF a b, of "\<lambda>i. order ! i" "\<lambda>i. i + 1" "[0..<length order]"]
  show "length (assignPositions order rs) = length rs"
    and "i < length rs \<Longrightarrow> \<exists>p. assignPositions order rs ! i = (rs ! i)\<lparr>position := p\<rparr>"
    by (simp_all add: assignPositions_def)
qed

lemma update_racer_at:
  assumes "i < length (racers rm)"
  shows "length (racers (RaceManager_update dt rm)) = length (racers rm)"
    and "\<exists>p. racers (RaceManager_update dt rm) ! i =
          (if isFrozen (countdownStep dt rm) \<or> length (checkpoints rm) < 2
           then racers rm ! i
           else updateRacer (countdownStep dt rm) (racers rm ! i))\<lparr>position := p\<rparr>"
proof -
  let ?rm1 = "countdownStep dt rm"
  let ?rs = "map (updateRacer ?rm1) (racers rm)"
  show "length (racers (RaceManager_update dt rm)) = length (racers rm)"
    by (simp add: RaceManager_update_def Let_def updatePositions_def rankRacers_def
        assignPositions_only(1))
  show "\<exists>p. racers (RaceManager_update dt rm) ! i =
          (if isFrozen ?rm1 \<or> length (checkpoints rm) < 2
           then racers rm ! i
           else updateRacer ?rm1 (racers rm ! i))\<lparr>position := p\<rparr>"
  proof (cases "isFrozen ?rm1 \<or> length (checkpoints rm) < 2")
    case True
    have "racers rm ! i = (racers rm ! i)\<lparr>position := position (racers rm ! i)\<rparr>" by simp
    moreover have "racers (RaceManager_update dt rm) = racers rm"
      using True by (auto simp add: RaceManager_update_def Let_def)
    ultimately show ?thesis using True by (metis (full_types))
  next
    case False
    have i: "i < length ?rs" using assms by simp
    from assignPositions_only(2)[OF i, of "rankOrder (checkpoints rm) ?rs"]
    obtain p where "assignPositions (rankOrder (checkpoints rm) ?rs) ?rs ! i
                    = (?rs ! i)\<lparr>position := p\<rparr>" by blast
    then have "racers (RaceManager_update dt rm) ! i
               = (updateRacer ?rm1 (racers rm ! i))\<lparr>position := p\<rparr>"
      using False assms
      by (simp add: RaceManager_update_def Let_def updatePositions_def rankRacers_def)
    then show ?thesis using False by auto
  qed
qed

text \<open>
  C2. A racer that is not finished before \<open>RaceManager.update\<close> and is finished after it
  crossed the finish line on this tick: the signed distance went from negative to
  non-negative, the lateral position is within half the line width, the checkpoints passed
  this lap (counting this tick's) are at least \<open>floor(checkpoints \<times> 0.5)\<close>, the lap count
  would exceed the total, and the lap count is left at the total. Conversely, outside the
  countdown and with at least two checkpoints, such a crossing by an unfinished racer on its
  last lap makes it finished with the lap count clamped to the total.
\<close>

theorem finished_only_at_valid_crossing:
  assumes "i < length (racers rm)" and "\<not> finished (racers rm ! i)"
  shows "(finished (racers (RaceManager_update dt rm) ! i) \<longrightarrow>
           (\<exists>fl. finishLine rm = Some fl
              \<and> prevSide (racers rm ! i) < 0
              \<and> curSide rm (racers rm ! i) \<ge> 0
              \<and> \<bar>latDist fl (racers rm ! i)\<bar> \<le> FINISH_LINE_WIDTH / 2
              \<and> cpThisLap (advanceCheckpoints (checkpoints rm) (racers rm ! i))
                  \<ge> \<lfloor>real (length (checkpoints rm)) * 0.5\<rfloor>
              \<and> lap (racers rm ! i) + 1 > totalLaps rm
              \<and> lap (racers (RaceManager_update dt rm) ! i) = totalLaps rm))
       \<and> (\<not> isFrozen (countdownStep dt rm) \<and> 2 \<le> length (checkpoints rm)
           \<and> (\<exists>fl. finishLine rm = Some fl
                \<and> crossesLine rm (minCPs rm) fl
                     (advanceCheckpoints (checkpoints rm) (racers rm ! i)))
           \<and> lap (racers rm ! i) + 1 > totalLaps rm
           \<longrightarrow> finished (racers (RaceManager_update dt rm) ! i)
               \<and> lap (racers (RaceManager_update dt rm) ! i) = totalLaps rm)"
proof -
  let ?r = "racers rm ! i"
  let ?rm1 = "countdownStep dt rm"
  let ?r' = "racers (RaceManager_update dt rm) ! i"
  let ?ra = "advanceCheckpoints (checkpoints rm) ?r"
  from update_racer_at(2)[OF assms(1), of dt] obtain p where
    p: "?r' = (if isFrozen ?rm1 \<or> length (checkpoints rm) < 2 then ?r
               else updateRacer ?rm1 ?r)\<lparr>position := p\<rparr>" by blast
  have fwd: "\<exists>fl. finishLine rm = Some fl \<and> prevSide ?r < 0 \<and> curSide rm ?r \<ge> 0
              \<and> \<bar>latDist fl ?r\<bar> \<le> FINISH_LINE_WIDTH / 2
              \<and> cpThisLap ?ra \<ge> \<lfloor>real (length (checkpoints rm)) * 0.5\<rfloor>
              \<and> lap ?r + 1 > totalLaps rm \<and> lap ?r' = totalLaps rm"
    if fin: "finished ?r'"
  proof -
    from fin p assms(2) have nf: "\<not> (isFrozen ?rm1 \<or> length (checkpoints rm) < 2)"
      by (auto split: if_splits)
    with fin p have "finished (updateRacer ?rm1 ?r)" by simp
    with assms(2) obtain fl where fl: "finishLine rm = Some fl"
      "crossesLine rm (minCPs rm) fl ?ra" "lap ?r + 1 > totalLaps rm"
      by (auto simp add: updateRacer_finished)
    have "lap (updateRacer ?rm1 ?r) = totalLaps rm"
      using updateRacer_lap[of ?r ?rm1 fl] assms(2) fl by simp
    then have "lap ?r' = totalLaps rm" using p nf by simp
    with fl show ?thesis
      by (auto simp add: crossesLine_def minCPs_def MIN_CP_FRACTION_def)
  qed
  have bwd: "finished ?r' \<and> lap ?r' = totalLaps rm"
    if h: "\<not> isFrozen ?rm1" "2 \<le> length (checkpoints rm)"
      "\<exists>fl. finishLine rm = Some fl \<and> crossesLine rm (minCPs rm) fl ?ra"
      "lap ?r + 1 > totalLaps rm"
  proof -
    from h(3) obtain fl where fl: "finishLine rm = Some fl" "crossesLine rm (minCPs rm) fl ?ra"
      by blast
    have r': "?r' = (updateRacer ?rm1 ?r)\<lparr>position := p\<rparr>" using p h(1,2) by simp
    have "finished (updateRacer ?rm1 ?r)"
      using fl h(4) by (simp add: updateRacer_finished)
    moreover have "lap (updateRacer ?rm1 ?r) = totalLaps rm"
      using updateRacer_lap[of ?r ?rm1 fl] assms(2) fl h(4) by simp
    ultimately show ?thesis using r' by simp
  qed
  from fwd bwd show ?thesis by blast
qed

lemma bestAdvance_none:
  assumes "\<forall>look. \<not> cpHit cps r look"
  shows "bestAdvance cps r = - 1"
proof -
  have "fold (\<lambda>look best. if cpHit cps r look then int look else best) ls b = b" for ls b
    using assms by (induction ls arbitrary: b) simp_all
  then show ?thesis by (simp add: bestAdvance_def)
qed

lemma sqrt_less_30: "sqrt q < 30 \<longleftrightarrow> q < 900"
proof -
  have "sqrt 900 = 30" by (rule real_sqrt_unique) simp_all
  then have "sqrt q < 30 \<longleftrightarrow> sqrt q < sqrt 900" by simp
  then show ?thesis by (simp only: real_sqrt_less_iff)
qed

lemma lastLapRace_no_hit: "\<not> cpHit (checkpoints lastLapRace) (racers lastLapRace ! 0) look"
proof -
  have "look mod Suc (Suc 0) = 0 \<or> look mod Suc (Suc 0) = Suc 0" by arith
  then show ?thesis
    by (auto simp add: cpHit_def lastLapRace_def newRacer_def createServerKart_def Let_def
        CP_HIT_RADIUS_def sqrt_less_30)
qed

lemma lastLapRace_advance:
  "advanceCheckpoints (checkpoints lastLapRace) (racers lastLapRace ! 0) = racers lastLapRace ! 0"
  using bestAdvance_none[of "checkpoints lastLapRace" "racers lastLapRace ! 0"]
    lastLapRace_no_hit
  by (simp add: advanceCheckpoints_def)

theorem finished_only_at_valid_crossing_witness:
  "0 < length (racers lastLapRace) \<and> \<not> finished (racers lastLapRace ! 0)
   \<and> prevSide (racers lastLapRace ! 0) < 0 \<and> curSide lastLapRace (racers lastLapRace ! 0) \<ge> 0
   \<and> finished (racers (RaceManager_update (1/60) lastLapRace) ! 0)
   \<and> lap (racers (RaceManager_update (1/60) lastLapRace) ! 0) = 3"
proof -
  have h: "0 < length (racers lastLapRace)" "\<not> finished (racers lastLapRace ! 0)"
    by (simp_all add: lastLapRace_def newRacer_def)
  have side: "prevSide (racers lastLapRace ! 0) < 0"
    "curSide lastLapRace (racers lastLapRace ! 0) \<ge> 0"
    by (simp_all add: lastLapRace_def newRacer_def curSide_def signedDist_def
        createServerKart_def)
  have nf: "\<not> isFrozen (countdownStep (1/60) lastLapRace)"
    by (simp add: isFrozen_def countdownStep_def lastLapRace_def)
  have n: "2 \<le> length (checkpoints lastLapRace)" by (simp add: lastLapRace_def)
  have fl: "finishLine lastLapRace = Some \<lparr>fl_x = 0, fl_z = 0, fl_nx = 0, fl_nz = - 1\<rparr>"
    by (simp add: lastLapRace_def)
  have m: "minCPs lastLapRace = 1"
    by (simp add: minCPs_def lastLapRace_def MIN_CP_FRACTION_def)
  have cr: "crossesLine lastLapRace (minCPs lastLapRace) \<lparr>fl_x = 0, fl_z = 0, fl_nx = 0, fl_nz = - 1\<rparr>
              (advanceCheckpoints (checkpoints lastLapRace) (racers lastLapRace ! 0))"
    unfolding lastLapRace_advance m
    using side by (simp add: crossesLine_def latDist_def FINISH_LINE_WIDTH_def)
       (simp add: lastLapRace_def newRacer_def createServerKart_def)
  have l: "lap (racers lastLapRace ! 0) + 1 > totalLaps lastLapRace"
    by (simp add: lastLapRace_def newRacer_def TOTAL_LAPS_def)
  from finished_only_at_valid_crossing[OF h, of "1/60"] nf n fl cr l
  have "finished (racers (RaceManager_update (1/60) lastLapRace) ! 0)
      \<and> lap (racers (RaceManager_update (1/60) lastLapRace) ! 0) = totalLaps lastLapRace"
    by blast
  then show ?thesis using h side by (simp add: lastLapRace_def TOTAL_LAPS_def)
qed

subsection \<open>Ranking: the order of the ranks and their dependence on the array order\<close>

lemma compare_le_iff: "compareRacers cps a b \<le> 0 \<longleftrightarrow> ranksNoLater cps a b"
  by (auto simp add: compareRacers_def ranksNoLater_def)

lemma compare_refl: "compareRacers cps a a = 0"
  by (simp add: compareRacers_def)

lemma compare_total: "compareRacers cps a b \<le> 0 \<or> compareRacers cps b a \<le> 0"
  by (auto simp add: compareRacers_def)

lemma ranksNoLater_trans:
  "ranksNoLater cps a b \<Longrightarrow> ranksNoLater cps b d \<Longrightarrow> ranksNoLater cps a d"
  unfolding ranksNoLater_def by (elim disjE conjE) auto

lemma compare_trans:
  "compareRacers cps a b \<le> 0 \<Longrightarrow> compareRacers cps b d \<le> 0 \<Longrightarrow> compareRacers cps a d \<le> 0"
  unfolding compare_le_iff by (rule ranksNoLater_trans)

lemma compare_flip: "compareRacers cps a b < 0 \<Longrightarrow> compareRacers cps b a > 0"
  by (auto simp add: compareRacers_def split: if_splits)

lemma set_insortBy [simp]: "set (insortBy c x xs) = insert x (set xs)"
  by (induction xs) auto

lemma mset_insortBy [simp]: "mset (insortBy c x xs) = add_mset x (mset xs)"
  by (induction xs) auto

lemma mset_sortBy [simp]: "mset (sortBy c xs) = mset xs"
  unfolding sortBy_def by (induction xs) auto

lemma sorted_insortBy:
  assumes total: "\<And>a b. c a b \<le> 0 \<or> c b a \<le> 0"
    and trans: "\<And>a b d. c a b \<le> 0 \<Longrightarrow> c b d \<le> 0 \<Longrightarrow> c a d \<le> 0"
    and "sorted_wrt (\<lambda>a b. c a b \<le> 0) xs"
  shows "sorted_wrt (\<lambda>a b. c a b \<le> 0) (insortBy c x xs)"
  using assms(3)
proof (induction xs)
  case Nil
  show ?case by simp
next
  case (Cons y ys)
  show ?case
  proof (cases "c x y \<le> 0")
    case True
    then have "\<forall>z \<in> set ys. c x z \<le> 0" using Cons.prems trans by auto
    with True Cons.prems show ?thesis by simp
  next
    case False
    then have "c y x \<le> 0" using total[of x y] by simp
    with False Cons show ?thesis by auto
  qed
qed

lemma sorted_sortBy:
  assumes total: "\<And>a b. c a b \<le> 0 \<or> c b a \<le> 0"
    and trans: "\<And>a b d. c a b \<le> 0 \<Longrightarrow> c b d \<le> 0 \<Longrightarrow> c a d \<le> 0"
  shows "sorted_wrt (\<lambda>a b. c a b \<le> 0) (sortBy c xs)"
  unfolding sortBy_def
  by (induction xs) (simp_all add: sorted_insortBy[OF total trans])

lemma rankOrder_props:
  "mset (rankOrder cps rs) = mset [0..<length rs]"
  "distinct (rankOrder cps rs)"
  "set (rankOrder cps rs) = {0..<length rs}"
  "length (rankOrder cps rs) = length rs"
  "sorted_wrt (\<lambda>i j. compareRacers cps (rs ! i) (rs ! j) \<le> 0) (rankOrder cps rs)"
proof -
  show m: "mset (rankOrder cps rs) = mset [0..<length rs]" by (simp add: rankOrder_def)
  from m show "distinct (rankOrder cps rs)" by (metis distinct_upt mset_eq_imp_distinct_iff)
  from m show "set (rankOrder cps rs) = {0..<length rs}" by (metis mset_eq_setD set_upt)
  from m show "length (rankOrder cps rs) = length rs" by (metis length_upt mset_eq_length diff_zero)
  show "sorted_wrt (\<lambda>i j. compareRacers cps (rs ! i) (rs ! j) \<le> 0) (rankOrder cps rs)"
    unfolding rankOrder_def
  proof (rule sorted_sortBy)
    fix a b
    show "compareRacers cps (rs ! a) (rs ! b) \<le> 0 \<or> compareRacers cps (rs ! b) (rs ! a) \<le> 0"
      by (rule compare_total)
  next
    fix a b d
    assume "compareRacers cps (rs ! a) (rs ! b) \<le> 0" "compareRacers cps (rs ! b) (rs ! d) \<le> 0"
    then show "compareRacers cps (rs ! a) (rs ! d) \<le> 0" by (rule compare_trans)
  qed
qed

text \<open>The racer at index \<open>order ! p\<close> gets rank \<open>p + 1\<close>.\<close>

lemma fold_assign_rank:
  assumes "distinct order" "m \<le> length order" "p < m" "order ! p < length rs"
  shows "position (fold (\<lambda>i acc. acc[order ! i := (acc ! (order ! i))\<lparr>position := i + 1\<rparr>])
                     [0..<m] rs ! (order ! p)) = p + 1"
  using assms
proof (induction m)
  case 0
  then show ?case by simp
next
  case (Suc m)
  let ?f = "\<lambda>i acc. acc[order ! i := (acc ! (order ! i))\<lparr>position := i + 1\<rparr>]"
  let ?acc = "fold ?f [0..<m] rs"
  have len: "length ?acc = length rs"
    using fold_position_only[of rs rs "\<lambda>i. order ! i" "\<lambda>i. i + 1" "[0..<m]"]
    by (metis (no_types, lifting) Racer.surjective Racer.update_convs(9))
  have step: "fold ?f [0..<Suc m] rs = ?acc[order ! m := (?acc ! (order ! m))\<lparr>position := m + 1\<rparr>]"
    by simp
  show ?case
  proof (cases "p = m")
    case True
    then show ?thesis using Suc.prems len unfolding step by simp
  next
    case False
    then have pm: "p < m" using Suc.prems by simp
    have "order ! p \<noteq> order ! m"
      using Suc.prems(1,2) pm by (simp add: nth_eq_iff_index_eq)
    then have "(fold ?f [0..<Suc m] rs) ! (order ! p) = ?acc ! (order ! p)"
      unfolding step by simp
    moreover have "position (?acc ! (order ! p)) = p + 1"
      using Suc.IH Suc.prems pm by simp
    ultimately show ?thesis by simp
  qed
qed

lemma rank_at_order:
  assumes "p < length rs"
  shows "position (rankRacers cps rs ! (rankOrder cps rs ! p)) = p + 1"
proof -
  let ?o = "rankOrder cps rs"
  have "?o ! p \<in> set ?o" using assms by (simp add: rankOrder_props(4))
  then have lt: "?o ! p < length rs" by (simp add: rankOrder_props(3))
  from fold_assign_rank[OF rankOrder_props(2), of "length ?o" cps rs p rs] assms lt
  show ?thesis by (simp add: rankRacers_def assignPositions_def rankOrder_props(4))
qed

lemma order_index:
  assumes "i < length rs"
  obtains p where "p < length rs" "rankOrder cps rs ! p = i"
proof -
  have "i \<in> set (rankOrder cps rs)" using assms by (simp add: rankOrder_props(3))
  then obtain p where "p < length (rankOrder cps rs)" "rankOrder cps rs ! p = i"
    by (auto simp add: in_set_conv_nth)
  then show ?thesis using that by (simp add: rankOrder_props(4))
qed

lemma rank_ordered:
  assumes "i < length rs" "j < length rs"
    and "position (rankRacers cps rs ! i) < position (rankRacers cps rs ! j)"
  shows "compareRacers cps (rs ! i) (rs ! j) \<le> 0"
proof -
  obtain p where p: "p < length rs" "rankOrder cps rs ! p = i" using assms(1) by (rule order_index)
  obtain q where q: "q < length rs" "rankOrder cps rs ! q = j" using assms(2) by (rule order_index)
  have "p + 1 < q + 1" using assms(3) rank_at_order[OF p(1), of cps] rank_at_order[OF q(1), of cps] p q
    by simp
  then have "p < q" by simp
  with rankOrder_props(5)[of cps rs] q(1) show ?thesis
    using p(2) q(2) by (auto simp add: sorted_wrt_iff_nth_less rankOrder_props(4))
qed

text \<open>Without ties the rank of a racer is one more than the number of racers that compare
  before it.\<close>

lemma rank_count:
  assumes "noTies cps rs" "i < length rs"
  shows "position (rankRacers cps rs ! i)
         = 1 + card {j. j < length rs \<and> compareRacers cps (rs ! j) (rs ! i) < 0}"
proof -
  let ?o = "rankOrder cps rs"
  let ?n = "length rs"
  obtain p where p: "p < ?n" "?o ! p = i" using assms(2) by (rule order_index)
  have len: "length ?o = ?n" by (rule rankOrder_props(4))
  have inj: "inj_on (\<lambda>q. ?o ! q) {..<p}"
    using rankOrder_props(2)[of cps rs] p(1) len
    by (auto simp add: inj_on_def nth_eq_iff_index_eq)
  have "{j. j < ?n \<and> compareRacers cps (rs ! j) (rs ! i) < 0} = (\<lambda>q. ?o ! q) ` {..<p}"
  proof (intro equalityI subsetI)
    fix j assume "j \<in> {j. j < ?n \<and> compareRacers cps (rs ! j) (rs ! i) < 0}"
    then have j: "j < ?n" "compareRacers cps (rs ! j) (rs ! i) < 0" by simp_all
    obtain q where q: "q < ?n" "?o ! q = j" using j(1) by (rule order_index)
    have "q < p"
    proof (rule ccontr)
      assume "\<not> q < p"
      then have "q = p \<or> p < q" by arith
      then show False
      proof
        assume "q = p"
        then have "j = i" using p q by simp
        then show False using j(2) by (simp add: compare_refl)
      next
        assume "p < q"
        then have "compareRacers cps (rs ! i) (rs ! j) \<le> 0"
          using rankOrder_props(5)[of cps rs] q p len
          by (auto simp add: sorted_wrt_iff_nth_less)
        moreover have "compareRacers cps (rs ! i) (rs ! j) > 0" using j(2) by (rule compare_flip)
        ultimately show False by simp
      qed
    qed
    then show "j \<in> (\<lambda>q. ?o ! q) ` {..<p}" using q(2) by auto
  next
    fix j assume "j \<in> (\<lambda>q. ?o ! q) ` {..<p}"
    then obtain q where q: "q < p" "j = ?o ! q" by auto
    then have qn: "q < ?n" using p(1) by simp
    have "j \<in> set ?o" using q qn len by simp
    then have jn: "j < ?n" by (simp add: rankOrder_props(3))
    have ne: "j \<noteq> i"
    proof
      assume "j = i"
      then have "?o ! q = ?o ! p" using q(2) p(2) by simp
      then have "q = p"
        using rankOrder_props(2)[of cps rs] qn p(1) len by (simp add: nth_eq_iff_index_eq)
      then show False using q(1) by simp
    qed
    have "compareRacers cps (rs ! j) (rs ! i) \<le> 0"
      using rankOrder_props(5)[of cps rs] q p len
      by (auto simp add: sorted_wrt_iff_nth_less)
    moreover have "compareRacers cps (rs ! j) (rs ! i) \<noteq> 0"
      using assms(1) jn assms(2) ne by (simp add: noTies_def)
    ultimately show "j \<in> {j. j < ?n \<and> compareRacers cps (rs ! j) (rs ! i) < 0}"
      using jn by simp
  qed
  then have "card {j. j < ?n \<and> compareRacers cps (rs ! j) (rs ! i) < 0} = p"
    using inj by (simp add: card_image)
  with rank_at_order[OF p(1), of cps] p(2) show ?thesis by simp
qed

lemma count_before_mset:
  "card {j. j < length rs \<and> P (rs ! j)} = size (filter_mset P (mset rs))"
proof -
  have "card {j. j < length rs \<and> P (rs ! j)} = length (filter P rs)"
    by (simp add: length_filter_conv_card)
  also have "\<dots> = size (filter_mset P (mset rs))" by (metis mset_filter size_mset)
  finally show ?thesis .
qed

lemma noTies_values:
  "noTies cps rs \<longleftrightarrow>
     distinct rs \<and> (\<forall>a \<in> set rs. \<forall>b \<in> set rs. a \<noteq> b \<longrightarrow> compareRacers cps a b \<noteq> 0)"
proof
  assume nt: "noTies cps rs"
  have "distinct rs"
    unfolding distinct_conv_nth
  proof (intro allI impI)
    fix i j assume "i < length rs" "j < length rs" "i \<noteq> j"
    with nt have "compareRacers cps (rs ! i) (rs ! j) \<noteq> 0" by (simp add: noTies_def)
    then show "rs ! i \<noteq> rs ! j" using compare_refl[of cps "rs ! i"] by auto
  qed
  moreover have "\<forall>a \<in> set rs. \<forall>b \<in> set rs. a \<noteq> b \<longrightarrow> compareRacers cps a b \<noteq> 0"
  proof (intro ballI impI)
    fix a b assume "a \<in> set rs" "b \<in> set rs" "a \<noteq> b"
    then obtain i j where ij: "i < length rs" "rs ! i = a" "j < length rs" "rs ! j = b"
      by (auto simp add: in_set_conv_nth)
    with \<open>a \<noteq> b\<close> have "i \<noteq> j" by auto
    with nt ij show "compareRacers cps a b \<noteq> 0" by (auto simp add: noTies_def)
  qed
  ultimately show "distinct rs \<and> (\<forall>a \<in> set rs. \<forall>b \<in> set rs. a \<noteq> b \<longrightarrow> compareRacers cps a b \<noteq> 0)"
    by simp
next
  assume "distinct rs \<and> (\<forall>a \<in> set rs. \<forall>b \<in> set rs. a \<noteq> b \<longrightarrow> compareRacers cps a b \<noteq> 0)"
  then show "noTies cps rs"
    by (auto simp add: noTies_def nth_eq_iff_index_eq)
qed

lemma noTies_perm:
  assumes "mset rs' = mset rs" "noTies cps rs"
  shows "noTies cps rs'"
proof -
  have "distinct rs' = distinct rs" using assms(1) by (rule mset_eq_imp_distinct_iff)
  moreover have "set rs' = set rs" using assms(1) by (rule mset_eq_setD)
  ultimately show ?thesis using assms(2) by (simp add: noTies_values)
qed

lemma rank_permutation:
  assumes "mset rs' = mset rs" "noTies cps rs"
    and "i < length rs" "j < length rs'" "rs' ! j = rs ! i"
  shows "position (rankRacers cps rs' ! j) = position (rankRacers cps rs ! i)"
proof -
  have nt': "noTies cps rs'" using assms(1,2) by (rule noTies_perm)
  have "position (rankRacers cps rs' ! j)
        = 1 + size (filter_mset (\<lambda>b. compareRacers cps b (rs' ! j) < 0) (mset rs'))"
    using rank_count[OF nt' assms(4)]
      count_before_mset[of rs' "\<lambda>b. compareRacers cps b (rs' ! j) < 0"] by simp
  moreover have "position (rankRacers cps rs ! i)
        = 1 + size (filter_mset (\<lambda>b. compareRacers cps b (rs ! i) < 0) (mset rs))"
    using rank_count[OF assms(2,3)]
      count_before_mset[of rs "\<lambda>b. compareRacers cps b (rs ! i) < 0"] by simp
  ultimately show ?thesis using assms(1,5) by simp
qed

lemma updatePositions_racers:
  "racers (updatePositions rm) = rankRacers (checkpoints rm) (racers rm)"
  by (simp add: updatePositions_def)

lemma rank_range:
  assumes "i < length rs"
  shows "1 \<le> position (rankRacers cps rs ! i) \<and> position (rankRacers cps rs ! i) \<le> length rs"
proof -
  obtain p where p: "p < length rs" "rankOrder cps rs ! p = i" using assms by (rule order_index)
  from rank_at_order[OF p(1), of cps] p show ?thesis by simp
qed

lemma rank_distinct:
  assumes "i < length rs" "j < length rs" "i \<noteq> j"
  shows "position (rankRacers cps rs ! i) \<noteq> position (rankRacers cps rs ! j)"
proof -
  obtain p where p: "p < length rs" "rankOrder cps rs ! p = i" using assms(1) by (rule order_index)
  obtain q where q: "q < length rs" "rankOrder cps rs ! q = j" using assms(2) by (rule order_index)
  have "p \<noteq> q" using assms(3) p q by auto
  with rank_at_order[OF p(1), of cps] rank_at_order[OF q(1), of cps] p q show ?thesis by simp
qed

text \<open>
  C8 (amended). \<open>_updatePositions\<close> gives the racers the ranks \<open>1, \<dots>, n\<close>, each once, and a
  racer with a smaller rank is finished-first, then lap-descending, then
  checkpoints-passed-descending, then distance-ascending no later than one with a larger rank.
  When no two racers of the array tie on all four keys, every permutation of the array gives
  each racer the rank it has in the original array.
\<close>

theorem ranks_ordered_and_stable_without_ties:
  "(\<forall>i < length (racers rm). \<forall>j < length (racers rm).
      1 \<le> position (racers (updatePositions rm) ! i)
      \<and> position (racers (updatePositions rm) ! i) \<le> length (racers rm)
      \<and> (i \<noteq> j \<longrightarrow> position (racers (updatePositions rm) ! i)
                      \<noteq> position (racers (updatePositions rm) ! j))
      \<and> (position (racers (updatePositions rm) ! i) < position (racers (updatePositions rm) ! j)
           \<longrightarrow> ranksNoLater (checkpoints rm) (racers rm ! i) (racers rm ! j)))
   \<and> (mset rs' = mset (racers rm) \<and> noTies (checkpoints rm) (racers rm) \<longrightarrow>
        (\<forall>i < length (racers rm). \<forall>j < length rs'. rs' ! j = racers rm ! i \<longrightarrow>
           position (racers (updatePositions (rm\<lparr>racers := rs'\<rparr>)) ! j)
           = position (racers (updatePositions rm) ! i)))"
proof -
  have a: "ranksNoLater (checkpoints rm) (racers rm ! i) (racers rm ! j)"
    if "i < length (racers rm)" "j < length (racers rm)"
      "position (racers (updatePositions rm) ! i) < position (racers (updatePositions rm) ! j)"
    for i j
    using rank_ordered[of i "racers rm" j "checkpoints rm"] that
    by (simp add: updatePositions_racers compare_le_iff)
  have b: "position (racers (updatePositions (rm\<lparr>racers := rs'\<rparr>)) ! j)
           = position (racers (updatePositions rm) ! i)"
    if "mset rs' = mset (racers rm)" "noTies (checkpoints rm) (racers rm)"
      "i < length (racers rm)" "j < length rs'" "rs' ! j = racers rm ! i"
    for i j
    using rank_permutation[OF that] by (simp add: updatePositions_racers)
  show ?thesis
    using a b rank_range[of _ "racers rm" "checkpoints rm"]
      rank_distinct[of _ "racers rm" _ "checkpoints rm"]
    by (simp add: updatePositions_racers)
qed

lemma rankRacers_two:
  "rankRacers cps [a, b] =
     (if compareRacers cps a b \<le> 0 then [a\<lparr>position := 1\<rparr>, b\<lparr>position := 2\<rparr>]
      else [a\<lparr>position := 2\<rparr>, b\<lparr>position := 1\<rparr>])"
  by (simp add: rankRacers_def rankOrder_def sortBy_def assignPositions_def upt_rec)

lemma grid_tie:
  "compareRacers (checkpoints lastLapRace) gridLeft gridRight = 0"
  "compareRacers (checkpoints lastLapRace) gridRight gridLeft = 0"
  by (simp_all add: compareRacers_def distToNext_def gridLeft_def gridRight_def newRacer_def
      createServerKart_def lastLapRace_def Let_def)

text \<open>Two racers that tie on all four keys get their ranks from the array order: the left
  racer is first in the array \<open>[left, right]\<close> and second in \<open>[right, left]\<close>.\<close>

theorem ranks_depend_on_array_order_counterexample:
  "mset [gridRight, gridLeft] = mset [gridLeft, gridRight]
   \<and> [gridRight, gridLeft] ! 1 = [gridLeft, gridRight] ! 0
   \<and> position (racers (updatePositions (lastLapRace\<lparr>racers := [gridLeft, gridRight]\<rparr>)) ! 0) = 1
   \<and> position (racers (updatePositions (lastLapRace\<lparr>racers := [gridRight, gridLeft]\<rparr>)) ! 1) = 2"
  by (simp add: updatePositions_racers rankRacers_two grid_tie)

theorem ranks_ordered_and_stable_without_ties_witness:
  "mset [gridRight\<lparr>lap := 2\<rparr>, gridLeft] = mset [gridLeft, gridRight\<lparr>lap := 2\<rparr>]
   \<and> noTies (checkpoints lastLapRace) [gridLeft, gridRight\<lparr>lap := 2\<rparr>]
   \<and> [gridRight\<lparr>lap := 2\<rparr>, gridLeft] ! 1 = [gridLeft, gridRight\<lparr>lap := 2\<rparr>] ! 0
   \<and> position (racers (updatePositions
         (lastLapRace\<lparr>racers := [gridLeft, gridRight\<lparr>lap := 2\<rparr>]\<rparr>)) ! 1)
       < position (racers (updatePositions
         (lastLapRace\<lparr>racers := [gridLeft, gridRight\<lparr>lap := 2\<rparr>]\<rparr>)) ! 0)
   \<and> ranksNoLater (checkpoints lastLapRace) (gridRight\<lparr>lap := 2\<rparr>) gridLeft
   \<and> position (racers (updatePositions
         (lastLapRace\<lparr>racers := [gridRight\<lparr>lap := 2\<rparr>, gridLeft]\<rparr>)) ! 1)
       = position (racers (updatePositions
         (lastLapRace\<lparr>racers := [gridLeft, gridRight\<lparr>lap := 2\<rparr>]\<rparr>)) ! 0)"
proof -
  let ?rm = "lastLapRace\<lparr>racers := [gridLeft, gridRight\<lparr>lap := 2\<rparr>]\<rparr>"
  let ?rs' = "[gridRight\<lparr>lap := 2\<rparr>, gridLeft]"
  have m: "mset ?rs' = mset (racers ?rm)" by simp
  have c: "compareRacers (checkpoints lastLapRace) gridLeft (gridRight\<lparr>lap := 2\<rparr>) = 1"
    "compareRacers (checkpoints lastLapRace) (gridRight\<lparr>lap := 2\<rparr>) gridLeft = - 1"
    by (simp_all add: compareRacers_def gridLeft_def gridRight_def newRacer_def)
  have ne: "gridLeft \<noteq> gridRight\<lparr>lap := 2\<rparr>"
    by (simp add: gridLeft_def gridRight_def newRacer_def)
  have nt: "noTies (checkpoints ?rm) (racers ?rm)"
    using c ne by (simp add: noTies_values)
  have lt: "position (racers (updatePositions ?rm) ! 1) < position (racers (updatePositions ?rm) ! 0)"
    using c by (simp add: updatePositions_racers rankRacers_two)
  have r: "ranksNoLater (checkpoints ?rm) (racers ?rm ! 1) (racers ?rm ! 0)"
    using ranks_ordered_and_stable_without_ties[of ?rm ?rs', THEN conjunct1, rule_format, of 1 0]
      lt by simp
  have e: "position (racers (updatePositions (?rm\<lparr>racers := ?rs'\<rparr>)) ! 1)
         = position (racers (updatePositions ?rm) ! 0)"
    using ranks_ordered_and_stable_without_ties[of ?rm ?rs', THEN conjunct2, rule_format, of 0 1]
      m nt by simp
  show ?thesis using m nt lt r e by simp
qed

subsection \<open>Reconciliation against a server snapshot\<close>

lemma onServerState_kart:
  "snd (onServerState pr k ss)
     = k\<lparr>heldItem := w_heldItem ss, boostSpeed := w_boostSpeed ss, boostTimer := w_boostTimer ss\<rparr>"
  by (simp add: onServerState_def Let_def)

lemma onServerState_near:
  "serverDist k ss < SNAP_THRESHOLD \<Longrightarrow> fst (onServerState pr k ss) = pr"
  by (simp add: onServerState_def serverDist_def Let_def)

lemma onServerState_far:
  "\<not> serverDist k ss < SNAP_THRESHOLD \<Longrightarrow>
   fst (onServerState pr k ss)
     = pr\<lparr>offset_x := w_x ss - position_x k, offset_y := w_y ss - position_y k,
          offset_z := w_z ss - position_z k\<rparr>"
  by (simp add: onServerState_def serverDist_def Let_def)

lemma serverDist_synced [simp]:
  "serverDist (k\<lparr>heldItem := h, boostSpeed := b, boostTimer := t\<rparr>) ss = serverDist k ss"
  by (simp add: serverDist_def)

lemma onServerState_idem:
  "onServerState (fst (onServerState pr k ss)) (snd (onServerState pr k ss)) ss
     = onServerState pr k ss"
proof (cases "serverDist k ss < SNAP_THRESHOLD")
  case True
  then show ?thesis
    by (simp add: onServerState_def serverDist_def Let_def)
next
  case False
  then show ?thesis
    by (simp add: onServerState_def serverDist_def Let_def)
qed

text \<open>Blending moves the kart by exactly what it takes from the offset, and shortens the offset
  by \<open>BLEND_RATE \<times> dt\<close>, down to zero.\<close>

lemma blendOffset_conserves:
  "position_x (snd (blendOffset dt pr k)) + offset_x (fst (blendOffset dt pr k))
     = position_x k + offset_x pr"
  "position_y (snd (blendOffset dt pr k)) + offset_y (fst (blendOffset dt pr k))
     = position_y k + offset_y pr"
  "position_z (snd (blendOffset dt pr k)) + offset_z (fst (blendOffset dt pr k))
     = position_z k + offset_z pr"
  by (simp_all add: blendOffset_def Let_def algebra_simps)

lemma offsetLength_scaled:
  assumes "0 \<le> c"
  shows "offsetLength (pr\<lparr>offset_x := offset_x pr * c, offset_y := offset_y pr * c,
                          offset_z := offset_z pr * c\<rparr>) = offsetLength pr * c"
proof -
  have "offsetLengthSq (pr\<lparr>offset_x := offset_x pr * c, offset_y := offset_y pr * c,
                          offset_z := offset_z pr * c\<rparr>) = offsetLengthSq pr * (c * c)"
    by (simp add: offsetLengthSq_def algebra_simps)
  then show ?thesis using assms by (simp add: offsetLength_def real_sqrt_mult)
qed

lemma blendOffset_length:
  assumes "offsetLengthSq pr > 0.0001" "0 \<le> dt"
  shows "offsetLength (fst (blendOffset dt pr k)) = max 0 (offsetLength pr - BLEND_RATE * dt)"
proof (cases "offsetLength pr \<le> BLEND_RATE * dt")
  case True
  have "offsetLength (pr\<lparr>offset_x := 0, offset_y := 0, offset_z := 0\<rparr>) = 0"
    by (simp add: offsetLength_def offsetLengthSq_def)
  then show ?thesis using True assms(1) by (simp add: blendOffset_def Let_def)
next
  case False
  let ?len = "offsetLength pr"
  let ?f = "BLEND_RATE * dt / ?len"
  have pos: "0 < ?len" using assms(1) by (simp add: offsetLength_def)
  have f1: "?f < 1" using False pos by simp
  then have c: "0 \<le> 1 - ?f" by simp
  have "offsetLength (fst (blendOffset dt pr k)) = ?len * (1 - ?f)"
    using False assms(1) offsetLength_scaled[OF c, of pr] by (simp add: blendOffset_def Let_def)
  also have "\<dots> = ?len - BLEND_RATE * dt" using pos by (simp add: algebra_simps)
  finally show ?thesis using False by simp
qed

lemma applyLocal_blend:
  "applyLocal pr k inp dt =
     blendOffset dt (pr\<lparr>pred_physics := snd (KartPhysics_update (pred_physics pr) k inp dt)\<rparr>)
       (fst (KartPhysics_update (pred_physics pr) k inp dt))"
  by (simp add: applyLocal_def split: prod.splits)

lemma offset_physics [simp]:
  "offsetLengthSq (pr\<lparr>pred_physics := ph\<rparr>) = offsetLengthSq pr"
  "offsetLength (pr\<lparr>pred_physics := ph\<rparr>) = offsetLength pr"
  by (simp_all add: offsetLength_def offsetLengthSq_def)

lemma onServerState_heading: "onServerState pr k (ss\<lparr>w_ry := ry\<rparr>) = onServerState pr k ss"
  by (simp add: onServerState_def Let_def)

lemma blendOffset_position_only:
  "\<exists>px py pz. snd (blendOffset dt pr k) = k\<lparr>position_x := px, position_y := py, position_z := pz\<rparr>"
proof (cases "offsetLengthSq pr > 0.0001")
  case False
  have "k = k\<lparr>position_x := position_x k, position_y := position_y k, position_z := position_z k\<rparr>"
    by simp
  then have "\<exists>px py pz. k = k\<lparr>position_x := px, position_y := py, position_z := pz\<rparr>"
    by blast
  then show ?thesis using False by (simp add: blendOffset_def)
next
  case True
  show ?thesis
  proof (cases "offsetLength pr \<le> BLEND_RATE * dt")
    case True
    with \<open>offsetLengthSq pr > 0.0001\<close> show ?thesis by (auto simp add: blendOffset_def Let_def)
  next
    case False
    with \<open>offsetLengthSq pr > 0.0001\<close> show ?thesis by (auto simp add: blendOffset_def Let_def)
  qed
qed

lemma blendOffset_heading: "rotation_y (snd (blendOffset dt pr k)) = rotation_y k"
  by (simp add: blendOffset_def Let_def)

text \<open>
  C7 (amended). \<open>onServerState\<close> never moves or turns the kart: it overwrites the held item, the
  boost speed and the boost timer from the snapshot and leaves every other kart field as it
  is. Below the threshold the correction offset is left alone; at or above it the offset is
  set to the residual error (snapshot position minus predicted position). Applying the same
  snapshot a second time changes nothing. \<open>applyLocal\<close> then moves the kart by exactly what it
  takes from the offset, and shortens the offset by \<open>BLEND_RATE \<times> dt\<close> per call, down to zero.
  Only the position is blended: the heading of the snapshot is not read, and after
  \<open>applyLocal\<close> the kart differs from what the local physics step gave in its position only,
  so its heading is the predicted one.
\<close>

theorem reconciliation_policy:
  "snd (onServerState pr k ss)
      = k\<lparr>heldItem := w_heldItem ss, boostSpeed := w_boostSpeed ss,
           boostTimer := w_boostTimer ss\<rparr>
   \<and> position_x (snd (onServerState pr k ss)) = position_x k
   \<and> position_y (snd (onServerState pr k ss)) = position_y k
   \<and> position_z (snd (onServerState pr k ss)) = position_z k
   \<and> rotation_y (snd (onServerState pr k ss)) = rotation_y k
   \<and> (serverDist k ss < SNAP_THRESHOLD \<longrightarrow> fst (onServerState pr k ss) = pr)
   \<and> (serverDist k ss \<ge> SNAP_THRESHOLD \<longrightarrow>
         fst (onServerState pr k ss)
           = pr\<lparr>offset_x := w_x ss - position_x k, offset_y := w_y ss - position_y k,
                offset_z := w_z ss - position_z k\<rparr>)
   \<and> onServerState (fst (onServerState pr k ss)) (snd (onServerState pr k ss)) ss
        = onServerState pr k ss
   \<and> position_x (snd (applyLocal pr k inp dt)) + offset_x (fst (applyLocal pr k inp dt))
        = position_x (fst (KartPhysics_update (pred_physics pr) k inp dt)) + offset_x pr
   \<and> position_y (snd (applyLocal pr k inp dt)) + offset_y (fst (applyLocal pr k inp dt))
        = position_y (fst (KartPhysics_update (pred_physics pr) k inp dt)) + offset_y pr
   \<and> position_z (snd (applyLocal pr k inp dt)) + offset_z (fst (applyLocal pr k inp dt))
        = position_z (fst (KartPhysics_update (pred_physics pr) k inp dt)) + offset_z pr
   \<and> (offsetLengthSq pr > 0.0001 \<and> 0 \<le> dt \<longrightarrow>
         offsetLength (fst (applyLocal pr k inp dt)) = max 0 (offsetLength pr - BLEND_RATE * dt))
   \<and> (offsetLengthSq pr \<le> 0.0001 \<longrightarrow>
         offsetLength (fst (applyLocal pr k inp dt)) = offsetLength pr)
   \<and> onServerState pr k (ss\<lparr>w_ry := ry\<rparr>) = onServerState pr k ss
   \<and> (\<exists>px py pz. snd (applyLocal pr k inp dt)
          = (fst (KartPhysics_update (pred_physics pr) k inp dt))
              \<lparr>position_x := px, position_y := py, position_z := pz\<rparr>)
   \<and> rotation_y (snd (applyLocal pr k inp dt))
        = rotation_y (fst (KartPhysics_update (pred_physics pr) k inp dt))"
proof -
  have far: "fst (onServerState pr k ss)
           = pr\<lparr>offset_x := w_x ss - position_x k, offset_y := w_y ss - position_y k,
                offset_z := w_z ss - position_z k\<rparr>"
    if "serverDist k ss \<ge> SNAP_THRESHOLD"
    using that onServerState_far[of k ss pr] by simp
  have len: "offsetLength (fst (applyLocal pr k inp dt)) = max 0 (offsetLength pr - BLEND_RATE * dt)"
    if "offsetLengthSq pr > 0.0001" "0 \<le> dt"
    unfolding applyLocal_blend using that by (simp add: blendOffset_length)
  have same: "offsetLength (fst (applyLocal pr k inp dt)) = offsetLength pr"
    if "offsetLengthSq pr \<le> 0.0001"
    unfolding applyLocal_blend using that by (simp add: blendOffset_def)
  have only: "\<exists>px py pz. snd (applyLocal pr k inp dt)
          = (fst (KartPhysics_update (pred_physics pr) k inp dt))
              \<lparr>position_x := px, position_y := py, position_z := pz\<rparr>"
    unfolding applyLocal_blend by (rule blendOffset_position_only)
  have main: "snd (onServerState pr k ss)
      = k\<lparr>heldItem := w_heldItem ss, boostSpeed := w_boostSpeed ss,
           boostTimer := w_boostTimer ss\<rparr>
   \<and> position_x (snd (onServerState pr k ss)) = position_x k
   \<and> position_y (snd (onServerState pr k ss)) = position_y k
   \<and> position_z (snd (onServerState pr k ss)) = position_z k
   \<and> rotation_y (snd (onServerState pr k ss)) = rotation_y k
   \<and> (serverDist k ss < SNAP_THRESHOLD \<longrightarrow> fst (onServerState pr k ss) = pr)
   \<and> (serverDist k ss \<ge> SNAP_THRESHOLD \<longrightarrow>
         fst (onServerState pr k ss)
           = pr\<lparr>offset_x := w_x ss - position_x k, offset_y := w_y ss - position_y k,
                offset_z := w_z ss - position_z k\<rparr>)
   \<and> onServerState (fst (onServerState pr k ss)) (snd (onServerState pr k ss)) ss
        = onServerState pr k ss
   \<and> position_x (snd (applyLocal pr k inp dt)) + offset_x (fst (applyLocal pr k inp dt))
        = position_x (fst (KartPhysics_update (pred_physics pr) k inp dt)) + offset_x pr
   \<and> position_y (snd (applyLocal pr k inp dt)) + offset_y (fst (applyLocal pr k inp dt))
        = position_y (fst (KartPhysics_update (pred_physics pr) k inp dt)) + offset_y pr
   \<and> position_z (snd (applyLocal pr k inp dt)) + offset_z (fst (applyLocal pr k inp dt))
        = position_z (fst (KartPhysics_update (pred_physics pr) k inp dt)) + offset_z pr
   \<and> (offsetLengthSq pr > 0.0001 \<and> 0 \<le> dt \<longrightarrow>
         offsetLength (fst (applyLocal pr k inp dt)) = max 0 (offsetLength pr - BLEND_RATE * dt))
   \<and> (offsetLengthSq pr \<le> 0.0001 \<longrightarrow>
         offsetLength (fst (applyLocal pr k inp dt)) = offsetLength pr)"
    using far len same onServerState_near[of k ss pr] onServerState_idem[of pr k ss]
    by (simp add: onServerState_kart applyLocal_blend blendOffset_conserves)
  have head: "rotation_y (snd (applyLocal pr k inp dt))
        = rotation_y (fst (KartPhysics_update (pred_physics pr) k inp dt))"
    unfolding applyLocal_blend by (rule blendOffset_heading)
  from main onServerState_heading[where pr=pr and k=k and ss=ss and ry=ry] only head
  show ?thesis by blast
qed

lemma sqrt_sixteen: "sqrt 16 = 4"
  by (rule real_sqrt_unique) simp_all

theorem reconciliation_policy_witness:
  "serverDist cruisingKart (farSnapshot\<lparr>w_x := 1\<rparr>) < SNAP_THRESHOLD
   \<and> fst (onServerState (Prediction_new []) cruisingKart (farSnapshot\<lparr>w_x := 1\<rparr>))
       = Prediction_new []
   \<and> serverDist cruisingKart farSnapshot \<ge> SNAP_THRESHOLD
   \<and> fst (onServerState (Prediction_new []) cruisingKart farSnapshot)
       = (Prediction_new [])\<lparr>offset_x := 4\<rparr>
   \<and> position_x (snd (onServerState (Prediction_new []) cruisingKart farSnapshot)) = 0
   \<and> heldItem (snd (onServerState (Prediction_new []) cruisingKart farSnapshot)) = Some Missile
   \<and> offsetLengthSq ((Prediction_new [])\<lparr>offset_x := 4\<rparr>) > 0.0001
   \<and> offsetLength (fst (applyLocal ((Prediction_new [])\<lparr>offset_x := 4\<rparr>) cruisingKart
                           fullThrottle (1/10))) = 3.5"
proof -
  let ?pr = "Prediction_new []"
  let ?near = "farSnapshot\<lparr>w_x := 1\<rparr>"
  have d1: "serverDist cruisingKart ?near < SNAP_THRESHOLD"
    by (simp add: serverDist_def farSnapshot_def cruisingKart_def createServerKart_def
        SNAP_THRESHOLD_def)
  have d4: "serverDist cruisingKart farSnapshot \<ge> SNAP_THRESHOLD"
    by (simp add: serverDist_def farSnapshot_def cruisingKart_def createServerKart_def
        SNAP_THRESHOLD_def sqrt_sixteen)
  have res: "w_x farSnapshot - position_x cruisingKart = 4"
    "w_y farSnapshot - position_y cruisingKart = 0"
    "w_z farSnapshot - position_z cruisingKart = 0"
    by (simp_all add: farSnapshot_def cruisingKart_def createServerKart_def)
  have o: "offsetLengthSq (?pr\<lparr>offset_x := 4\<rparr>) = 16" "offsetLength (?pr\<lparr>offset_x := 4\<rparr>) = 4"
    by (simp_all add: offsetLength_def offsetLengthSq_def Prediction_new_def sqrt_sixteen)
  have n: "fst (onServerState ?pr cruisingKart ?near) = ?pr"
    using reconciliation_policy[of ?pr cruisingKart ?near] d1 by blast
  have f: "fst (onServerState ?pr cruisingKart farSnapshot) = ?pr\<lparr>offset_x := 4\<rparr>"
    using reconciliation_policy[of ?pr cruisingKart farSnapshot] d4
    by (simp add: res Prediction_new_def)
  have k: "position_x (snd (onServerState ?pr cruisingKart farSnapshot)) = 0"
    "heldItem (snd (onServerState ?pr cruisingKart farSnapshot)) = Some Missile"
    using reconciliation_policy[of ?pr cruisingKart farSnapshot]
    by (simp_all add: farSnapshot_def cruisingKart_def createServerKart_def)
  have b: "offsetLength (fst (applyLocal (?pr\<lparr>offset_x := 4\<rparr>) cruisingKart fullThrottle (1/10)))
           = 3.5"
    using reconciliation_policy[of "?pr\<lparr>offset_x := 4\<rparr>" cruisingKart farSnapshot fullThrottle "1/10"]
    by (simp add: o BLEND_RATE_def)
  show ?thesis using d1 d4 n f k b by (simp add: o)
qed

text \<open>A snapshot that puts the kart four units to the side and turned by one radian: the
  reconciliation sets the same offset as for a snapshot with the kart's own heading, and
  when the offset has been blended out the kart stands at the snapshot's position with its
  heading still its own.\<close>

theorem heading_is_not_reconciled_counterexample:
  "w_ry (farSnapshot\<lparr>w_ry := 1\<rparr>) = 1 \<and> rotation_y cruisingKart = 0
   \<and> fst (onServerState (Prediction_new []) cruisingKart (farSnapshot\<lparr>w_ry := 1\<rparr>))
        = (Prediction_new [])\<lparr>offset_x := 4\<rparr>
   \<and> rotation_y (snd (onServerState (Prediction_new []) cruisingKart (farSnapshot\<lparr>w_ry := 1\<rparr>))) = 0
   \<and> offsetLengthSq (fst (blendOffset 1 ((Prediction_new [])\<lparr>offset_x := 4\<rparr>)
         (snd (onServerState (Prediction_new []) cruisingKart (farSnapshot\<lparr>w_ry := 1\<rparr>))))) = 0
   \<and> position_x (snd (blendOffset 1 ((Prediction_new [])\<lparr>offset_x := 4\<rparr>)
         (snd (onServerState (Prediction_new []) cruisingKart (farSnapshot\<lparr>w_ry := 1\<rparr>))))) = 4
   \<and> rotation_y (snd (blendOffset 1 ((Prediction_new [])\<lparr>offset_x := 4\<rparr>)
         (snd (onServerState (Prediction_new []) cruisingKart (farSnapshot\<lparr>w_ry := 1\<rparr>))))) = 0"
proof -
  let ?pr = "Prediction_new []"
  let ?ss = "farSnapshot\<lparr>w_ry := 1\<rparr>"
  have d4: "\<not> serverDist cruisingKart ?ss < SNAP_THRESHOLD"
    by (simp add: serverDist_def farSnapshot_def cruisingKart_def createServerKart_def
        SNAP_THRESHOLD_def sqrt_sixteen)
  have f: "fst (onServerState ?pr cruisingKart ?ss) = ?pr\<lparr>offset_x := 4\<rparr>"
    unfolding onServerState_far[OF d4]
    by (simp add: farSnapshot_def cruisingKart_def createServerKart_def Prediction_new_def)
  have o: "offsetLengthSq (?pr\<lparr>offset_x := 4\<rparr>) = 16" "offsetLength (?pr\<lparr>offset_x := 4\<rparr>) = 4"
    by (simp_all add: offsetLength_def offsetLengthSq_def Prediction_new_def sqrt_sixteen)
  have b: "blendOffset 1 (?pr\<lparr>offset_x := 4\<rparr>) k
        = (?pr\<lparr>offset_x := 0, offset_y := 0, offset_z := 0\<rparr>,
           k\<lparr>position_x := position_x k + 4, position_y := position_y k + 0,
             position_z := position_z k + 0\<rparr>)" for k
    by (simp add: blendOffset_def Let_def o BLEND_RATE_def) (simp add: Prediction_new_def)
  show ?thesis
    by (simp add: f b onServerState_kart)
       (simp add: farSnapshot_def cruisingKart_def createServerKart_def offsetLengthSq_def)
qed

subsection \<open>The latest-input cell of a player\<close>

lemma handleInput_cell:
  "playerInputs (handleInput pid seq inp room) q
     = (if q = pid then Some (seq, inp) else playerInputs room q)"
  "playerLastSeq (handleInput pid seq inp room) q
     = (if q = pid then Some seq else playerLastSeq room q)"
  "bots (handleInput pid seq inp room) = bots room"
  by (simp_all add: handleInput_def)

lemma deliver_append: "deliver (msgs @ [m]) room = (case m of (pid, seq, inp) \<Rightarrow> handleInput pid seq inp (deliver msgs room))"
  by (simp add: deliver_def split: prod.splits)

lemma deliver_bots [simp]: "bots (deliver msgs room) = bots room"
proof (induction msgs rule: rev_induct)
  case Nil
  show ?case by (simp add: deliver_def)
next
  case (snoc m msgs)
  then show ?case by (simp add: deliver_append handleInput_cell split: prod.splits)
qed

text \<open>After any deliveries, the cell of a player holds the message delivered last for that
  player, whatever its sequence number.\<close>

lemma deliver_last:
  assumes "filter (\<lambda>m. fst m = pid) msgs \<noteq> []"
  shows "playerInputs (deliver msgs room) pid = Some (snd (last (filter (\<lambda>m. fst m = pid) msgs)))
       \<and> playerLastSeq (deliver msgs room) pid
           = Some (fst (snd (last (filter (\<lambda>m. fst m = pid) msgs))))"
  using assms
proof (induction msgs rule: rev_induct)
  case Nil
  then show ?case by simp
next
  case (snoc m msgs)
  obtain q seq inp where m: "m = (q, seq, inp)" by (cases m)
  show ?case
  proof (cases "q = pid")
    case True
    then show ?thesis by (simp add: deliver_append m handleInput_cell)
  next
    case False
    then have "filter (\<lambda>m. fst m = pid) msgs \<noteq> []" using snoc.prems m by simp
    from snoc.IH[OF this] False show ?thesis by (simp add: deliver_append m handleInput_cell)
  qed
qed

lemma deliver_untouched:
  assumes "filter (\<lambda>m. fst m = pid) msgs = []"
  shows "playerInputs (deliver msgs room) pid = playerInputs room pid
       \<and> playerLastSeq (deliver msgs room) pid = playerLastSeq room pid"
  using assms
proof (induction msgs rule: rev_induct)
  case Nil
  show ?case by (simp add: deliver_def)
next
  case (snoc m msgs)
  obtain q seq inp where m: "m = (q, seq, inp)" by (cases m)
  from snoc show ?case by (auto simp add: deliver_append m handleInput_cell split: if_splits)
qed

subsection \<open>The frame of a tick\<close>

lemma physicsStep_keeps [simp]:
  "players (physicsStep dt j room) = players room"
  "running (physicsStep dt j room) = running room"
  "tickInterval (physicsStep dt j room) = tickInterval room"
  "playerInputs (physicsStep dt j room) = playerInputs room"
  "tick (physicsStep dt j room) = tick room"
  by (simp_all add: physicsStep_def split: prod.splits option.splits)

lemma physicsLoop_keeps [simp]:
  "players (physicsLoop dt room) = players room"
  "running (physicsLoop dt room) = running room"
  "tickInterval (physicsLoop dt room) = tickInterval room"
  "playerInputs (physicsLoop dt room) = playerInputs room"
  "tick (physicsLoop dt room) = tick room"
proof -
  have "players (fold (physicsStep dt) js room) = players room
      \<and> running (fold (physicsStep dt) js room) = running room
      \<and> tickInterval (fold (physicsStep dt) js room) = tickInterval room
      \<and> playerInputs (fold (physicsStep dt) js room) = playerInputs room
      \<and> tick (fold (physicsStep dt) js room) = tick room" for js
    by (induction js arbitrary: room) simp_all
  then show "players (physicsLoop dt room) = players room"
    "running (physicsLoop dt room) = running room"
    "tickInterval (physicsLoop dt room) = tickInterval room"
    "playerInputs (physicsLoop dt room) = playerInputs room"
    "tick (physicsLoop dt room) = tick room"
    by (simp_all add: physicsLoop_def)
qed

lemma activateItemStep_keeps [simp]:
  "players (activateItemStep i room) = players room"
  "running (activateItemStep i room) = running room"
  "tickInterval (activateItemStep i room) = tickInterval room"
  "playerInputs (activateItemStep i room) = playerInputs room"
  "tick (activateItemStep i room) = tick room"
  by (simp_all add: activateItemStep_def Let_def split: prod.splits option.splits Item.splits)

lemma activateItems_keeps [simp]:
  "players (activateItems room) = players room"
  "running (activateItems room) = running room"
  "tickInterval (activateItems room) = tickInterval room"
  "playerInputs (activateItems room) = playerInputs room"
  "tick (activateItems room) = tick room"
proof -
  have "players (fold activateItemStep js room) = players room
      \<and> running (fold activateItemStep js room) = running room
      \<and> tickInterval (fold activateItemStep js room) = tickInterval room
      \<and> playerInputs (fold activateItemStep js room) = playerInputs room
      \<and> tick (fold activateItemStep js room) = tick room" for js
    by (induction js arbitrary: room) simp_all
  then show "players (activateItems room) = players room"
    "running (activateItems room) = running room"
    "tickInterval (activateItems room) = tickInterval room"
    "playerInputs (activateItems room) = playerInputs room"
    "tick (activateItems room) = tick room"
    by (simp_all add: activateItems_def)
qed

lemma clearTaps_keeps [simp]:
  "players (clearTaps room) = players room"
  "running (clearTaps room) = running room"
  "tickInterval (clearTaps room) = tickInterval room"
  "tick (clearTaps room) = tick room"
  by (simp_all add: clearTaps_def)

lemma activeTick_keeps [simp]:
  "players (fst (activeTick dt rng room)) = players room"
  "running (fst (activeTick dt rng room)) = running room"
  "tickInterval (fst (activeTick dt rng room)) = tickInterval room"
  "tick (fst (activeTick dt rng room)) = tick room"
  by (simp_all add: activeTick_def Let_def split: prod.splits)

lemma physicsStep_race [simp]: "race (physicsStep dt j room) = race room"
  by (simp add: physicsStep_def split: prod.splits option.splits)

lemma physicsLoop_race [simp]: "race (physicsLoop dt room) = race room"
proof -
  have "race (fold (physicsStep dt) js room) = race room" for js
    by (induction js arbitrary: room) simp_all
  then show ?thesis by (simp add: physicsLoop_def)
qed

lemma activateItemStep_race [simp]: "race (activateItemStep i room) = race room"
  by (simp add: activateItemStep_def Let_def split: prod.splits option.splits Item.splits)

lemma activateItems_race [simp]: "race (activateItems room) = race room"
proof -
  have "race (fold activateItemStep js room) = race room" for js
    by (induction js arbitrary: room) simp_all
  then show ?thesis by (simp add: activateItems_def)
qed

lemma activeTick_race: "race (fst (activeTick dt rng room)) = race room"
  by (simp add: activeTick_def Let_def clearTaps_def split: prod.splits)

lemma sendSnapshot_keeps [simp]:
  "players (fst (sendSnapshot rm room)) = players room"
  "running (fst (sendSnapshot rm room)) = running room"
  "tickInterval (fst (sendSnapshot rm room)) = tickInterval room"
  "karts (fst (sendSnapshot rm room)) = karts room"
  "playerInputs (fst (sendSnapshot rm room)) = playerInputs room"
  by (simp_all add: sendSnapshot_def)

lemma RaceManager_update_frozen:
  "isFrozen (RaceManager_update dt rm) = isFrozen (countdownStep dt rm)"
  "isFrozen (countdownStep dt rm) \<Longrightarrow> RaceManager_update dt rm = countdownStep dt rm"
  by (simp_all add: RaceManager_update_def Let_def isFrozen_def updatePositions_def)

text \<open>A frozen tick advances the tick counter and the countdown, hands out the snapshot when
  one is due (which empties the event list), and leaves every other field of the room as it
  is: karts, physics, bots, hazards and the stored player inputs with their tap flags.\<close>

lemma frozen_tick:
  assumes "race room = Some rm0"
    and "isFrozen (countdownStep TICK_DT (syncRace (karts room) rm0))"
  shows "map_option (\<lambda>(room', rng', msgs). (room', rng')) (GameRoom_tick rng room)
         = Some (room\<lparr>tick := tick room + 1,
                       race := Some (countdownStep TICK_DT (syncRace (karts room) rm0)),
                       events := (if (tick room + 1) mod SNAPSHOT_INTERVAL = 0 then []
                                  else events room)\<rparr>, rng)"
  using assms
  by (simp add: GameRoom_tick_def Let_def RaceManager_update_frozen sendSnapshot_def)

lemma activeTick_inputs:
  "playerInputs (fst (activeTick dt rng room)) = playerInputs (clearTaps room)"
  by (simp add: activeTick_def Let_def clearTaps_def split: prod.splits)

lemma active_tick_inputs:
  assumes "race room = Some rm0"
    and "\<not> isFrozen (countdownStep TICK_DT (syncRace (karts room) rm0))"
  shows "map_option (\<lambda>(room', rng', msgs). playerInputs room') (GameRoom_tick rng room)
         = Some (playerInputs (clearTaps room))"
proof -
  let ?rm = "RaceManager_update TICK_DT (syncRace (karts room) rm0)"
  let ?room2 = "room\<lparr>tick := tick room + 1, race := Some ?rm\<rparr>"
  have nf: "\<not> isFrozen ?rm" using assms(2) by (simp add: RaceManager_update_frozen)
  obtain room3 rng3 where a: "activeTick TICK_DT rng ?room2 = (room3, rng3)"
    by (cases "activeTick TICK_DT rng ?room2")
  have "playerInputs room3 = playerInputs (clearTaps ?room2)"
    using activeTick_inputs[of TICK_DT rng ?room2] a by simp
  then have "playerInputs room3 = playerInputs (clearTaps room)" by (simp add: clearTaps_def)
  then show ?thesis
    using assms(1) nf a by (simp add: GameRoom_tick_def Let_def sendSnapshot_def)
qed

subsection \<open>Starting a game\<close>

lemma addPlayerKart_keeps [simp]:
  "players (addPlayerKart md e room) = players room"
  "running (addPlayerKart md e room) = running room"
  "playerInputs (addPlayerKart md e room) = playerInputs room"
  "bots (addPlayerKart md e room) = bots room"
  by (simp_all add: addPlayerKart_def Let_def split: prod.splits)

lemma addBotKart_keeps [simp]:
  "players (addBotKart md used s room) = players room"
  "running (addBotKart md used s room) = running room"
  "playerInputs (addBotKart md used s room) = playerInputs room"
  by (simp_all add: addBotKart_def Let_def)

lemma fold_addPlayerKart_keeps [simp]:
  "players (fold (addPlayerKart md) es room) = players room"
  "running (fold (addPlayerKart md) es room) = running room"
  "playerInputs (fold (addPlayerKart md) es room) = playerInputs room"
  "bots (fold (addPlayerKart md) es room) = bots room"
  by (induction es arbitrary: room) simp_all

lemma fold_addBotKart_keeps [simp]:
  "players (fold (addBotKart md used) ss room) = players room"
  "running (fold (addBotKart md used) ss room) = running room"
  "playerInputs (fold (addBotKart md used) ss room) = playerInputs room"
  by (induction ss arbitrary: room) simp_all

lemma startGame_loaded_keeps [simp]:
  "players (startGame_loaded md room) = players room"
  "running (startGame_loaded md room) = running room"
  "playerInputs (startGame_loaded md room) = playerInputs room"
  "tickInterval (startGame_loaded md room)"
  by (simp_all add: startGame_loaded_def Let_def split: prod.splits)

lemma startGame_loaded_race:
  "\<exists>cps rs fl. race (startGame_loaded md room) = Some (RaceManager_new cps rs fl)"
  by (auto simp add: startGame_loaded_def Let_def split: prod.splits)

lemma fresh_race_frozen:
  "isFrozen (countdownStep TICK_DT (syncRace ks (RaceManager_new cps rs fl)))"
  by (simp add: isFrozen_def countdownStep_def syncRace_def RaceManager_new_def TICK_DT_def
      TICK_RATE_def COUNTDOWN_DURATION_def Let_def)

lemma countdownRoom_facts:
  "playerInputs countdownRoom ''p1'' = Some (2, secondInput)"
  "\<exists>cps rs fl. race countdownRoom = Some (RaceManager_new cps rs fl)"
  "running countdownRoom" "tickInterval countdownRoom"
proof -
  show "playerInputs countdownRoom ''p1'' = Some (2, secondInput)"
    by (simp add: countdownRoom_def handleInput_def)
  show "\<exists>cps rs fl. race countdownRoom = Some (RaceManager_new cps rs fl)"
    using startGame_loaded_race[of flatMap]
    by (simp add: countdownRoom_def handleInput_def)
  show "running countdownRoom" "tickInterval countdownRoom"
    by (simp_all add: countdownRoom_def handleInput_def startGame_begin_def)
qed

text \<open>
  C5 at the room in its countdown with a hop tap stored for player p1. The tick is frozen and
  leaves the karts as they are, but the stored input is not consumed: its tap flag is still
  set after the tick. One tick before \<open>go\<close> the same holds for the room as it enters the tick;
  that tick is the first one that is not frozen, it runs with the stored input, and only it
  clears the tap.
\<close>

theorem frozen_tick_keeps_buffered_tap:
  "map_option (\<lambda>(room', rng', msgs).
       (map_option isFrozen (race room'), karts room' = karts countdownRoom,
        map_option (\<lambda>stored. hopZTap (snd stored)) (playerInputs room' ''p1'')))
     (GameRoom_tick zeroRng countdownRoom) = Some (Some True, True, Some True)
   \<and> map_option (\<lambda>stored. hopZTap (snd stored)) (playerInputs lastFrozenRoom ''p1'') = Some True
   \<and> map_option isFrozen (race lastFrozenRoom) = Some True
   \<and> map_option (\<lambda>(room', rng', msgs).
       (map_option isFrozen (race room'),
        map_option (\<lambda>stored. hopZTap (snd stored)) (playerInputs room' ''p1'')))
     (GameRoom_tick zeroRng lastFrozenRoom) = Some (Some False, Some False)"
proof -
  obtain cps rs fl where r: "race countdownRoom = Some (RaceManager_new cps rs fl)"
    using countdownRoom_facts(2) by blast
  let ?rm0 = "RaceManager_new cps rs fl"
  have fz: "isFrozen (countdownStep TICK_DT (syncRace (karts countdownRoom) ?rm0))"
    by (rule fresh_race_frozen)
  have tap: "hopZTap secondInput" by (simp add: secondInput_def noInput_def)
  obtain room' rng' msgs where t: "GameRoom_tick zeroRng countdownRoom = Some (room', rng', msgs)"
    using frozen_tick[OF r fz, of zeroRng] by (cases "GameRoom_tick zeroRng countdownRoom") auto
  from frozen_tick[OF r fz, of zeroRng] t
  have room': "room' = countdownRoom\<lparr>tick := tick countdownRoom + 1,
                 race := Some (countdownStep TICK_DT (syncRace (karts countdownRoom) ?rm0)),
                 events := (if (tick countdownRoom + 1) mod SNAPSHOT_INTERVAL = 0 then []
                            else events countdownRoom)\<rparr>"
    by simp
  have a: "map_option (\<lambda>(room', rng', msgs).
       (map_option isFrozen (race room'), karts room' = karts countdownRoom,
        map_option (\<lambda>stored. hopZTap (snd stored)) (playerInputs room' ''p1'')))
     (GameRoom_tick zeroRng countdownRoom) = Some (Some True, True, Some True)"
    unfolding t using fz tap by (simp add: room' countdownRoom_facts(1))
  let ?rm1 = "?rm0\<lparr>countdownTimer := 1.01, countdownValue := 1\<rparr>"
  have r1: "race lastFrozenRoom = Some ?rm1" by (simp add: lastFrozenRoom_def r)
  have in1: "playerInputs lastFrozenRoom ''p1'' = Some (2, secondInput)"
    by (simp add: lastFrozenRoom_def countdownRoom_facts(1))
  have fz1: "isFrozen ?rm1" by (simp add: isFrozen_def)
  have nf: "\<not> isFrozen (countdownStep TICK_DT (syncRace (karts lastFrozenRoom) ?rm1))"
    by (simp add: isFrozen_def countdownStep_def syncRace_def TICK_DT_def TICK_RATE_def Let_def)
  obtain room2 rng2 msgs2 where
    t2: "GameRoom_tick zeroRng lastFrozenRoom = Some (room2, rng2, msgs2)"
    using active_tick_inputs[OF r1 nf, of zeroRng]
    by (cases "GameRoom_tick zeroRng lastFrozenRoom") auto
  from active_tick_inputs[OF r1 nf, of zeroRng] t2
  have i2: "playerInputs room2 = playerInputs (clearTaps lastFrozenRoom)" by simp
  have f2: "map_option isFrozen (race room2) = Some False"
  proof -
    let ?rm = "RaceManager_update TICK_DT (syncRace (karts lastFrozenRoom) ?rm1)"
    have nfu: "\<not> isFrozen ?rm" using nf by (simp add: RaceManager_update_frozen)
    have "race (fst (activeTick TICK_DT zeroRng
                 (lastFrozenRoom\<lparr>tick := tick lastFrozenRoom + 1, race := Some ?rm\<rparr>))) = Some ?rm"
      by (simp add: activeTick_race)
    then have "race room2 = Some ?rm"
      using t2 r1 nfu
      by (auto simp add: GameRoom_tick_def Let_def sendSnapshot_def split: prod.splits if_splits)
    then show ?thesis using nfu by simp
  qed
  have b: "map_option (\<lambda>(room', rng', msgs).
       (map_option isFrozen (race room'),
        map_option (\<lambda>stored. hopZTap (snd stored)) (playerInputs room' ''p1'')))
     (GameRoom_tick zeroRng lastFrozenRoom) = Some (Some False, Some False)"
    unfolding t2 using f2 by (simp add: i2 clearTaps_def in1)
  show ?thesis using a b tap fz1 by (simp add: in1 r1)
qed

subsection \<open>Rooms that become empty\<close>

lemma set_alist_update: "set (AList.update k v xs) \<subseteq> insert (k, v) (set xs)"
  by (induction xs) auto

lemma set_alist_delete: "set (AList.delete k xs) \<subseteq> set xs"
  by (auto simp add: AList.delete_eq)

lemma registryOk_update:
  "registryOk lb \<Longrightarrow> roomOk room \<Longrightarrow> registryOk (lb\<lparr>rooms := AList.update rid room (rooms lb)\<rparr>)"
  using set_alist_update[of rid room "rooms lb"] by (auto simp add: registryOk_def)

lemma registryOk_delete:
  "registryOk lb \<Longrightarrow> registryOk (lb\<lparr>rooms := AList.delete rid (rooms lb)\<rparr>)"
  using set_alist_delete[of rid "rooms lb"] by (auto simp add: registryOk_def)

lemma registryOk_clients [simp]: "registryOk (lb\<lparr>clients := cs\<rparr>) = registryOk lb"
  by (simp add: registryOk_def)

lemma registryOk_nextRoomId [simp]: "registryOk (lb\<lparr>nextRoomId := n\<rparr>) = registryOk lb"
  by (simp add: registryOk_def)

lemma registryOk_lookup:
  "registryOk lb \<Longrightarrow> map_of (rooms lb) rid = Some room \<Longrightarrow> roomOk room"
  using map_of_SomeD[of "rooms lb" rid room] by (force simp add: registryOk_def)

lemma removePlayer_keeps [simp]:
  "running (removePlayer pid room) = running room"
  "tickInterval (removePlayer pid room) = tickInterval room"
  "players (removePlayer pid room) = AList.delete pid (players room)"
  by (simp_all add: removePlayer_def convertToBot_def Let_def split: option.splits)

lemma leaveRoomOf_ok:
  assumes "registryOk lb"
  shows "registryOk (leaveRoomOf c rid lb)"
proof (cases "map_of (rooms lb) rid")
  case None
  then show ?thesis using assms by (simp add: leaveRoomOf_def)
next
  case (Some room)
  let ?room' = "removePlayer (playerId c) room"
  have ok: "roomOk room" using assms Some by (rule registryOk_lookup)
  show ?thesis
  proof (cases "playerCount ?room' = 0 \<and> \<not> running ?room'")
    case True
    then show ?thesis using Some registryOk_delete[OF assms, of rid] by (simp add: leaveRoomOf_def Let_def)
  next
    case False
    then have "roomOk ?room'" using ok by (auto simp add: roomOk_def)
    then show ?thesis
      using Some False registryOk_update[OF assms, of ?room' rid]
      by (auto simp add: leaveRoomOf_def Let_def)
  qed
qed

lemma removeClient_ok: "registryOk lb \<Longrightarrow> registryOk (removeClient w lb)"
  by (simp add: removeClient_def Let_def leaveRoomOf_ok split: option.splits)

lemma leaveRoom_ok: "registryOk lb \<Longrightarrow> registryOk (leaveRoom w c lb)"
  by (simp add: leaveRoom_def Let_def leaveRoomOf_ok split: option.splits)

lemma length_alist_update: "length (AList.update k v xs) \<ge> 1"
  by (cases xs) simp_all

lemma length_alist_update_same:
  "map_of xs k = Some u \<Longrightarrow> length (AList.update k v xs) = length xs"
  by (induction xs) (auto split: if_splits)

lemma addPlayer_ok: "\<not> running room \<Longrightarrow> \<not> tickInterval room \<Longrightarrow> roomOk (addPlayer pid w room)"
  using length_alist_update[of pid _ "players room"]
  by (auto simp add: roomOk_def addPlayer_def playerCount_def)

lemma addPlayer_ok2: "roomOk room \<Longrightarrow> roomOk (addPlayer pid w room)"
  using length_alist_update[of pid _ "players room"]
  by (auto simp add: roomOk_def addPlayer_def playerCount_def)

lemma toggleReady_ok: "roomOk room \<Longrightarrow> roomOk (toggleReady pid room)"
  by (auto simp add: roomOk_def toggleReady_def playerCount_def length_alist_update_same
      split: option.splits)

lemma startGame_begin_ok: "roomOk room \<Longrightarrow> \<not> tickInterval room \<or> running room \<Longrightarrow> roomOk (startGame_begin room)"
  by (auto simp add: roomOk_def startGame_begin_def playerCount_def)

lemma handleInput_ok: "roomOk room \<Longrightarrow> roomOk (handleInput pid seq inp room)"
  by (simp add: roomOk_def handleInput_def playerCount_def)

lemma startGame_loaded_ok: "roomOk room \<Longrightarrow> running room \<Longrightarrow> roomOk (startGame_loaded md room)"
  by (simp add: roomOk_def playerCount_def)


lemma tick_frame:
  assumes "GameRoom_tick rng room = Some (room', rng', msgs)"
  shows "players room' = players room \<and> running room' = running room
       \<and> tickInterval room' = tickInterval room"
proof -
  obtain rm0 where r: "race room = Some rm0"
    using assms by (cases "race room") (simp_all add: GameRoom_tick_def)
  define rm where
    "rm = RaceManager_update TICK_DT (syncRace (karts (room\<lparr>tick := tick room + 1\<rparr>)) rm0)"
  define room2 where "room2 = room\<lparr>tick := tick room + 1\<rparr>\<lparr>race := Some rm\<rparr>"
  define step where "step = (if \<not> isFrozen rm then activeTick TICK_DT rng room2 else (room2, rng))"
  have two: "players room2 = players room \<and> running room2 = running room
       \<and> tickInterval room2 = tickInterval room"
    by (simp add: room2_def)
  have three: "players (fst step) = players room \<and> running (fst step) = running room
       \<and> tickInterval (fst step) = tickInterval room"
    using two by (simp add: step_def)
  obtain room3 rng3 where st: "step = (room3, rng3)" by (cases step)
  have "GameRoom_tick rng room =
        (case step of (room3, rng') \<Rightarrow>
          (if tick room3 mod SNAPSHOT_INTERVAL = 0
           then (case sendSnapshot rm room3 of (room4, msgs) \<Rightarrow> Some (room4, rng', msgs))
           else Some (room3, rng', [])))"
    unfolding GameRoom_tick_def Let_def rm_def room2_def step_def
    by (simp only: r option.case)
  then have tk: "GameRoom_tick rng room =
        (if tick room3 mod SNAPSHOT_INTERVAL = 0
         then (case sendSnapshot rm room3 of (room4, msgs) \<Rightarrow> Some (room4, rng3, msgs))
         else Some (room3, rng3, []))"
    by (simp only: st prod.case)
  have out: "room' = (if tick room3 mod SNAPSHOT_INTERVAL = 0
                      then fst (sendSnapshot rm room3) else room3)"
    using assms unfolding tk by (auto split: prod.splits if_splits)
  have "fst step = room3" using st by simp
  then show ?thesis using three by (auto simp add: out)
qed

lemma tick_ok:
  assumes "roomOk room" "GameRoom_tick rng room = Some (room', rng', msgs)"
  shows "roomOk room'"
  using assms(1) tick_frame[OF assms(2)] by (simp add: roomOk_def playerCount_def)


lemma reachable_runServer: "reachable (runServer evs)"
proof -
  have "reachable lb \<Longrightarrow> reachable (fold serverStep evs lb)" for lb
    by (induction evs arbitrary: lb) (simp_all add: reach_step)
  then show ?thesis by (simp add: runServer_def reach_init)
qed

lemma roomName_1: "roomName (Suc 0) = ''room1''"
  by (simp add: roomName_def)

lemma created_lobby:
  "runServer [Connect 1 ''p1'', Message 1 (LobbyCreate None ''flat'')]
   = \<lparr>rooms = [(''room1'', lobbyRoom)],
      clients = [(1, \<lparr>playerId = ''p1'', roomId = Some ''room1''\<rparr>)], nextRoomId = 2\<rparr>"
  by (simp add: runServer_def serverStep_def addClient_def handleMessage_def
      LobbyManager_new_def setClientRoom_def roomName_1 Let_def lobbyRoom_def)

lemma lobbyRoom_fields:
  "players lobbyRoom = [(''p1'', \<lparr>ws = 1, ready = False, slot = 0\<rparr>)]"
  "running lobbyRoom = False"
  "tickInterval lobbyRoom = False"
  by (simp_all add: lobbyRoom_def addPlayer_def GameRoom_new_def nextSlot_def upt_conv_Cons)

lemma readied_room:
  "players (toggleReady ''p1'' lobbyRoom) = [(''p1'', \<lparr>ws = 1, ready = True, slot = 0\<rparr>)]"
  "running (toggleReady ''p1'' lobbyRoom) = False"
  "tickInterval (toggleReady ''p1'' lobbyRoom) = False"
  by (simp_all add: toggleReady_def lobbyRoom_fields)

lemma startedRoom_fields:
  "players startedRoom = [(''p1'', \<lparr>ws = 1, ready = True, slot = 0\<rparr>)]"
  "running startedRoom" "tickInterval startedRoom"
  by (simp_all add: startedRoom_def startGame_begin_def readied_room)

lemma started_lobby:
  "runServer [Connect 1 ''p1'', Message 1 (LobbyCreate None ''flat''), Message 1 LobbyReady,
      MapLoaded ''room1'' flatMap]
   = \<lparr>rooms = [(''room1'', startedRoom)],
      clients = [(1, \<lparr>playerId = ''p1'', roomId = Some ''room1''\<rparr>)], nextRoomId = 2\<rparr>"
proof -
  have "runServer [Connect 1 ''p1'', Message 1 (LobbyCreate None ''flat''), Message 1 LobbyReady,
      MapLoaded ''room1'' flatMap]
    = serverStep (MapLoaded ''room1'' flatMap) (serverStep (Message 1 LobbyReady)
        (runServer [Connect 1 ''p1'', Message 1 (LobbyCreate None ''flat'')]))"
    by (simp add: runServer_def)
  also have "\<dots> = \<lparr>rooms = [(''room1'', startedRoom)],
      clients = [(1, \<lparr>playerId = ''p1'', roomId = Some ''room1''\<rparr>)], nextRoomId = 2\<rparr>"
    unfolding created_lobby
    by (simp add: serverStep_def handleMessage_def Let_def allReady_def playerCount_def
        readied_room startGame_begin_def startedRoom_def)
  finally show ?thesis .
qed
lemma abandoned_room:
  "players (removePlayer ''p1'' startedRoom) = []"
  "running (removePlayer ''p1'' startedRoom)"
  "tickInterval (removePlayer ''p1'' startedRoom)"
  by (simp_all add: startedRoom_fields)

lemma runServer_snoc: "runServer (evs @ [ev]) = serverStep ev (runServer evs)"
  by (simp add: runServer_def)

text \<open>A running room whose only player leaves, or whose only connection closes, stays in the
  registry with no player, still running and with its tick interval set.\<close>

theorem running_room_survives_last_player_counterexample:
  "roomStatus (runServer abandonedByLeave) ''room1'' = Some (0, True, True)
   \<and> roomStatus (runServer abandonedByClose) ''room1'' = Some (0, True, True)"
proof -
  have l: "abandonedByLeave = [Connect 1 ''p1'', Message 1 (LobbyCreate None ''flat''),
      Message 1 LobbyReady, MapLoaded ''room1'' flatMap] @ [Message 1 LobbyLeave]"
    by (simp add: abandonedByLeave_def)
  have c: "abandonedByClose = [Connect 1 ''p1'', Message 1 (LobbyCreate None ''flat''),
      Message 1 LobbyReady, MapLoaded ''room1'' flatMap] @ [Close 1]"
    by (simp add: abandonedByClose_def)
  have "roomStatus (runServer abandonedByLeave) ''room1'' = Some (0, True, True)"
    unfolding l runServer_snoc started_lobby
    by (simp add: serverStep_def handleMessage_def leaveRoom_def leaveRoomOf_def Let_def
        roomStatus_def playerCount_def startedRoom_fields)
  moreover have "roomStatus (runServer abandonedByClose) ''room1'' = Some (0, True, True)"
    unfolding c runServer_snoc started_lobby
    by (simp add: serverStep_def removeClient_def leaveRoomOf_def Let_def
        roomStatus_def playerCount_def startedRoom_fields)
  ultimately show ?thesis by simp
qed


lemma registryOk_rooms:
  "registryOk lb \<Longrightarrow> roomOk room \<Longrightarrow> rooms lb' = AList.update rid room (rooms lb)
    \<Longrightarrow> registryOk lb'"
  using set_alist_update[of rid room "rooms lb"] by (auto simp add: registryOk_def)

lemma registryOk_same: "registryOk lb \<Longrightarrow> rooms lb' = rooms lb \<Longrightarrow> registryOk lb'"
  by (simp add: registryOk_def)

lemma GameRoom_new_ok: "roomOk (addPlayer pid w (GameRoom_new rid nm mid))"
  by (rule addPlayer_ok) (simp_all add: GameRoom_new_def)

lemma left_ok:
  "registryOk lb \<Longrightarrow> registryOk (if roomId c \<noteq> None then leaveRoom w c lb else lb)"
  by (simp add: leaveRoom_ok)

lemma handleMessage_ok:
  assumes ok: "registryOk lb"
  shows "registryOk (handleMessage w msg lb)"
proof (cases "map_of (clients lb) w")
  case None
  then show ?thesis using ok by (simp add: handleMessage_def)
next
  case (Some c)
  define lb1 where "lb1 = (if roomId c \<noteq> None then leaveRoom w c lb else lb)"
  have ok1: "registryOk lb1" unfolding lb1_def using ok by (rule left_ok)
  show ?thesis
  proof (cases msg)
    case LobbyList
    then show ?thesis using ok Some by (simp add: handleMessage_def)
  next
    case (LobbyCreate nm mid)
    show ?thesis
      unfolding handleMessage_def Let_def
      by (simp only: Some LobbyCreate option.case ClientMessage.case lb1_def[symmetric])
         (rule registryOk_rooms[OF ok1 GameRoom_new_ok], simp add: setClientRoom_def)
  next
    case (LobbyJoin rid)
    have hm: "handleMessage w msg lb =
        (case map_of (rooms lb1) rid of
           None \<Rightarrow> lb1
         | Some room \<Rightarrow>
             if running room \<or> playerCount room \<ge> 4 then lb1
             else setClientRoom w c rid
                    (lb1\<lparr>rooms := AList.update rid (addPlayer (playerId c) w room)
                                       (rooms lb1)\<rparr>))"
      unfolding handleMessage_def Let_def
      by (simp only: Some LobbyJoin option.case ClientMessage.case lb1_def[symmetric])
    show ?thesis
    proof (cases "map_of (rooms lb1) rid")
      case None
      then show ?thesis using ok1 by (simp add: hm)
    next
      case (Some room)
      have "roomOk room" using ok1 Some by (rule registryOk_lookup)
      then have "roomOk (addPlayer (playerId c) w room)" by (rule addPlayer_ok2)
      then have "registryOk (setClientRoom w c rid
                   (lb1\<lparr>rooms := AList.update rid (addPlayer (playerId c) w room) (rooms lb1)\<rparr>))"
        by (rule registryOk_rooms[OF ok1]) (simp add: setClientRoom_def)
      then show ?thesis using ok1 Some by (simp add: hm)
    qed
  next
    case LobbyLeave
    then show ?thesis using ok1 Some by (simp add: handleMessage_def lb1_def)
  next
    case LobbyReady
    show ?thesis
    proof (cases "roomId c")
      case None
      then show ?thesis using ok Some LobbyReady by (simp add: handleMessage_def)
    next
      case (Some rid)
      note rid = this
      show ?thesis
      proof (cases "map_of (rooms lb) rid")
        case None
        then show ?thesis using ok rid \<open>map_of (clients lb) w = Some c\<close> LobbyReady
          by (simp add: handleMessage_def)
      next
        case (Some room)
        have "roomOk room" using ok Some by (rule registryOk_lookup)
        then have t: "roomOk (toggleReady (playerId c) room)" by (rule toggleReady_ok)
        then have "roomOk (startGame_begin (toggleReady (playerId c) room))"
          by (auto simp add: roomOk_def startGame_begin_def playerCount_def)
        with t have "roomOk (if allReady (toggleReady (playerId c) room)
                          \<and> playerCount (toggleReady (playerId c) room) \<ge> 1
                       then startGame_begin (toggleReady (playerId c) room)
                       else toggleReady (playerId c) room)" by simp
        then have "registryOk (lb\<lparr>rooms := AList.update rid
                      (if allReady (toggleReady (playerId c) room)
                          \<and> playerCount (toggleReady (playerId c) room) \<ge> 1
                       then startGame_begin (toggleReady (playerId c) room)
                       else toggleReady (playerId c) room) (rooms lb)\<rparr>)"
          by (rule registryOk_rooms[OF ok]) simp
        then show ?thesis using Some rid \<open>map_of (clients lb) w = Some c\<close> LobbyReady
          by (simp add: handleMessage_def Let_def)
      qed
    qed
  next
    case (InputMessage seq inp)
    show ?thesis
    proof (cases "roomId c")
      case None
      then show ?thesis using ok Some InputMessage by (simp add: handleMessage_def)
    next
      case (Some rid)
      note rid = this
      show ?thesis
      proof (cases "map_of (rooms lb) rid")
        case None
        then show ?thesis using ok rid \<open>map_of (clients lb) w = Some c\<close> InputMessage
          by (simp add: handleMessage_def)
      next
        case (Some room)
        have "roomOk room" using ok Some by (rule registryOk_lookup)
        then have "roomOk (handleInput (playerId c) seq inp room)" by (rule handleInput_ok)
        then have "registryOk (lb\<lparr>rooms := AList.update rid
                      (handleInput (playerId c) seq inp room) (rooms lb)\<rparr>)"
          by (rule registryOk_rooms[OF ok]) simp
        then show ?thesis using ok Some rid \<open>map_of (clients lb) w = Some c\<close> InputMessage
          by (simp add: handleMessage_def Let_def)
      qed
    qed
  next
    case OtherMessage
    then show ?thesis using ok Some by (simp add: handleMessage_def)
  qed
qed

lemma serverStep_ok:
  assumes ok: "registryOk lb"
  shows "registryOk (serverStep ev lb)"
proof (cases ev)
  case (Connect w pid)
  then show ?thesis using ok by (simp add: serverStep_def addClient_def)
next
  case (Close w)
  then show ?thesis using ok by (simp add: serverStep_def removeClient_ok)
next
  case (Message w msg)
  then show ?thesis using ok by (simp add: serverStep_def handleMessage_ok)
next
  case (MapLoaded rid md)
  show ?thesis
  proof (cases "map_of (rooms lb) rid")
    case None
    then show ?thesis using ok MapLoaded by (simp add: serverStep_def)
  next
    case (Some room)
    have r: "roomOk room" using ok Some by (rule registryOk_lookup)
    show ?thesis
    proof (cases "running room")
      case True
      with r have "roomOk (startGame_loaded md room)" by (rule startGame_loaded_ok)
      then have "registryOk (lb\<lparr>rooms := AList.update rid (startGame_loaded md room) (rooms lb)\<rparr>)"
        by (rule registryOk_rooms[OF ok]) simp
      then show ?thesis using Some True MapLoaded by (simp add: serverStep_def)
    next
      case False
      then show ?thesis using ok Some MapLoaded by (simp add: serverStep_def)
    qed
  qed
next
  case (TimerTick rid rng)
  show ?thesis
  proof (cases "map_of (rooms lb) rid")
    case None
    then show ?thesis using ok TimerTick by (simp add: serverStep_def)
  next
    case (Some room)
    have r: "roomOk room" using ok Some by (rule registryOk_lookup)
    show ?thesis
    proof (cases "GameRoom_tick rng room")
      case None
      then show ?thesis using ok Some TimerTick by (simp add: serverStep_def)
    next
      case (Some res)
      obtain room' rng' msgs where res: "res = (room', rng', msgs)" by (cases res)
      have t: "GameRoom_tick rng room = Some (room', rng', msgs)" using Some res by simp
      have "roomOk room'" using r t by (rule tick_ok)
      then have "registryOk (lb\<lparr>rooms := AList.update rid room' (rooms lb)\<rparr>)"
        by (rule registryOk_rooms[OF ok]) simp
      then show ?thesis using ok \<open>map_of (rooms lb) rid = Some room\<close> t TimerTick
        by (simp add: serverStep_def)
    qed
  qed
qed

lemma reachable_ok: "reachable lb \<Longrightarrow> registryOk lb"
proof (induction rule: reachable.induct)
  case reach_init
  show ?case by (simp add: registryOk_def LobbyManager_new_def)
next
  case (reach_step lb ev)
  then show ?case by (simp add: serverStep_ok)
qed


lemma last_player_goes:
  assumes c: "map_of (clients lb) w = Some c" and rid: "roomId c = Some rid"
    and room: "map_of (rooms lb) rid = Some room"
    and empty: "playerCount (removePlayer (playerId c) room) = 0"
  shows "roomStatus (serverStep (Close w) lb) rid
           = (if running room then Some (0, True, tickInterval room) else None)"
    and "roomStatus (serverStep (Message w LobbyLeave) lb) rid
           = (if running room then Some (0, True, tickInterval room) else None)"
proof -
  have l: "roomStatus (leaveRoomOf c rid lb) rid
           = (if running room then Some (0, True, tickInterval room) else None)"
    using room empty
    by (simp add: leaveRoomOf_def Let_def roomStatus_def AList.delete_conv' AList.update_conv')
  show "roomStatus (serverStep (Close w) lb) rid
           = (if running room then Some (0, True, tickInterval room) else None)"
    using l c rid by (simp add: serverStep_def removeClient_def Let_def roomStatus_def)
  show "roomStatus (serverStep (Message w LobbyLeave) lb) rid
           = (if running room then Some (0, True, tickInterval room) else None)"
    using l c rid
    by (simp add: serverStep_def handleMessage_def leaveRoom_def Let_def roomStatus_def)
qed

text \<open>
  C9 (amended). In every reachable state of the registry, a room of the registry that has no
  player is a running one, and a room that is not running has no tick interval. When the
  last player of a room leaves (\<open>lobby:leave\<close>) or its connection closes, a room that is not
  running is removed from the registry; a room that is running stays in the registry with no
  player and with the tick interval it had.
\<close>

theorem empty_room_in_registry_is_running:
  assumes "reachable lb"
  shows "registryOk lb
       \<and> (\<forall>w c rid room.
            map_of (clients lb) w = Some c \<and> roomId c = Some rid
            \<and> map_of (rooms lb) rid = Some room
            \<and> playerCount (removePlayer (playerId c) room) = 0 \<longrightarrow>
            roomStatus (serverStep (Close w) lb) rid
              = (if running room then Some (0, True, tickInterval room) else None)
            \<and> roomStatus (serverStep (Message w LobbyLeave) lb) rid
              = (if running room then Some (0, True, tickInterval room) else None))"
  using reachable_ok[OF assms] last_player_goes by blast

theorem empty_room_in_registry_is_running_witness:
  "reachable (runServer roomCreated)
   \<and> roomStatus (runServer roomCreated) ''room1'' = Some (1, False, False)
   \<and> roomStatus (serverStep (Close 1) (runServer roomCreated)) ''room1'' = None
   \<and> roomStatus (serverStep (Message 1 LobbyLeave) (runServer roomCreated)) ''room1'' = None"
proof -
  let ?lb = "runServer roomCreated"
  let ?c = "\<lparr>playerId = ''p1'', roomId = Some ''room1''\<rparr>"
  have lb: "?lb = \<lparr>rooms = [(''room1'', lobbyRoom)], clients = [(1, ?c)], nextRoomId = 2\<rparr>"
    unfolding roomCreated_def by (rule created_lobby)
  have r: "reachable ?lb" by (rule reachable_runServer)
  have h: "map_of (clients ?lb) 1 = Some ?c \<and> roomId ?c = Some ''room1''
         \<and> map_of (rooms ?lb) ''room1'' = Some lobbyRoom
         \<and> playerCount (removePlayer (playerId ?c) lobbyRoom) = 0"
    by (simp add: lb playerCount_def lobbyRoom_fields)
  have s: "roomStatus ?lb ''room1'' = Some (1, False, False)"
    by (simp add: lb roomStatus_def playerCount_def lobbyRoom_fields)
  from empty_room_in_registry_is_running[OF r, THEN conjunct2, rule_format, OF h] r s
  show ?thesis by (simp add: lobbyRoom_fields)
qed

subsection \<open>The input a tick reads\<close>

lemma activeTick_phases:
  "activeTick dt rng room
     = stepsAfterPhysics dt (snd (botsLoop dt (karts room) rng (bots room)))
         (physicsStage dt rng room (length (physics room)))"
  unfolding activeTick_def stepsAfterPhysics_def physicsStage_def physicsLoop_def Let_def
  by (cases "botsLoop dt (karts room) rng (bots room)") simp

lemma tick_phases:
  assumes "race room = Some rm0"
    and "\<not> isFrozen (countdownStep TICK_DT (syncRace (karts room) rm0))"
  shows "map_option fst (GameRoom_tick rng room)
     = Some (tickEnd (fst (stepsAfterPhysics TICK_DT
                (snd (botsLoop TICK_DT (karts room) rng (bots room)))
                (physicsStage TICK_DT rng (tickStart rm0 room) (length (physics room))))))"
proof -
  let ?rm = "RaceManager_update TICK_DT (syncRace (karts room) rm0)"
  have nf: "\<not> isFrozen ?rm" using assms(2) by (simp add: RaceManager_update_frozen)
  have s: "room\<lparr>tick := tick room + 1\<rparr>\<lparr>race := Some ?rm\<rparr> = tickStart rm0 room"
    by (simp add: tickStart_def)
  obtain room3 rng3 where a: "activeTick TICK_DT rng (tickStart rm0 room) = (room3, rng3)"
    by (cases "activeTick TICK_DT rng (tickStart rm0 room)")
  have "GameRoom_tick rng room =
        (if tick room3 mod SNAPSHOT_INTERVAL = 0
         then (case sendSnapshot ?rm room3 of (room4, msgs) \<Rightarrow> Some (room4, rng3, msgs))
         else Some (room3, rng3, []))"
    using assms(1) nf a[unfolded tickStart_def] unfolding GameRoom_tick_def Let_def
    by (simp cong: if_cong del: activeTick_keeps)
  then have "map_option fst (GameRoom_tick rng room) = Some (tickEnd room3)"
    by (simp add: tickEnd_def sendSnapshot_def)
  moreover have "room3 = fst (stepsAfterPhysics TICK_DT
                (snd (botsLoop TICK_DT (karts room) rng (bots room)))
                (physicsStage TICK_DT rng (tickStart rm0 room) (length (physics room))))"
  proof -
    have "fst (activeTick TICK_DT rng (tickStart rm0 room)) = room3" using a by simp
    moreover have "karts (tickStart rm0 room) = karts room" "bots (tickStart rm0 room) = bots room"
      "physics (tickStart rm0 room) = physics room" by (simp_all add: tickStart_def)
    ultimately show ?thesis
      using activeTick_phases[of TICK_DT rng "tickStart rm0 room"] by simp
  qed
  ultimately show ?thesis by simp
qed


lemma physicsStep_keeps2 [simp]:
  "bots (physicsStep dt j room) = bots room"
  "length (physics (physicsStep dt j room)) = length (physics room)"
  "map fst (physics (physicsStep dt j room)) = map fst (physics room)"
proof -
  show "bots (physicsStep dt j room) = bots room"
    by (simp add: physicsStep_def split: prod.splits option.splits)
  show "length (physics (physicsStep dt j room)) = length (physics room)"
    by (simp add: physicsStep_def split: prod.splits option.splits)
  show "map fst (physics (physicsStep dt j room)) = map fst (physics room)"
  proof (cases "j < length (physics room)")
    case True
    then have "(map fst (physics room))[j := fst (physics room ! j)] = map fst (physics room)"
      by (simp add: list_update_same_conv)
    then show ?thesis
      by (auto simp add: physicsStep_def map_update split: prod.splits option.splits)
  next
    case False
    then show ?thesis
      by (auto simp add: physicsStep_def list_update_beyond split: prod.splits option.splits)
  qed
qed

lemma fold_physicsStep_keeps:
  "bots (fold (physicsStep dt) js room) = bots room"
  "playerInputs (fold (physicsStep dt) js room) = playerInputs room"
  "map fst (physics (fold (physicsStep dt) js room)) = map fst (physics room)"
  by (induction js arbitrary: room) simp_all

lemma physicsStage_keeps:
  "bots (physicsStage dt rng room j) = fst (botsLoop dt (karts room) rng (bots room))"
  "playerInputs (physicsStage dt rng room j) = playerInputs room"
  "map fst (physics (physicsStage dt rng room j)) = map fst (physics room)"
  by (simp_all add: physicsStage_def fold_physicsStep_keeps)

lemma physicsStage_Suc:
  "physicsStage dt rng room (Suc j) = physicsStep dt j (physicsStage dt rng room j)"
  by (simp add: physicsStage_def)

lemma botItemUse_id: "bot_id (fst (botItemUse dt k rng b)) = bot_id b"
  by (simp add: botItemUse_def Let_def nextRandom_def)

lemma BotController_update_id: "bot_id (fst (BotController_update dt k rng b)) = bot_id b"
  by (simp add: BotController_update_def Let_def botItemUse_id)

lemma botsLoop_ids: "map bot_id (fst (botsLoop dt ks rng bs)) = map bot_id bs"
proof (induction bs arbitrary: rng)
  case Nil
  show ?case by simp
next
  case (Cons b bs)
  obtain b' rng' where u: "BotController_update dt (ks ! bot_kart b) rng b = (b', rng')"
    by (cases "BotController_update dt (ks ! bot_kart b) rng b")
  have "bot_id b' = bot_id b" using BotController_update_id[of dt "ks ! bot_kart b" rng b] u by simp
  then show ?case using Cons[of rng'] u by (auto split: prod.splits)
qed

lemma findBot_ids: "map bot_id bs' = map bot_id bs \<Longrightarrow> findBot bs pid = None \<Longrightarrow> findBot bs' pid = None"
proof -
  assume m: "map bot_id bs' = map bot_id bs" and n: "findBot bs pid = None"
  from n have "pid \<notin> set (map bot_id bs)" by (auto simp add: findBot_def find_None_iff)
  then have "pid \<notin> set (map bot_id bs')" using m by simp
  then show ?thesis by (auto simp add: findBot_def find_None_iff)
qed

text \<open>Entry \<open>j\<close> of the physics loop, for the kart of a player that no bot drives, runs the
  physics update with the input of the player's cell.\<close>

lemma physicsStage_input:
  assumes cell: "playerInputs room pid = Some (seq, inp)"
    and nobot: "findBot (bots room) pid = None"
    and j: "j < length (physics room)" "fst (physics room ! j) = pid"
    and i: "findKart (karts (physicsStage dt rng room j)) pid = Some i"
  shows "physicsStage dt rng room (Suc j)
     = (physicsStage dt rng room j)
         \<lparr>karts := (karts (physicsStage dt rng room j))
             [i := fst (KartPhysics_update (snd (physics (physicsStage dt rng room j) ! j))
                         (karts (physicsStage dt rng room j) ! i) inp dt)],
          physics := (physics (physicsStage dt rng room j))
             [j := (pid, snd (KartPhysics_update (snd (physics (physicsStage dt rng room j) ! j))
                         (karts (physicsStage dt rng room j) ! i) inp dt))]\<rparr>"
proof -
  let ?s = "physicsStage dt rng room j"
  have len: "length (physics ?s) = length (physics room)"
    using physicsStage_keeps(3)[of dt rng room j] by (metis length_map)
  have "map fst (physics ?s) ! j = map fst (physics room) ! j"
    by (simp add: physicsStage_keeps)
  then have id: "fst (physics ?s ! j) = pid" using j len by simp
  have nb: "findBot (fst (botsLoop dt (karts room) rng (bots room))) pid = None"
    by (rule findBot_ids[OF botsLoop_ids nobot])
  have inp: "kartInput ?s pid = inp"
    by (simp add: kartInput_def physicsStage_keeps nb cell)
  obtain ph where e: "physics ?s ! j = (pid, ph)" using id by (cases "physics ?s ! j") simp
  have "physicsStep dt j ?s
     = ?s\<lparr>karts := (karts ?s)[i := fst (KartPhysics_update ph (karts ?s ! i) inp dt)],
          physics := (physics ?s)[j := (pid, snd (KartPhysics_update ph (karts ?s ! i) inp dt))]\<rparr>"
    unfolding physicsStep_def
    by (simp only: e prod.case i option.case inp)
       (cases "KartPhysics_update ph (karts ?s ! i) inp dt", simp)
  then show ?thesis
    unfolding physicsStage_Suc by (simp only: e snd_conv)
qed


lemma deliver_keeps [simp]:
  "karts (deliver msgs room) = karts room"
  "physics (deliver msgs room) = physics room"
  "race (deliver msgs room) = race room"
  "tick (deliver msgs room) = tick room"
proof -
  have "karts (deliver msgs room) = karts room \<and> physics (deliver msgs room) = physics room
      \<and> race (deliver msgs room) = race room \<and> tick (deliver msgs room) = tick room"
  proof (induction msgs rule: rev_induct)
    case Nil
    show ?case by (simp add: deliver_def)
  next
    case (snoc m msgs)
    then show ?case by (simp add: deliver_append handleInput_def split: prod.splits)
  qed
  then show "karts (deliver msgs room) = karts room"
    "physics (deliver msgs room) = physics room"
    "race (deliver msgs room) = race room"
    "tick (deliver msgs room) = tick room" by simp_all
qed

lemma deliver_record:
  "deliver msgs room = room\<lparr>playerInputs := playerInputs (deliver msgs room),
                             playerLastSeq := playerLastSeq (deliver msgs room)\<rparr>"
proof (induction msgs rule: rev_induct)
  case Nil
  show ?case by (simp add: deliver_def)
next
  case (snoc m msgs)
  obtain q seq inp where m: "m = (q, seq, inp)" by (cases m)
  have "deliver (msgs @ [m]) room = handleInput q seq inp (deliver msgs room)"
    by (simp add: deliver_append m)
  also have "\<dots> = handleInput q seq inp
        (room\<lparr>playerInputs := playerInputs (deliver msgs room),
              playerLastSeq := playerLastSeq (deliver msgs room)\<rparr>)"
    using snoc by simp
  also have "\<dots> = room\<lparr>playerInputs := playerInputs (handleInput q seq inp (deliver msgs room)),
                        playerLastSeq := playerLastSeq (handleInput q seq inp (deliver msgs room))\<rparr>"
    by (simp add: handleInput_def)
  finally show ?case by (simp add: deliver_append m)
qed

lemma deliver_cells:
  "playerInputs (deliver msgs room) q
     = (if filter (\<lambda>m. fst m = q) msgs = [] then playerInputs room q
        else Some (snd (lastFor q msgs)))"
  "playerLastSeq (deliver msgs room) q
     = (if filter (\<lambda>m. fst m = q) msgs = [] then playerLastSeq room q
        else Some (fst (snd (lastFor q msgs))))"
  using deliver_last[of q msgs room] deliver_untouched[of q msgs room]
  by (auto simp add: lastFor_def)

lemma filter_others:
  "q \<noteq> pid \<Longrightarrow> filter (\<lambda>m. fst m = q) (filter (\<lambda>m. fst m \<noteq> pid) msgs) = filter (\<lambda>m. fst m = q) msgs"
  by (induction msgs) auto

lemma filter_others2:
  "q \<noteq> pid \<Longrightarrow> filter (\<lambda>x. fst x \<noteq> pid \<and> fst x = q) msgs = filter (\<lambda>m. fst m = q) msgs"
  by (induction msgs) auto

text \<open>Of the messages of a player only the one delivered last is left in the room.\<close>

lemma deliver_only_last:
  assumes "filter (\<lambda>m. fst m = pid) msgs \<noteq> []"
  shows "deliver msgs room
     = handleInput pid (fst (snd (lastFor pid msgs))) (snd (snd (lastFor pid msgs)))
         (deliver (filter (\<lambda>m. fst m \<noteq> pid) msgs) room)"
proof -
  let ?others = "filter (\<lambda>m. fst m \<noteq> pid) msgs"
  let ?r = "handleInput pid (fst (snd (lastFor pid msgs))) (snd (snd (lastFor pid msgs)))
              (deliver ?others room)"
  have i: "playerInputs (deliver msgs room) = playerInputs ?r"
  proof
    fix q
    show "playerInputs (deliver msgs room) q = playerInputs ?r q"
      using assms by (cases "q = pid") (simp_all add: deliver_cells handleInput_cell lastFor_def filter_others2)
  qed
  have l: "playerLastSeq (deliver msgs room) = playerLastSeq ?r"
  proof
    fix q
    show "playerLastSeq (deliver msgs room) q = playerLastSeq ?r q"
      using assms by (cases "q = pid") (simp_all add: deliver_cells handleInput_cell lastFor_def filter_others2)
  qed
  have "?r = (deliver ?others room)\<lparr>playerInputs := playerInputs ?r, playerLastSeq := playerLastSeq ?r\<rparr>"
    by (simp add: handleInput_def)
  also have "\<dots> = room\<lparr>playerInputs := playerInputs ?r, playerLastSeq := playerLastSeq ?r\<rparr>"
    by (subst deliver_record[of ?others room]) simp
  finally have "?r = room\<lparr>playerInputs := playerInputs (deliver msgs room),
                            playerLastSeq := playerLastSeq (deliver msgs room)\<rparr>"
    by (simp only: i l)
  then show ?thesis using deliver_record[of msgs room] by simp
qed


lemma frozen_tick_cell:
  assumes "race room = Some rm0"
    and "isFrozen (countdownStep TICK_DT (syncRace (karts room) rm0))"
  shows "map_option (\<lambda>res. (karts (fst res), playerInputs (fst res) pid)) (GameRoom_tick rng room)
         = Some (karts room, playerInputs room pid)"
proof -
  obtain room' rng' out where t: "GameRoom_tick rng room = Some (room', rng', out)"
    using frozen_tick[OF assms, of rng] by (cases "GameRoom_tick rng room") auto
  from frozen_tick[OF assms, of rng] t
  have "room' = room\<lparr>tick := tick room + 1,
                 race := Some (countdownStep TICK_DT (syncRace (karts room) rm0)),
                 events := (if (tick room + 1) mod SNAPSHOT_INTERVAL = 0 then []
                            else events room)\<rparr>"
    by simp
  then show ?thesis by (simp add: t)
qed

lemma active_tick_cell:
  assumes "race room = Some rm0"
    and "\<not> isFrozen (countdownStep TICK_DT (syncRace (karts room) rm0))"
    and "playerInputs room pid = Some (seq, inp)"
  shows "map_option (\<lambda>res. playerInputs (fst res) pid) (GameRoom_tick rng room)
         = Some (Some (seq, tapsCleared inp))"
proof -
  obtain room' rng' out where t: "GameRoom_tick rng room = Some (room', rng', out)"
    using active_tick_inputs[OF assms(1,2), of rng] by (cases "GameRoom_tick rng room") auto
  from active_tick_inputs[OF assms(1,2), of rng] t
  have "playerInputs room' = playerInputs (clearTaps room)" by simp
  then show ?thesis by (simp add: t clearTaps_def assms(3) tapsCleared_def)
qed

text \<open>
  C6 (amended). The room keeps one cell per player: after any deliveries that include one for
  the player, the cell holds exactly the input delivered last for that player (by arrival,
  not by sequence number) with its sequence number; that number is the one the next snapshot
  acknowledges; the room is the one in which, of the player's messages, only that last one
  was delivered; and deliveries for other players do not touch the cell. A tick that is frozen
  reads no input: it leaves the karts and the cell as they are. A tick that is not frozen is
  the bots' step, the physics loop and steps 4 to 10; the entry of the physics loop for the
  player's kart, when no bot drives it, runs the physics update with exactly the input of the
  cell; and the tick leaves that input in the cell with its tap flags cleared.
\<close>

theorem latest_input_is_last_delivered:
  assumes "filter (\<lambda>m. fst m = pid) msgs \<noteq> []"
  shows "playerInputs (deliver msgs room) pid = Some (snd (lastFor pid msgs))
       \<and> lastInputSeq (snapshotFor (deliver msgs room) rm pid) = fst (snd (lastFor pid msgs))
       \<and> (findBot (bots room) pid = None \<longrightarrow>
            kartInput (deliver msgs room) pid = snd (snd (lastFor pid msgs)))
       \<and> (filter (\<lambda>m. fst m = pid) later = [] \<longrightarrow>
            playerInputs (deliver later (deliver msgs room)) pid
              = playerInputs (deliver msgs room) pid)
       \<and> deliver msgs room
            = handleInput pid (fst (snd (lastFor pid msgs))) (snd (snd (lastFor pid msgs)))
                (deliver (filter (\<lambda>m. fst m \<noteq> pid) msgs) room)
       \<and> (race room = Some rm0 \<and> isFrozen (countdownStep TICK_DT (syncRace (karts room) rm0)) \<longrightarrow>
            map_option (\<lambda>res. (karts (fst res), playerInputs (fst res) pid))
                (GameRoom_tick rng (deliver msgs room))
              = Some (karts room, Some (snd (lastFor pid msgs))))
       \<and> (race room = Some rm0 \<and> \<not> isFrozen (countdownStep TICK_DT (syncRace (karts room) rm0)) \<longrightarrow>
            map_option fst (GameRoom_tick rng (deliver msgs room))
              = Some (tickEnd (fst (stepsAfterPhysics TICK_DT
                        (snd (botsLoop TICK_DT (karts room) rng (bots room)))
                        (physicsStage TICK_DT rng (tickStart rm0 (deliver msgs room))
                           (length (physics room))))))
            \<and> (\<forall>j i. j < length (physics room) \<and> fst (physics room ! j) = pid
                   \<and> findBot (bots room) pid = None
                   \<and> findKart (karts (physicsStage TICK_DT rng (tickStart rm0 (deliver msgs room)) j))
                        pid = Some i \<longrightarrow>
                 physicsStage TICK_DT rng (tickStart rm0 (deliver msgs room)) (Suc j)
                   = (physicsStage TICK_DT rng (tickStart rm0 (deliver msgs room)) j)
                       \<lparr>karts := (karts (physicsStage TICK_DT rng (tickStart rm0 (deliver msgs room)) j))
                          [i := fst (KartPhysics_update
                                  (snd (physics (physicsStage TICK_DT rng
                                           (tickStart rm0 (deliver msgs room)) j) ! j))
                                  (karts (physicsStage TICK_DT rng
                                           (tickStart rm0 (deliver msgs room)) j) ! i)
                                  (snd (snd (lastFor pid msgs))) TICK_DT)],
                        physics := (physics (physicsStage TICK_DT rng (tickStart rm0 (deliver msgs room)) j))
                          [j := (pid, snd (KartPhysics_update
                                  (snd (physics (physicsStage TICK_DT rng
                                           (tickStart rm0 (deliver msgs room)) j) ! j))
                                  (karts (physicsStage TICK_DT rng
                                           (tickStart rm0 (deliver msgs room)) j) ! i)
                                  (snd (snd (lastFor pid msgs))) TICK_DT))]\<rparr>)
            \<and> map_option (\<lambda>res. playerInputs (fst res) pid) (GameRoom_tick rng (deliver msgs room))
              = Some (Some (fst (snd (lastFor pid msgs)), tapsCleared (snd (snd (lastFor pid msgs))))))"
proof -
  let ?room = "deliver msgs room"
  let ?L = "lastFor pid msgs"
  have cell: "playerInputs ?room pid = Some (snd ?L)"
    using deliver_last[OF assms, of room] by (simp add: lastFor_def)
  have cell2: "playerInputs ?room pid = Some (fst (snd ?L), snd (snd ?L))"
    using cell by simp
  have ack: "lastInputSeq (snapshotFor ?room rm pid) = fst (snd ?L)"
    using deliver_last[OF assms, of room] by (simp add: lastFor_def snapshotFor_def)
  have look: "findBot (bots room) pid = None \<longrightarrow> kartInput ?room pid = snd (snd ?L)"
    using cell by (simp add: kartInput_def)
  have keep: "filter (\<lambda>m. fst m = pid) later = [] \<longrightarrow>
            playerInputs (deliver later ?room) pid = playerInputs ?room pid"
    using deliver_untouched[of pid later ?room] by simp
  have only: "?room = handleInput pid (fst (snd ?L)) (snd (snd ?L))
                (deliver (filter (\<lambda>m. fst m \<noteq> pid) msgs) room)"
    using assms by (rule deliver_only_last)
  have frozen: "map_option (\<lambda>res. (karts (fst res), playerInputs (fst res) pid))
                (GameRoom_tick rng ?room) = Some (karts room, Some (snd ?L))"
    if "race room = Some rm0" "isFrozen (countdownStep TICK_DT (syncRace (karts room) rm0))"
    using frozen_tick_cell[of ?room rm0 pid rng] that cell by simp
  have phases: "map_option fst (GameRoom_tick rng ?room)
              = Some (tickEnd (fst (stepsAfterPhysics TICK_DT
                        (snd (botsLoop TICK_DT (karts room) rng (bots room)))
                        (physicsStage TICK_DT rng (tickStart rm0 ?room) (length (physics room))))))"
    if "race room = Some rm0" "\<not> isFrozen (countdownStep TICK_DT (syncRace (karts room) rm0))"
    using tick_phases[of ?room rm0 rng] that by simp
  have cleared: "map_option (\<lambda>res. playerInputs (fst res) pid) (GameRoom_tick rng ?room)
              = Some (Some (fst (snd ?L), tapsCleared (snd (snd ?L))))"
    if "race room = Some rm0" "\<not> isFrozen (countdownStep TICK_DT (syncRace (karts room) rm0))"
    using active_tick_cell[of ?room rm0 pid "fst (snd ?L)" "snd (snd ?L)" rng] that cell2 by simp
  have s: "playerInputs (tickStart rm0 ?room) pid = Some (fst (snd ?L), snd (snd ?L))"
    "bots (tickStart rm0 ?room) = bots room" "physics (tickStart rm0 ?room) = physics room"
    using cell2 by (simp_all add: tickStart_def)
  have step: "physicsStage TICK_DT rng (tickStart rm0 ?room) (Suc j)
                   = (physicsStage TICK_DT rng (tickStart rm0 ?room) j)
                       \<lparr>karts := (karts (physicsStage TICK_DT rng (tickStart rm0 ?room) j))
                          [i := fst (KartPhysics_update
                                  (snd (physics (physicsStage TICK_DT rng (tickStart rm0 ?room) j) ! j))
                                  (karts (physicsStage TICK_DT rng (tickStart rm0 ?room) j) ! i)
                                  (snd (snd ?L)) TICK_DT)],
                        physics := (physics (physicsStage TICK_DT rng (tickStart rm0 ?room) j))
                          [j := (pid, snd (KartPhysics_update
                                  (snd (physics (physicsStage TICK_DT rng (tickStart rm0 ?room) j) ! j))
                                  (karts (physicsStage TICK_DT rng (tickStart rm0 ?room) j) ! i)
                                  (snd (snd ?L)) TICK_DT))]\<rparr>"
    if "j < length (physics room)" "fst (physics room ! j) = pid" "findBot (bots room) pid = None"
      "findKart (karts (physicsStage TICK_DT rng (tickStart rm0 ?room) j)) pid = Some i" for j i
    using physicsStage_input[of "tickStart rm0 ?room" pid "fst (snd ?L)" "snd (snd ?L)" j
        TICK_DT rng i] that s by simp
  show ?thesis
    using cell ack look keep only frozen phases cleared step by blast
qed


subsection \<open>The started room\<close>

lemma addBotKart_first:
  "karts room \<noteq> [] \<Longrightarrow> karts (addBotKart md used s room) \<noteq> []
     \<and> karts (addBotKart md used s room) ! 0 = karts room ! 0"
  "physics room \<noteq> [] \<Longrightarrow> physics (addBotKart md used s room) \<noteq> []
     \<and> physics (addBotKart md used s room) ! 0 = physics room ! 0"
  by (simp_all add: addBotKart_def Let_def nth_append)

lemma fold_addBotKart_first:
  "karts room \<noteq> [] \<Longrightarrow> karts (fold (addBotKart md used) ss room) \<noteq> []
     \<and> karts (fold (addBotKart md used) ss room) ! 0 = karts room ! 0"
  "physics room \<noteq> [] \<Longrightarrow> physics (fold (addBotKart md used) ss room) \<noteq> []
     \<and> physics (fold (addBotKart md used) ss room) ! 0 = physics room ! 0"
proof -
  show "karts room \<noteq> [] \<Longrightarrow> karts (fold (addBotKart md used) ss room) \<noteq> []
     \<and> karts (fold (addBotKart md used) ss room) ! 0 = karts room ! 0"
  proof (induction ss arbitrary: room)
    case Nil
    then show ?case by simp
  next
    case (Cons s ss)
    from addBotKart_first(1)[OF Cons.prems, of md used s]
    have a: "karts (addBotKart md used s room) \<noteq> []"
      "karts (addBotKart md used s room) ! 0 = karts room ! 0" by simp_all
    from Cons.IH[OF a(1)] a(2) show ?case by simp
  qed
  show "physics room \<noteq> [] \<Longrightarrow> physics (fold (addBotKart md used) ss room) \<noteq> []
     \<and> physics (fold (addBotKart md used) ss room) ! 0 = physics room ! 0"
  proof (induction ss arbitrary: room)
    case Nil
    then show ?case by simp
  next
    case (Cons s ss)
    from addBotKart_first(2)[OF Cons.prems, of md used s]
    have a: "physics (addBotKart md used s room) \<noteq> []"
      "physics (addBotKart md used s room) ! 0 = physics room ! 0" by simp_all
    from Cons.IH[OF a(1)] a(2) show ?case by simp
  qed
qed

lemma botName_not_p1: "botName s \<noteq> ''p1''"
  by (simp add: botName_def)

lemma fold_addBotKart_bots:
  "\<forall>b \<in> set (bots room). bot_id b \<noteq> ''p1'' \<Longrightarrow>
   \<forall>b \<in> set (bots (fold (addBotKart md used) ss room)). bot_id b \<noteq> ''p1''"
proof (induction ss arbitrary: room)
  case Nil
  then show ?case by simp
next
  case (Cons s ss)
  have "\<forall>b \<in> set (bots (addBotKart md used s room)). bot_id b \<noteq> ''p1''"
    using Cons.prems botName_not_p1[of s] by (auto simp add: addBotKart_def Let_def newBot_def)
  from Cons.IH[OF this] show ?case by simp
qed

lemma firstIndex_head:
  assumes "xs \<noteq> []" "P (xs ! 0)"
  shows "firstIndex P xs = Some 0"
proof -
  have "[0..<length xs] = 0 # [Suc 0..<length xs]" using assms(1) by (simp add: upt_conv_Cons)
  then show ?thesis using assms(2) by (simp add: firstIndex_def)
qed

lemma startedRoom_karts:
  "fst (physics startedRoom ! 0) = ''p1''"
  "physics startedRoom \<noteq> []"
  "findKart (karts startedRoom) ''p1'' = Some 0"
  "karts startedRoom \<noteq> []"
  "findBot (bots startedRoom) ''p1'' = None"
proof -
  let ?base = "startGame_begin (toggleReady ''p1'' lobbyRoom)"
  let ?room1 = "fold (addPlayerKart flatMap) (players ?base) ?base"
  have base: "players ?base = [(''p1'', \<lparr>ws = 1, ready = True, slot = 0\<rparr>)]"
    "karts ?base = []" "physics ?base = []" "bots ?base = []"
  proof -
    have l: "karts lobbyRoom = []" "physics lobbyRoom = []" "bots lobbyRoom = []"
      by (simp_all add: lobbyRoom_def addPlayer_def GameRoom_new_def)
    show "players ?base = [(''p1'', \<lparr>ws = 1, ready = True, slot = 0\<rparr>)]"
      by (simp add: startGame_begin_def readied_room)
    show "karts ?base = []" "physics ?base = []" "bots ?base = []"
      by (simp_all add: startGame_begin_def toggleReady_def lobbyRoom_fields l)
  qed
  have k1: "karts ?room1 \<noteq> []" "kart_id (karts ?room1 ! 0) = ''p1''"
    by (simp_all add: base addPlayerKart_def Let_def createServerKart_def split: prod.splits)
  have p1: "physics ?room1 \<noteq> []" "fst (physics ?room1 ! 0) = ''p1''"
    by (simp_all add: base addPlayerKart_def Let_def)
  have b1: "\<forall>b \<in> set (bots ?room1). bot_id b \<noteq> ''p1''" by (simp add: base)
  let ?room2 = "fold (addBotKart flatMap (set (map (\<lambda>(pid, p). slot p) (players ?base)))) [0..<4] ?room1"
  have k2: "karts ?room2 \<noteq> []" "kart_id (karts ?room2 ! 0) = ''p1''"
    using fold_addBotKart_first(1)[OF k1(1)] k1(2) by simp_all
  have p2: "physics ?room2 \<noteq> []" "fst (physics ?room2 ! 0) = ''p1''"
    using fold_addBotKart_first(2)[OF p1(1)] p1(2) by simp_all
  have b2: "\<forall>b \<in> set (bots ?room2). bot_id b \<noteq> ''p1''"
    using b1 by (rule fold_addBotKart_bots)
  have eq: "karts startedRoom = karts ?room2" "physics startedRoom = physics ?room2"
    "bots startedRoom = bots ?room2"
    by (simp_all add: startedRoom_def startGame_loaded_def Let_def split: prod.splits)
  show "fst (physics startedRoom ! 0) = ''p1''" unfolding eq by (rule p2(2))
  show "physics startedRoom \<noteq> []" unfolding eq by (rule p2(1))
  show "karts startedRoom \<noteq> []" unfolding eq by (rule k2(1))
  show "findKart (karts startedRoom) ''p1'' = Some 0"
    unfolding findKart_def eq by (rule firstIndex_head[OF k2(1)]) (rule k2(2))
  show "findBot (bots startedRoom) ''p1'' = None"
    unfolding eq using b2 by (auto simp add: findBot_def find_None_iff)
qed


lemma physicsStage_zero:
  "karts (physicsStage dt rng room 0) = karts room"
  "physics (physicsStage dt rng room 0) = physics room"
  by (simp_all add: physicsStage_def)

lemma almostGoRoom_fields:
  "karts almostGoRoom = karts startedRoom" "physics almostGoRoom = physics startedRoom"
  "bots almostGoRoom = bots startedRoom"
  by (simp_all add: almostGoRoom_def)

lemma almostGoRoom_race:
  "\<exists>rm1. race almostGoRoom = Some rm1
      \<and> \<not> isFrozen (countdownStep TICK_DT (syncRace (karts almostGoRoom) rm1))"
proof -
  obtain cps rs fl where r: "race startedRoom = Some (RaceManager_new cps rs fl)"
    using startGame_loaded_race[of flatMap "startGame_begin (toggleReady ''p1'' lobbyRoom)"]
    unfolding startedRoom_def by blast
  let ?rm1 = "(RaceManager_new cps rs fl)\<lparr>countdownTimer := 1.01, countdownValue := 1\<rparr>"
  have r1: "race almostGoRoom = Some ?rm1" by (simp add: almostGoRoom_def r)
  have nf: "\<not> isFrozen (countdownStep TICK_DT (syncRace (karts almostGoRoom) ?rm1))"
    by (simp add: isFrozen_def countdownStep_def syncRace_def TICK_DT_def TICK_RATE_def Let_def)
  from r1 nf show ?thesis by blast
qed

theorem latest_input_is_last_delivered_witness:
  "filter (\<lambda>m. fst m = ''p1'') inOrder \<noteq> []
   \<and> lastFor ''p1'' inOrder = (''p1'', 2, secondInput)
   \<and> findBot (bots almostGoRoom) ''p1'' = None
   \<and> fst (physics almostGoRoom ! 0) = ''p1''
   \<and> findKart (karts almostGoRoom) ''p1'' = Some 0
   \<and> (\<exists>rm0. race startedRoom = Some rm0
          \<and> isFrozen (countdownStep TICK_DT (syncRace (karts startedRoom) rm0)))
   \<and> (\<exists>rm0. race almostGoRoom = Some rm0
          \<and> \<not> isFrozen (countdownStep TICK_DT (syncRace (karts almostGoRoom) rm0)))
   \<and> playerInputs (deliver inOrder almostGoRoom) ''p1'' = Some (2, secondInput)
   \<and> kartInput (deliver inOrder almostGoRoom) ''p1'' = secondInput
   \<and> map_option (\<lambda>res. (karts (fst res) = karts startedRoom, playerInputs (fst res) ''p1''))
        (GameRoom_tick zeroRng (deliver inOrder startedRoom)) = Some (True, Some (2, secondInput))
   \<and> map_option (\<lambda>res. playerInputs (fst res) ''p1'')
        (GameRoom_tick zeroRng (deliver inOrder almostGoRoom))
        = Some (Some (2, tapsCleared secondInput))
   \<and> karts (physicsStage TICK_DT zeroRng
               (tickStart (the (race almostGoRoom)) (deliver inOrder almostGoRoom)) (Suc 0)) ! 0
        = fst (KartPhysics_update (snd (physics almostGoRoom ! 0)) (karts almostGoRoom ! 0)
                 secondInput TICK_DT)"
proof -
  have f: "filter (\<lambda>m. fst m = ''p1'') inOrder \<noteq> []" by (simp add: inOrder_def)
  have L: "lastFor ''p1'' inOrder = (''p1'', 2, secondInput)"
    by (simp add: lastFor_def inOrder_def)
  have nb: "findBot (bots almostGoRoom) ''p1'' = None"
    and ph: "fst (physics almostGoRoom ! 0) = ''p1''" "0 < length (physics almostGoRoom)"
    and fk: "findKart (karts almostGoRoom) ''p1'' = Some 0"
    and ks: "0 < length (karts almostGoRoom)"
    using startedRoom_karts by (simp_all add: almostGoRoom_fields)
  obtain cps rs fl where r: "race startedRoom = Some (RaceManager_new cps rs fl)"
    using startGame_loaded_race[of flatMap "startGame_begin (toggleReady ''p1'' lobbyRoom)"]
    unfolding startedRoom_def by blast
  let ?rm0 = "RaceManager_new cps rs fl"
  let ?rm1 = "?rm0\<lparr>countdownTimer := 1.01, countdownValue := 1\<rparr>"
  have fz: "isFrozen (countdownStep TICK_DT (syncRace (karts startedRoom) ?rm0))"
    by (rule fresh_race_frozen)
  have r1: "race almostGoRoom = Some ?rm1" by (simp add: almostGoRoom_def r)
  have nf: "\<not> isFrozen (countdownStep TICK_DT (syncRace (karts almostGoRoom) ?rm1))"
    by (simp add: isFrozen_def countdownStep_def syncRace_def TICK_DT_def TICK_RATE_def Let_def)
  note started = latest_input_is_last_delivered[OF f, of startedRoom _ _ ?rm0 zeroRng]
  note go = latest_input_is_last_delivered[OF f, of almostGoRoom _ _ ?rm1 zeroRng]
  note go_cell = go[THEN conjunct1]
  note go_look = go[THEN conjunct2, THEN conjunct2, THEN conjunct1, rule_format, OF nb]
  note started_frozen = started[THEN conjunct2, THEN conjunct2, THEN conjunct2, THEN conjunct2,
      THEN conjunct2, THEN conjunct1, rule_format, OF conjI[OF r fz]]
  note go_active = go[THEN conjunct2, THEN conjunct2, THEN conjunct2, THEN conjunct2,
      THEN conjunct2, THEN conjunct2, rule_format, OF conjI[OF r1 nf]]
  have c: "playerInputs (deliver inOrder almostGoRoom) ''p1'' = Some (2, secondInput)"
    using go_cell by (simp add: L)
  have k: "kartInput (deliver inOrder almostGoRoom) ''p1'' = secondInput"
    using go_look by (simp add: L)
  have t1: "map_option (\<lambda>res. (karts (fst res), playerInputs (fst res) ''p1''))
        (GameRoom_tick zeroRng (deliver inOrder startedRoom))
          = Some (karts startedRoom, Some (2, secondInput))"
    using started_frozen by (simp add: L)
  have t1': "map_option (\<lambda>res. (karts (fst res) = karts startedRoom, playerInputs (fst res) ''p1''))
        (GameRoom_tick zeroRng (deliver inOrder startedRoom)) = Some (True, Some (2, secondInput))"
    using t1 by (cases "GameRoom_tick zeroRng (deliver inOrder startedRoom)") auto
  have t2: "map_option (\<lambda>res. playerInputs (fst res) ''p1'')
        (GameRoom_tick zeroRng (deliver inOrder almostGoRoom))
        = Some (Some (2, tapsCleared secondInput))"
    using go_active[THEN conjunct2, THEN conjunct2] by (simp add: L)
  let ?S = "tickStart ?rm1 (deliver inOrder almostGoRoom)"
  have k0: "karts (physicsStage TICK_DT zeroRng ?S 0) = karts almostGoRoom"
    "physics (physicsStage TICK_DT zeroRng ?S 0) = physics almostGoRoom"
    by (simp_all add: physicsStage_zero tickStart_def)
  have fk0: "findKart (karts (physicsStage TICK_DT zeroRng ?S 0)) ''p1'' = Some 0"
    unfolding k0 by (rule fk)
  have "physicsStage TICK_DT zeroRng ?S (Suc 0)
                   = (physicsStage TICK_DT zeroRng ?S 0)
                       \<lparr>karts := (karts (physicsStage TICK_DT zeroRng ?S 0))
                          [0 := fst (KartPhysics_update
                                  (snd (physics (physicsStage TICK_DT zeroRng ?S 0) ! 0))
                                  (karts (physicsStage TICK_DT zeroRng ?S 0) ! 0)
                                  (snd (snd (lastFor ''p1'' inOrder))) TICK_DT)],
                        physics := (physics (physicsStage TICK_DT zeroRng ?S 0))
                          [0 := (''p1'', snd (KartPhysics_update
                                  (snd (physics (physicsStage TICK_DT zeroRng ?S 0) ! 0))
                                  (karts (physicsStage TICK_DT zeroRng ?S 0) ! 0)
                                  (snd (snd (lastFor ''p1'' inOrder))) TICK_DT))]\<rparr>"
    by (rule go_active[THEN conjunct2, THEN conjunct1, rule_format, of 0 0])
       (intro conjI ph nb fk0)
  then have "karts (physicsStage TICK_DT zeroRng ?S (Suc 0)) ! 0
        = fst (KartPhysics_update (snd (physics almostGoRoom ! 0)) (karts almostGoRoom ! 0)
                 secondInput TICK_DT)"
    unfolding k0 L using ks by simp
  then have st: "karts (physicsStage TICK_DT zeroRng
               (tickStart (the (race almostGoRoom)) (deliver inOrder almostGoRoom)) (Suc 0)) ! 0
        = fst (KartPhysics_update (snd (physics almostGoRoom ! 0)) (karts almostGoRoom ! 0)
                 secondInput TICK_DT)"
    by (simp add: r1)
  have e1: "\<exists>rm0. race startedRoom = Some rm0
          \<and> isFrozen (countdownStep TICK_DT (syncRace (karts startedRoom) rm0))"
    using r fz by blast
  have e2: "\<exists>rm0. race almostGoRoom = Some rm0
          \<and> \<not> isFrozen (countdownStep TICK_DT (syncRace (karts almostGoRoom) rm0))"
    using r1 nf by blast
  from f L nb ph(1) fk e1 e2 c k t1' t2 st show ?thesis by (intro conjI)
qed

text \<open>The cell follows the order of arrival. Delivered in the order sent, the two commands
  leave the second one to drive the kart; with the two swapped on the way, or with the first
  one delivered once more after the second, the first one drives it. In the room one tick
  before \<open>go\<close> the tick then runs with the first command and leaves it in the cell, where
  in-order delivery leaves the second.\<close>

theorem reordered_input_changes_consumed_counterexample:
  "kartInput (deliver [(''p1'', 1, firstInput), (''p1'', 2, secondInput)]
                (GameRoom_new ''room1'' ''room1'' ''map'')) ''p1'' = secondInput
   \<and> kartInput (deliver [(''p1'', 2, secondInput), (''p1'', 1, firstInput)]
                  (GameRoom_new ''room1'' ''room1'' ''map'')) ''p1'' = firstInput
   \<and> kartInput (deliver [(''p1'', 1, firstInput), (''p1'', 2, secondInput), (''p1'', 1, firstInput)]
                  (GameRoom_new ''room1'' ''room1'' ''map'')) ''p1'' = firstInput
   \<and> firstInput \<noteq> secondInput
   \<and> map_option (\<lambda>res. playerInputs (fst res) ''p1'')
        (GameRoom_tick zeroRng (deliver [(''p1'', 1, firstInput), (''p1'', 2, secondInput)] almostGoRoom))
        = Some (Some (2, tapsCleared secondInput))
   \<and> map_option (\<lambda>res. playerInputs (fst res) ''p1'')
        (GameRoom_tick zeroRng (deliver [(''p1'', 2, secondInput), (''p1'', 1, firstInput)] almostGoRoom))
        = Some (Some (1, tapsCleared firstInput))
   \<and> tapsCleared firstInput \<noteq> tapsCleared secondInput"
proof -
  have a: "kartInput (deliver [(''p1'', 1, firstInput), (''p1'', 2, secondInput)]
                (GameRoom_new ''room1'' ''room1'' ''map'')) ''p1'' = secondInput
   \<and> kartInput (deliver [(''p1'', 2, secondInput), (''p1'', 1, firstInput)]
                  (GameRoom_new ''room1'' ''room1'' ''map'')) ''p1'' = firstInput
   \<and> kartInput (deliver [(''p1'', 1, firstInput), (''p1'', 2, secondInput), (''p1'', 1, firstInput)]
                  (GameRoom_new ''room1'' ''room1'' ''map'')) ''p1'' = firstInput
   \<and> firstInput \<noteq> secondInput"
    by (simp add: deliver_def handleInput_def kartInput_def findBot_def GameRoom_new_def
        firstInput_def secondInput_def noInput_def)
  obtain rm1 where r1: "race almostGoRoom = Some rm1"
    and nf: "\<not> isFrozen (countdownStep TICK_DT (syncRace (karts almostGoRoom) rm1))"
    using almostGoRoom_race by blast
  let ?ord = "deliver [(''p1'', 1, firstInput), (''p1'', 2, secondInput)] almostGoRoom"
  let ?rev = "deliver [(''p1'', 2, secondInput), (''p1'', 1, firstInput)] almostGoRoom"
  have co: "playerInputs ?ord ''p1'' = Some (2, secondInput)"
    and cr: "playerInputs ?rev ''p1'' = Some (1, firstInput)"
    by (simp_all add: deliver_def handleInput_def)
  have b: "map_option (\<lambda>res. playerInputs (fst res) ''p1'') (GameRoom_tick zeroRng ?ord)
        = Some (Some (2, tapsCleared secondInput))"
    using active_tick_cell[of ?ord rm1 "''p1''" 2 secondInput zeroRng] r1 nf co by simp
  have c: "map_option (\<lambda>res. playerInputs (fst res) ''p1'') (GameRoom_tick zeroRng ?rev)
        = Some (Some (1, tapsCleared firstInput))"
    using active_tick_cell[of ?rev rm1 "''p1''" 1 firstInput zeroRng] r1 nf cr by simp
  have d: "tapsCleared firstInput \<noteq> tapsCleared secondInput"
  proof
    assume "tapsCleared firstInput = tapsCleared secondInput"
    then have "accel (tapsCleared firstInput) = accel (tapsCleared secondInput)" by simp
    then show False by (simp add: tapsCleared_def firstInput_def secondInput_def noInput_def)
  qed
  from a b c d show ?thesis by (intro conjI) simp_all
qed

subsection \<open>Item boxes and the random stream\<close>

declare boxKartLoop.simps [simp del]

lemma sameItems_next:
  "sameItems r1 r2 \<Longrightarrow> itemOfDraw (fst (nextRandom r1)) = itemOfDraw (fst (nextRandom r2))
     \<and> sameItems (snd (nextRandom r1)) (snd (nextRandom r2))"
  by (simp add: sameItems_def nextRandom_def)

lemma boxKartLoop_same:
  assumes "sameItems r1 r2"
  shows "fst (boxKartLoop box i r1 ks es) = fst (boxKartLoop box i r2 ks es)
       \<and> snd (snd (boxKartLoop box i r1 ks es)) = snd (snd (boxKartLoop box i r2 ks es))
       \<and> sameItems (fst (snd (boxKartLoop box i r1 ks es)))
                   (fst (snd (boxKartLoop box i r2 ks es)))"
  using assms
proof (induction box i r1 ks es rule: boxKartLoop.induct)
  case (1 box i rng ks es)
  show ?case
    unfolding boxKartLoop.simps[of box i rng ks es]
              boxKartLoop.simps[of box i r2 ks es]
    using 1 sameItems_next[OF 1(3)]
    by (auto simp add: Let_def split: prod.splits)
qed

lemma boxStep_same:
  assumes "sameItems r1 r2"
  shows "fst (boxStep dt box (r1, ks, es)) = fst (boxStep dt box (r2, ks, es))
       \<and> snd (snd (boxStep dt box (r1, ks, es))) = snd (snd (boxStep dt box (r2, ks, es)))
       \<and> sameItems (fst (snd (boxStep dt box (r1, ks, es))))
                   (fst (snd (boxStep dt box (r2, ks, es))))"
  using boxKartLoop_same[OF assms, of box 0 ks es] assms
  by (simp add: boxStep_def)

lemma itemBoxesLoop_same:
  assumes "sameItems r1 r2"
  shows "outcome (itemBoxesLoop dt boxes (r1, ks, es))
           = outcome (itemBoxesLoop dt boxes (r2, ks, es))
       \<and> sameItems (fst (snd (itemBoxesLoop dt boxes (r1, ks, es))))
                   (fst (snd (itemBoxesLoop dt boxes (r2, ks, es))))"
  using assms
proof (induction boxes arbitrary: r1 r2 ks es)
  case Nil
  then show ?case by (simp add: outcome_def)
next
  case (Cons box boxes)
  obtain b1 r1' ks1 es1 where s1: "boxStep dt box (r1, ks, es) = (b1, r1', ks1, es1)"
    by (cases "boxStep dt box (r1, ks, es)") auto
  obtain b2 r2' ks2 es2 where s2: "boxStep dt box (r2, ks, es) = (b2, r2', ks2, es2)"
    by (cases "boxStep dt box (r2, ks, es)") auto
  from boxStep_same[OF Cons.prems, of dt box ks es] s1 s2
  have eq: "b1 = b2" "ks1 = ks2" "es1 = es2" and same: "sameItems r1' r2'" by simp_all
  from Cons.IH[OF same, of ks2 es2] show ?case
    by (auto simp add: s1 s2 eq outcome_def split: prod.splits)
qed


lemma itemOfDraw_unit:
  assumes "0 \<le> r" "r < 1"
  shows "\<exists>it \<in> set AVAILABLE_ITEMS. itemOfDraw r = Some it"
proof -
  have len: "length AVAILABLE_ITEMS = 3" by (simp add: AVAILABLE_ITEMS_def)
  have lo: "0 \<le> \<lfloor>r * 3\<rfloor>" using assms by simp
  have hi: "\<lfloor>r * 3\<rfloor> < 3" using assms by (simp add: floor_less_iff)
  have "nat \<lfloor>r * 3\<rfloor> < length AVAILABLE_ITEMS" unfolding len using lo hi by linarith
  then have "AVAILABLE_ITEMS ! nat \<lfloor>r * 3\<rfloor> \<in> set AVAILABLE_ITEMS" by (rule nth_mem)
  moreover have "itemOfDraw r = Some (AVAILABLE_ITEMS ! nat \<lfloor>r * 3\<rfloor>)"
    using lo hi by (simp add: itemOfDraw_def Let_def len)
  ultimately show ?thesis by blast
qed

lemma unitDraws_next: "unitDraws rng \<Longrightarrow> unitDraws (snd (nextRandom rng))"
  by (simp add: unitDraws_def nextRandom_def)

lemma grantsOnly_refl: "grantsOnly ks ks"
  by (simp add: grantsOnly_def)

lemma grantsOnly_trans:
  assumes "grantsOnly ks ks1" "grantsOnly ks1 ks2"
  shows "grantsOnly ks ks2"
  unfolding grantsOnly_def
proof (intro conjI allI impI)
  show "length ks2 = length ks" using assms by (simp add: grantsOnly_def)
next
  fix j assume j: "j < length ks"
  then have j1: "j < length ks1" using assms(1) by (simp add: grantsOnly_def)
  from assms(1) j have a: "ks1 ! j = ks ! j
      \<or> (heldItem (ks ! j) = None
          \<and> (\<exists>it \<in> set AVAILABLE_ITEMS. ks1 ! j = (ks ! j)\<lparr>heldItem := Some it\<rparr>))"
    by (simp add: grantsOnly_def)
  from assms(2) j1 have b: "ks2 ! j = ks1 ! j
      \<or> (heldItem (ks1 ! j) = None
          \<and> (\<exists>it \<in> set AVAILABLE_ITEMS. ks2 ! j = (ks1 ! j)\<lparr>heldItem := Some it\<rparr>))"
    by (simp add: grantsOnly_def)
  from a b show "ks2 ! j = ks ! j
      \<or> (heldItem (ks ! j) = None
          \<and> (\<exists>it \<in> set AVAILABLE_ITEMS. ks2 ! j = (ks ! j)\<lparr>heldItem := Some it\<rparr>))"
    by auto
qed

lemma grantsOnly_update:
  assumes "it \<in> set AVAILABLE_ITEMS" "i < length ks" "heldItem (ks ! i) = None"
  shows "grantsOnly ks (ks[i := (ks ! i)\<lparr>heldItem := Some it\<rparr>])"
  unfolding grantsOnly_def
proof (intro conjI allI impI)
  show "length (ks[i := (ks ! i)\<lparr>heldItem := Some it\<rparr>]) = length ks" by simp
next
  fix j
  assume "j < length ks"
  show "ks[i := (ks ! i)\<lparr>heldItem := Some it\<rparr>] ! j = ks ! j
      \<or> (heldItem (ks ! j) = None
          \<and> (\<exists>it' \<in> set AVAILABLE_ITEMS.
                ks[i := (ks ! i)\<lparr>heldItem := Some it\<rparr>] ! j = (ks ! j)\<lparr>heldItem := Some it'\<rparr>))"
  proof (cases "j = i")
    case False
    then have "ks[i := (ks ! i)\<lparr>heldItem := Some it\<rparr>] ! j = ks ! j"
      by (rule nth_list_update_neq[OF not_sym])
    then show ?thesis by (rule disjI1)
  next
    case True
    have e: "ks[i := (ks ! i)\<lparr>heldItem := Some it\<rparr>] ! i = (ks ! i)\<lparr>heldItem := Some it\<rparr>"
      using assms(2) by (rule nth_list_update_eq)
    have "\<exists>it' \<in> set AVAILABLE_ITEMS.
            ks[i := (ks ! i)\<lparr>heldItem := Some it\<rparr>] ! i = (ks ! i)\<lparr>heldItem := Some it'\<rparr>"
      by (rule bexI[where x=it, OF _ assms(1)]) (rule e)
    with assms(3) show ?thesis unfolding True by blast
  qed
qed

lemma boxKartLoop_grants:
  assumes u: "unitDraws rng"
  shows "grantsOnly ks (fst (snd (snd (boxKartLoop box i rng ks es))))
       \<and> unitDraws (fst (snd (boxKartLoop box i rng ks es)))"
proof (induction "length ks - i" arbitrary: i rule: less_induct)
  case less
  show ?case
  proof (cases "i < length ks")
    case False
    then show ?thesis
      unfolding boxKartLoop.simps[of box i rng ks es] using u by (simp add: grantsOnly_refl)
  next
    case True
    note i = this
    show ?thesis
    proof (cases "heldItem (ks ! i) = None \<and> inPickupRange box (ks ! i)")
      case False
      then have "boxKartLoop box i rng ks es = boxKartLoop box (Suc i) rng ks es"
        unfolding boxKartLoop.simps[of box i rng ks es] using i by (auto simp add: Let_def)
      moreover have "length ks - Suc i < length ks - i" using i by simp
      then have "grantsOnly ks (fst (snd (snd (boxKartLoop box (Suc i) rng ks es))))
           \<and> unitDraws (fst (snd (boxKartLoop box (Suc i) rng ks es)))"
        by (rule less)
      ultimately show ?thesis by simp
    next
      case True
      have "0 \<le> rng 0 \<and> rng 0 < 1" using u by (simp add: unitDraws_def)
      then obtain it where it: "it \<in> set AVAILABLE_ITEMS" "itemOfDraw (rng 0) = Some it"
        using itemOfDraw_unit[of "rng 0"] by auto
      have g: "grantsOnly ks (ks[i := (ks ! i)\<lparr>heldItem := Some it\<rparr>])"
        using it(1) i True by (intro grantsOnly_update) simp_all
      have "fst (snd (snd (boxKartLoop box i rng ks es))) = ks[i := (ks ! i)\<lparr>heldItem := Some it\<rparr>]"
        and "fst (snd (boxKartLoop box i rng ks es)) = snd (nextRandom rng)"
        unfolding boxKartLoop.simps[of box i rng ks es]
        using i True it(2) by (simp_all add: Let_def nextRandom_def)
      then show ?thesis using g unitDraws_next[OF u] by simp
    qed
  qed
qed

lemma boxStep_grants:
  assumes "unitDraws rng"
  shows "grantsOnly ks (fst (snd (snd (boxStep dt box (rng, ks, es)))))
       \<and> unitDraws (fst (snd (boxStep dt box (rng, ks, es))))"
  using boxKartLoop_grants[OF assms, of ks box 0 es] assms
  by (simp add: boxStep_def grantsOnly_refl)

lemma itemBoxesLoop_grants:
  assumes "unitDraws rng"
  shows "grantsOnly ks (fst (snd (snd (itemBoxesLoop dt boxes (rng, ks, es)))))"
  using assms
proof (induction boxes arbitrary: rng ks es)
  case Nil
  then show ?case by (simp add: grantsOnly_refl)
next
  case (Cons box boxes)
  obtain b1 r1 ks1 es1 where s1: "boxStep dt box (rng, ks, es) = (b1, r1, ks1, es1)"
    by (cases "boxStep dt box (rng, ks, es)") auto
  from boxStep_grants[OF Cons.prems, of ks dt box es] s1
  have g1: "grantsOnly ks ks1" and u1: "unitDraws r1" by simp_all
  from Cons.IH[OF u1, of ks1 es1] have "grantsOnly ks1 (fst (snd (snd (itemBoxesLoop dt boxes (r1, ks1, es1)))))" .
  with g1 have "grantsOnly ks (fst (snd (snd (itemBoxesLoop dt boxes (r1, ks1, es1)))))"
    by (rule grantsOnly_trans)
  moreover have "fst (snd (snd (itemBoxesLoop dt (box # boxes) (rng, ks, es))))
      = fst (snd (snd (itemBoxesLoop dt boxes (r1, ks1, es1))))"
    by (cases "itemBoxesLoop dt boxes (r1, ks1, es1)") (simp add: s1)
  ultimately show ?case by simp
qed


text \<open>The inner loop gives the item to the first kart, from index \<open>i\<close> on, that holds nothing
  and is in range of the box.\<close>

lemma boxKartLoop_first:
  "boxKartLoop box i rng ks es =
     (case filter (\<lambda>j. heldItem (ks ! j) = None \<and> inPickupRange box (ks ! j)) [i..<length ks] of
        [] \<Rightarrow> (box, rng, ks, es)
      | j # _ \<Rightarrow>
          (box\<lparr>respawnTimer := RESPAWN_TIME\<rparr>, snd (nextRandom rng),
           ks[j := (ks ! j)\<lparr>heldItem := itemOfDraw (rng 0)\<rparr>],
           es @ [ItemPickupEvent (kart_id (ks ! j)) (itemOfDraw (rng 0)) (box_index box)]))"
proof (induction "length ks - i" arbitrary: i rule: less_induct)
  case less
  show ?case
  proof (cases "i < length ks")
    case False
    then show ?thesis by (subst boxKartLoop.simps) simp
  next
    case True
    then have u: "[i..<length ks] = i # [Suc i..<length ks]" by (simp add: upt_conv_Cons)
    show ?thesis
    proof (cases "heldItem (ks ! i) = None \<and> inPickupRange box (ks ! i)")
      case False
      have "length ks - Suc i < length ks - i" using True by simp
      from less[OF this] False True show ?thesis
        by (subst boxKartLoop.simps) (auto simp add: u Let_def)
    next
      case g: True
      then show ?thesis using True
        by (subst boxKartLoop.simps) (simp add: u Let_def nextRandom_def)
    qed
  qed
qed

lemma boxStep_ready:
  assumes "\<not> respawnTimer box > 0"
  shows "boxStep dt box (rng, ks, es) =
     (case firstIndex (\<lambda>k. heldItem k = None \<and> inPickupRange box k) ks of
        None \<Rightarrow> (box, rng, ks, es)
      | Some j \<Rightarrow>
          (box\<lparr>respawnTimer := RESPAWN_TIME\<rparr>, snd (nextRandom rng),
           ks[j := (ks ! j)\<lparr>heldItem := itemOfDraw (rng 0)\<rparr>],
           es @ [ItemPickupEvent (kart_id (ks ! j)) (itemOfDraw (rng 0)) (box_index box)]))"
  using assms
  by (simp add: boxStep_def boxKartLoop_first[of box 0] firstIndex_def split: list.splits)

lemma boxStep_waiting:
  assumes "respawnTimer box > 0"
  shows "boxStep dt box (rng, ks, es) = (box\<lparr>respawnTimer := max 0 (respawnTimer box - dt)\<rparr>, rng, ks, es)"
  using assms by (simp add: boxStep_def max_def)

lemma stepsAfterPhysics_same:
  assumes "sameItems r1 r2"
  shows "fst (stepsAfterPhysics dt r1 room) = fst (stepsAfterPhysics dt r2 room)"
proof -
  define room2 where "room2 = room\<lparr>karts := resolveKartCollisions (karts room)\<rparr>"
  obtain pads karts3 boostEvents where
    p: "boostPadsUpdate (boostPads room2) (karts room2) dt = (pads, karts3, boostEvents)"
    by (cases "boostPadsUpdate (boostPads room2) (karts room2) dt") auto
  define room3 where "room3 = room2\<lparr>boostPads := pads, karts := karts3,
                              events := events room2 @ boostEvents\<rparr>"
  obtain b1 s1 k1 e1 where
    i1: "itemBoxesUpdate r1 (itemBoxes room3) (karts room3) dt = (b1, s1, k1, e1)"
    by (cases "itemBoxesUpdate r1 (itemBoxes room3) (karts room3) dt") auto
  obtain b2 s2 k2 e2 where
    i2: "itemBoxesUpdate r2 (itemBoxes room3) (karts room3) dt = (b2, s2, k2, e2)"
    by (cases "itemBoxesUpdate r2 (itemBoxes room3) (karts room3) dt") auto
  have "outcome (itemBoxesUpdate r1 (itemBoxes room3) (karts room3) dt)
      = outcome (itemBoxesUpdate r2 (itemBoxes room3) (karts room3) dt)"
    unfolding itemBoxesUpdate_def using itemBoxesLoop_same[OF assms] by blast
  then have eq: "b1 = b2" "k1 = k2" "e1 = e2" by (simp_all add: i1 i2 outcome_def)
  have "stepsAfterPhysics dt r room =
      (case itemBoxesUpdate r (itemBoxes room3) (karts room3) dt of
         (boxes, rng2, karts4, itemEvents) \<Rightarrow>
           (let room4 = room3\<lparr>itemBoxes := boxes, karts := karts4,
                               events := events room3 @ itemEvents\<rparr>;
                room5 = activateItems room4
            in case tntUpdate (tntSystem room5) (karts room5) dt of
                 (placed, karts6, tntEvents) \<Rightarrow>
                  (let room6 = room5\<lparr>tntSystem := placed, karts := karts6,
                                     events := events room5 @ tntEvents\<rparr>
                   in case missileUpdate (missileSystem room6) (karts room6) dt of
                        (active, karts7, missileEvents) \<Rightarrow>
                          (clearTaps
                             (room6\<lparr>missileSystem := active, karts := karts7,
                                    events := events room6 @ missileEvents\<rparr>),
                           rng2))))" for r
    unfolding stepsAfterPhysics_def room3_def
    by (simp only: Let_def room2_def[symmetric] p prod.case)
  then show ?thesis
    by (simp add: i1 i2 eq Let_def split: prod.splits)
qed

text \<open>
  C4 (amended). The boost-pad, explosive and projectile updates take their state, the karts
  and \<open>dt\<close> and nothing else; the item-box update also takes the values \<open>Math.random\<close> returns.
  Two runs of the item-box update from the same boxes and karts with the same \<open>dt\<close> whose
  draws select the same items give the same boxes, karts and events, and so do two runs of
  steps 4 to 10 of a tick from the same room (collisions, boost pads, item boxes, item
  activation, explosives, projectiles). For each box in turn: a box whose respawn timer runs
  only counts it down; a box that is ready gives the first kart that holds nothing and is
  within the pickup radius the item the next draw selects, starts its respawn timer and emits
  the pickup event, and does nothing when there is no such kart. With draws in \<open>[0, 1)\<close>
  the update changes a kart only by giving a kart that holds nothing one item of the fixed
  set.
\<close>

theorem item_pickup_depends_on_draws:
  "(sameItems r1 r2 \<longrightarrow>
      outcome (itemBoxesUpdate r1 boxes ks dt) = outcome (itemBoxesUpdate r2 boxes ks dt))
   \<and> (sameItems r1 r2 \<longrightarrow>
      fst (stepsAfterPhysics dt r1 room) = fst (stepsAfterPhysics dt r2 room))
   \<and> (unitDraws r1 \<longrightarrow> grantsOnly ks (fst (snd (snd (itemBoxesUpdate r1 boxes ks dt)))))
   \<and> (respawnTimer box > 0 \<longrightarrow>
        boxStep dt box (r1, ks, es)
          = (box\<lparr>respawnTimer := max 0 (respawnTimer box - dt)\<rparr>, r1, ks, es))
   \<and> (\<not> respawnTimer box > 0 \<longrightarrow>
        boxStep dt box (r1, ks, es)
          = (case firstIndex (\<lambda>k. heldItem k = None \<and> inPickupRange box k) ks of
               None \<Rightarrow> (box, r1, ks, es)
             | Some j \<Rightarrow>
                 (box\<lparr>respawnTimer := RESPAWN_TIME\<rparr>, snd (nextRandom r1),
                  ks[j := (ks ! j)\<lparr>heldItem := itemOfDraw (r1 0)\<rparr>],
                  es @ [ItemPickupEvent (kart_id (ks ! j)) (itemOfDraw (r1 0)) (box_index box)])))"
proof -
  have a: "sameItems r1 r2 \<longrightarrow>
      outcome (itemBoxesUpdate r1 boxes ks dt) = outcome (itemBoxesUpdate r2 boxes ks dt)"
    unfolding itemBoxesUpdate_def using itemBoxesLoop_same[of r1 r2 dt boxes ks "[]"] by blast
  have b: "sameItems r1 r2 \<longrightarrow>
      fst (stepsAfterPhysics dt r1 room) = fst (stepsAfterPhysics dt r2 room)"
    using stepsAfterPhysics_same[of r1 r2 dt room] by blast
  have c: "unitDraws r1 \<longrightarrow> grantsOnly ks (fst (snd (snd (itemBoxesUpdate r1 boxes ks dt))))"
    unfolding itemBoxesUpdate_def using itemBoxesLoop_grants[of r1 ks dt boxes "[]"] by blast
  from a b c boxStep_waiting[of box dt r1 ks es] boxStep_ready[of box dt r1 ks es]
  show ?thesis by blast
qed

lemma draws_items:
  "itemOfDraw (1/10) = Some Boost" "itemOfDraw (2/10) = Some Boost" "itemOfDraw (5/10) = Some TNT"
  by (simp_all add: itemOfDraw_def AVAILABLE_ITEMS_def Let_def)

lemma pickup_at_readyBox:
  "itemBoxesUpdate rng [readyBox] [emptyHanded] dt
     = ([readyBox\<lparr>respawnTimer := RESPAWN_TIME\<rparr>], snd (nextRandom rng),
        [emptyHanded\<lparr>heldItem := itemOfDraw (rng 0)\<rparr>],
        [ItemPickupEvent ''p1'' (itemOfDraw (rng 0)) 0])"
proof -
  have r: "inPickupRange readyBox emptyHanded"
    by (simp add: inPickupRange_def readyBox_def emptyHanded_def createServerKart_def
        PICKUP_RADIUS_def Let_def)
  have h: "heldItem emptyHanded = None" "kart_id emptyHanded = ''p1''"
    by (simp_all add: emptyHanded_def createServerKart_def)
  have t: "\<not> respawnTimer readyBox > 0" "box_index readyBox = 0" by (simp_all add: readyBox_def)
  have "boxKartLoop readyBox 0 rng [emptyHanded] []
     = (readyBox\<lparr>respawnTimer := RESPAWN_TIME\<rparr>, snd (nextRandom rng),
        [emptyHanded\<lparr>heldItem := itemOfDraw (rng 0)\<rparr>],
        [ItemPickupEvent ''p1'' (itemOfDraw (rng 0)) 0])"
    by (subst boxKartLoop.simps) (simp add: r h t nextRandom_def)
  then show ?thesis by (simp add: itemBoxesUpdate_def boxStep_def t)
qed

theorem item_pickup_depends_on_draws_witness:
  "sameItems drawsLow drawsLow2 \<and> unitDraws drawsLow \<and> \<not> respawnTimer readyBox > 0
   \<and> firstIndex (\<lambda>k. heldItem k = None \<and> inPickupRange readyBox k) [emptyHanded] = Some 0
   \<and> boxStep (1/60) readyBox (drawsLow, [emptyHanded], [])
       = (readyBox\<lparr>respawnTimer := RESPAWN_TIME\<rparr>, snd (nextRandom drawsLow),
          [emptyHanded\<lparr>heldItem := Some Boost\<rparr>], [ItemPickupEvent ''p1'' (Some Boost) 0])
   \<and> outcome (itemBoxesUpdate drawsLow [readyBox] [emptyHanded] (1/60))
       = outcome (itemBoxesUpdate drawsLow2 [readyBox] [emptyHanded] (1/60))
   \<and> grantsOnly [emptyHanded]
        (fst (snd (snd (itemBoxesUpdate drawsLow [readyBox] [emptyHanded] (1/60)))))
   \<and> fst (snd (snd (itemBoxesUpdate drawsLow [readyBox] [emptyHanded] (1/60))))
       = [emptyHanded\<lparr>heldItem := Some Boost\<rparr>]"
proof -
  have s: "sameItems drawsLow drawsLow2"
    using draws_items by (simp add: sameItems_def drawsLow_def drawsLow2_def)
  have u: "unitDraws drawsLow" by (simp add: unitDraws_def drawsLow_def)
  have k: "fst (snd (snd (itemBoxesUpdate drawsLow [readyBox] [emptyHanded] (1/60))))
       = [emptyHanded\<lparr>heldItem := Some Boost\<rparr>]"
    using draws_items(1) by (simp add: pickup_at_readyBox drawsLow_def)
  have t: "\<not> respawnTimer readyBox > 0" by (simp add: readyBox_def)
  have fi: "firstIndex (\<lambda>k. heldItem k = None \<and> inPickupRange readyBox k) [emptyHanded] = Some 0"
    by (simp add: firstIndex_def inPickupRange_def readyBox_def emptyHanded_def
        createServerKart_def PICKUP_RADIUS_def Let_def)
  note inst = item_pickup_depends_on_draws[of drawsLow drawsLow2 "[readyBox]" "[emptyHanded]"
      "1/60" _ readyBox "[]"]
  have bs: "boxStep (1/60) readyBox (drawsLow, [emptyHanded], [])
       = (readyBox\<lparr>respawnTimer := RESPAWN_TIME\<rparr>, snd (nextRandom drawsLow),
          [emptyHanded\<lparr>heldItem := Some Boost\<rparr>], [ItemPickupEvent ''p1'' (Some Boost) 0])"
    using inst[THEN conjunct2, THEN conjunct2, THEN conjunct2, THEN conjunct2, rule_format, OF t]
      draws_items(1)
    by (simp add: fi drawsLow_def) (simp add: emptyHanded_def createServerKart_def readyBox_def)
  from inst s u k t fi bs
  show ?thesis by blast
qed

text \<open>The same box, kart and \<open>dt\<close> with two different draws: the kart is given the boost
  item for one and the explosive for the other, and the events differ with it.\<close>

theorem item_pickup_differs_with_draw_counterexample:
  "itemBoxesUpdate drawsLow [readyBox] [emptyHanded] (1/60)
     = ([readyBox\<lparr>respawnTimer := RESPAWN_TIME\<rparr>], snd (nextRandom drawsLow),
        [emptyHanded\<lparr>heldItem := Some Boost\<rparr>], [ItemPickupEvent ''p1'' (Some Boost) 0])
   \<and> itemBoxesUpdate drawsMid [readyBox] [emptyHanded] (1/60)
     = ([readyBox\<lparr>respawnTimer := RESPAWN_TIME\<rparr>], snd (nextRandom drawsMid),
        [emptyHanded\<lparr>heldItem := Some TNT\<rparr>], [ItemPickupEvent ''p1'' (Some TNT) 0])
   \<and> snd (snd (snd (itemBoxesUpdate drawsLow [readyBox] [emptyHanded] (1/60))))
       \<noteq> snd (snd (snd (itemBoxesUpdate drawsMid [readyBox] [emptyHanded] (1/60))))"
  using draws_items by (simp add: pickup_at_readyBox drawsLow_def drawsMid_def)

end
